theory Spec2Isabelle
  imports Complex_Main "HOL-Library.AList" "HOL-Library.Sublist"
begin

section \<open>Python values and primitives used by the platform modules\<close>

text \<open>
  The three modules (\<^verbatim>\<open>platform/standard.py\<close>, \<^verbatim>\<open>platform/dapp.py\<close>,
  \<^verbatim>\<open>platform/waffle.py\<close>) work on documents returned by \<^verbatim>\<open>json.load\<close>: dynamically
  typed values. A \<^verbatim>\<open>dict\<close> is an association list in insertion order (the order in
  which \<^verbatim>\<open>.items()\<close> iterates); a dictionary built by Python never repeats a key.
  Strings are lists of characters.
\<close>

datatype json =
    JNull
  | JBool bool
  | JInt int
  | JFloat real
  | JStr string
  | JArr "json list"
  | JObj "(string \<times> json) list"

text \<open>The exceptions the modelled statements can raise.\<close>

datatype error =
    KeyError string
  | TypeError
  | AttributeError
  | ValueError
  | IndexError
  | JSONDecodeError
  | InvalidCompilation

text \<open>Sequencing of computations that may raise, without state.\<close>

definition bindR :: "error + 'a \<Rightarrow> ('a \<Rightarrow> error + 'b) \<Rightarrow> error + 'b" where
  "bindR r f = (case r of Inl e \<Rightarrow> Inl e | Inr x \<Rightarrow> f x)"

text \<open>\<^verbatim>\<open>d[k]\<close> with a string key: only a dict supports it; a missing key is a KeyError.\<close>

definition getitem :: "json \<Rightarrow> string \<Rightarrow> error + json" where
  "getitem d k =
     (case d of
        JObj kvs \<Rightarrow> (case map_of kvs k of None \<Rightarrow> Inl (KeyError k) | Some v \<Rightarrow> Inr v)
      | _ \<Rightarrow> Inl TypeError)"

text \<open>\<^verbatim>\<open>d[k1][k2]\<close>.\<close>

definition getitem2 :: "json \<Rightarrow> string \<Rightarrow> string \<Rightarrow> error + json" where
  "getitem2 d k1 k2 = bindR (getitem d k1) (\<lambda>x. getitem x k2)"

text \<open>\<^verbatim>\<open>d.get(k, default)\<close>: a method of dict only.\<close>

definition get_default :: "json \<Rightarrow> string \<Rightarrow> json \<Rightarrow> error + json" where
  "get_default d k dflt =
     (case d of
        JObj kvs \<Rightarrow> (case map_of kvs k of None \<Rightarrow> Inr dflt | Some v \<Rightarrow> Inr v)
      | _ \<Rightarrow> Inl AttributeError)"

text \<open>\<^verbatim>\<open>d.items()\<close>: a method of dict only.\<close>

definition items :: "json \<Rightarrow> error + (string \<times> json) list" where
  "items d = (case d of JObj kvs \<Rightarrow> Inr kvs | _ \<Rightarrow> Inl AttributeError)"

text \<open>
  \<^verbatim>\<open>k in d\<close> for a string \<^verbatim>\<open>k\<close>: key membership for a dict, substring for a string,
  element membership for a list, a TypeError otherwise.
\<close>

definition py_in :: "string \<Rightarrow> json \<Rightarrow> error + bool" where
  "py_in k d =
     (case d of
        JObj kvs \<Rightarrow> Inr (map_of kvs k \<noteq> None)
      | JStr s \<Rightarrow> Inr (sublist k s)
      | JArr xs \<Rightarrow> Inr (JStr k \<in> set xs)
      | _ \<Rightarrow> Inl TypeError)"

text \<open>Truth value of a value in \<^verbatim>\<open>if v:\<close>.\<close>

fun truthy :: "json \<Rightarrow> bool" where
  "truthy JNull = False"
| "truthy (JBool b) = b"
| "truthy (JInt i) = (i \<noteq> 0)"
| "truthy (JFloat r) = (r \<noteq> 0)"
| "truthy (JStr s) = (s \<noteq> [])"
| "truthy (JArr xs) = (xs \<noteq> [])"
| "truthy (JObj kvs) = (kvs \<noteq> [])"

text \<open>Lists and dicts cannot be members of a \<^verbatim>\<open>set\<close>: \<^verbatim>\<open>set.add\<close> raises TypeError.\<close>

fun hashable :: "json \<Rightarrow> bool" where
  "hashable (JArr xs) = False"
| "hashable (JObj kvs) = False"
| "hashable v = True"

subsection \<open>\<^verbatim>\<open>str.split\<close> and \<^verbatim>\<open>str.join\<close>\<close>

text \<open>
  \<^verbatim>\<open>s.split(sep)\<close> for a one-character separator: the result is never empty
  (\<^verbatim>\<open>"".split(";") == [""]\<close>).
\<close>

fun split_on :: "char \<Rightarrow> string \<Rightarrow> string list" where
  "split_on c [] = [[]]"
| "split_on c (x # xs) =
     (if x = c then [] # split_on c xs
      else (case split_on c xs of [] \<Rightarrow> [[x]] | w # ws \<Rightarrow> (x # w) # ws))"

text \<open>\<^verbatim>\<open>sep.join(xs)\<close>.\<close>

fun join :: "string \<Rightarrow> string list \<Rightarrow> string" where
  "join sep [] = []"
| "join sep [x] = x"
| "join sep (x # y # ys) = x @ sep @ join sep (y # ys)"

text \<open>\<^verbatim>\<open>v.split(";")\<close> on a dynamically typed value: a method of str only.\<close>

definition split_semicolon :: "json \<Rightarrow> error + string list" where
  "split_semicolon v = (case v of JStr s \<Rightarrow> Inr (split_on (CHR '';'') s) | _ \<Rightarrow> Inl AttributeError)"

subsection \<open>\<^verbatim>\<open>pathlib\<close> paths (POSIX flavour)\<close>

text \<open>
  A \<^verbatim>\<open>Path\<close> is modelled by its \<^verbatim>\<open>parts\<close>. \<^verbatim>\<open>Path(s).parts\<close> splits at \<^verbatim>\<open>/\<close>, drops empty
  and \<^verbatim>\<open>.\<close> components, and starts with the root (\<^verbatim>\<open>/\<close>, or \<^verbatim>\<open>//\<close> for exactly two
  leading slashes) when the string is absolute.
\<close>

type_synonym path = "string list"

definition path_root :: "string \<Rightarrow> string" where
  "path_root s =
     (let n = length (takeWhile (\<lambda>c. c = CHR ''/'') s)
      in if n = 0 then [] else if n = 2 then ''//'' else ''/'')"

definition Path :: "string \<Rightarrow> path" where
  "Path s =
     (let comps = filter (\<lambda>c. c \<noteq> [] \<and> c \<noteq> ''.'') (split_on (CHR ''/'') s)
      in if path_root s = [] then comps else path_root s # comps)"

text \<open>
  \<^verbatim>\<open>p.relative_to(other)\<close>: the parts of \<^verbatim>\<open>other\<close> must be a prefix of the parts of \<^verbatim>\<open>p\<close>;
  the result is what remains. Otherwise ValueError.
\<close>

definition relative_to :: "path \<Rightarrow> path \<Rightarrow> error + path" where
  "relative_to p other =
     (if prefix other p then Inr (drop (length other) p) else Inl ValueError)"

section \<open>Short-path rules of the adapters\<close>

text \<open>
  \<^verbatim>\<open>dapp._relative_to_short\<close>: \<^verbatim>\<open>try: short.relative_to(Path("src"))\<close>, on ValueError
  \<^verbatim>\<open>try: short.relative_to("lib")\<close>, on ValueError keep the path.
\<close>

definition dapp_relative_to_short :: "path \<Rightarrow> path" where
  "dapp_relative_to_short relative =
     (case relative_to relative (Path ''src'') of
        Inr short \<Rightarrow> short
      | Inl _ \<Rightarrow>
          (case relative_to relative (Path ''lib'') of
             Inr short \<Rightarrow> short
           | Inl _ \<Rightarrow> relative))"

text \<open>\<^verbatim>\<open>waffle._relative_to_short\<close>: the same with \<^verbatim>\<open>contracts\<close>, then \<^verbatim>\<open>node_modules\<close>.\<close>

definition waffle_relative_to_short :: "path \<Rightarrow> path" where
  "waffle_relative_to_short relative =
     (case relative_to relative (Path ''contracts'') of
        Inr short \<Rightarrow> short
      | Inl _ \<Rightarrow>
          (case relative_to relative (Path ''node_modules'') of
             Inr short \<Rightarrow> short
           | Inl _ \<Rightarrow> relative))"

text \<open>\<^verbatim>\<open>standard._relative_to_short\<close> returns its argument.\<close>

definition standard_relative_to_short :: "path \<Rightarrow> path" where
  "standard_relative_to_short relative = relative"

section \<open>Dependency predicates of the adapters\<close>

text \<open>
  \<^verbatim>\<open>self._cached_dependencies\<close> is a dict from path strings to booleans, owned by the
  platform object; a call returns its result and the updated cache.
\<close>

type_synonym dep_cache = "string \<rightharpoonup> bool"

text \<open>
  \<^verbatim>\<open>Dapp.is_dependency\<close>: a cached path returns the cached value; otherwise the
  \<^verbatim>\<open>node_modules\<close> test is stored in the cache and the \<^verbatim>\<open>lib\<close> test is returned.
\<close>

definition dapp_is_dependency :: "dep_cache \<Rightarrow> string \<Rightarrow> bool \<times> dep_cache" where
  "dapp_is_dependency cache p =
     (case cache p of
        Some b \<Rightarrow> (b, cache)
      | None \<Rightarrow>
          (let ret = (''node_modules'' \<in> set (Path p))
           in (''lib'' \<in> set (Path p), cache(p \<mapsto> ret))))"

text \<open>\<^verbatim>\<open>Waffle.is_dependency\<close>: the \<^verbatim>\<open>node_modules\<close> test, cached and returned.\<close>

definition waffle_is_dependency :: "dep_cache \<Rightarrow> string \<Rightarrow> bool \<times> dep_cache" where
  "waffle_is_dependency cache p =
     (case cache p of
        Some b \<Rightarrow> (b, cache)
      | None \<Rightarrow>
          (let ret = (''node_modules'' \<in> set (Path p))
           in (ret, cache(p \<mapsto> ret))))"

text \<open>\<^verbatim>\<open>Standard.is_dependency\<close>: always False.\<close>

definition standard_is_dependency :: "string \<Rightarrow> bool" where
  "standard_is_dependency p = False"

text \<open>A run of calls to \<^verbatim>\<open>Dapp.is_dependency\<close> on one platform object: the cache after them.\<close>

fun dapp_calls :: "dep_cache \<Rightarrow> string list \<Rightarrow> dep_cache" where
  "dapp_calls cache [] = cache"
| "dapp_calls cache (q # qs) = dapp_calls (snd (dapp_is_dependency cache q)) qs"

section \<open>The canonical data model\<close>

text \<open>
  The classes \<^verbatim>\<open>Filename\<close>, \<^verbatim>\<open>CompilerVersion\<close>, \<^verbatim>\<open>Natspec\<close>, \<^verbatim>\<open>CompilationUnit\<close> and
  \<^verbatim>\<open>CryticCompile\<close> are declared outside the three platform modules. Their fields are the
  ones the platform modules read and write; field values are dynamically typed, since
  the import stores whatever the document holds.
\<close>

record Filename =
  absolute :: json
  used :: json
  relative :: json
  short :: json

record CompilerVersion =
  compiler :: json
  version :: json
  optimized :: json

record Natspec =
  userdoc :: json
  devdoc :: json

text \<open>
  \<^verbatim>\<open>contracts_filenames\<close> holds \<^verbatim>\<open>Filename\<close> objects when filled by the import, and the raw
  string key of the build output when filled by \<^verbatim>\<open>Dapp.compile\<close>.
\<close>

datatype filename_entry = FilenameObj Filename | StrObj string

text \<open>
  \<^verbatim>\<open>contracts_names\<close> is a Python set; it is kept as a list without repetition so that
  the export can iterate over it, and read through \<open>set\<close>.
\<close>

record CompilationUnit =
  unique_id :: string
  contracts_names :: "string list"
  contracts_filenames :: "(string \<times> filename_entry) list"
  abis :: "(string \<times> json) list"
  bytecodes_init :: "(string \<times> json) list"
  bytecodes_runtime :: "(string \<times> json) list"
  srcmaps_init :: "(string \<times> string list) list"
  srcmaps_runtime :: "(string \<times> string list) list"
  libraries :: "(string \<times> json) list"
  natspec :: "(string \<times> Natspec) list"
  asts :: json
  compiler_version :: "CompilerVersion option"

text \<open>The platform object as the export reads it.\<close>

record Platform =
  platform_type_used :: int
  guessed_tests :: json

record CryticCompile =
  compilation_units :: "(string \<times> CompilationUnit) list"
  filenames :: "filename_entry set"
  dependencies :: "json set"
  package_name :: json
  working_dir :: json
  platform :: Platform

text \<open>
  Modelled from the spec: the constructor \<^verbatim>\<open>CompilationUnit(crytic_compile, key)\<close>
  (\<^verbatim>\<open>compilation_unit.py\<close> is not among the sources). It creates a unit with empty
  mappings and no compiler version, and the session's mapping holds it under its key.
\<close>

definition new_CompilationUnit :: "string \<Rightarrow> CompilationUnit" where
  "new_CompilationUnit key =
     \<lparr>unique_id = key, contracts_names = [], contracts_filenames = [], abis = [],
      bytecodes_init = [], bytecodes_runtime = [], srcmaps_init = [], srcmaps_runtime = [],
      libraries = [], natspec = [], asts = JObj [], compiler_version = None\<rparr>"

text \<open>A session before any adapter ran.\<close>

definition empty_session :: "Platform \<Rightarrow> CryticCompile" where
  "empty_session pf =
     \<lparr>compilation_units = [], filenames = {}, dependencies = {}, package_name = JNull,
      working_dir = JNull, platform = pf\<rparr>"

section \<open>Statements that mutate a state and may raise\<close>

text \<open>
  A statement maps the state before it to its outcome and the state after it. When it
  raises, the state is the one reached at the point of the exception: objects are
  mutated in place and nothing is rolled back.
\<close>

type_synonym ('s, 'a) stmt = "'s \<Rightarrow> (error + 'a) \<times> 's"

definition returnE :: "'a \<Rightarrow> ('s, 'a) stmt" where
  "returnE x = (\<lambda>s. (Inr x, s))"

definition liftE :: "error + 'a \<Rightarrow> ('s, 'a) stmt" where
  "liftE r = (\<lambda>s. (r, s))"

definition modify :: "('s \<Rightarrow> 's) \<Rightarrow> ('s, unit) stmt" where
  "modify f = (\<lambda>s. (Inr (), f s))"

definition bindE :: "('s, 'a) stmt \<Rightarrow> ('a \<Rightarrow> ('s, 'b) stmt) \<Rightarrow> ('s, 'b) stmt" where
  "bindE m f = (\<lambda>s. case m s of (Inl e, s') \<Rightarrow> (Inl e, s') | (Inr x, s') \<Rightarrow> f x s')"

definition seqE :: "('s, unit) stmt \<Rightarrow> ('s, 'b) stmt \<Rightarrow> ('s, 'b) stmt" where
  "seqE m n = bindE m (\<lambda>_. n)"

text \<open>A block of statements, and a \<^verbatim>\<open>for\<close> loop over a list.\<close>

fun block :: "('s, unit) stmt list \<Rightarrow> ('s, unit) stmt" where
  "block [] = returnE ()"
| "block (m # ms) = seqE m (block ms)"

fun for_each :: "'a list \<Rightarrow> ('a \<Rightarrow> ('s, unit) stmt) \<Rightarrow> ('s, unit) stmt" where
  "for_each [] f = returnE ()"
| "for_each (x # xs) f = seqE (f x) (for_each xs f)"

section \<open>Import: \<^verbatim>\<open>load_from_compile\<close>\<close>

text \<open>
  While a unit is populated the local variable \<^verbatim>\<open>compilation_unit\<close> and the session's
  mapping refer to the same object. The statements of the loops run on the pair of that
  unit and the session's dependency set; \<open>in_unit\<close> runs the constructor, then the
  statements, and leaves in the session what they reached, also when they raise.
\<close>

type_synonym ustate = "CompilationUnit \<times> json set"

definition in_unit :: "string \<Rightarrow> (ustate, 'a) stmt \<Rightarrow> (CryticCompile, 'a) stmt" where
  "in_unit key body =
     (\<lambda>s. let s1 = s\<lparr>compilation_units :=
                       AList.update key (new_CompilationUnit key) (compilation_units s)\<rparr>
          in case body (new_CompilationUnit key, dependencies s1) of
               (r, (u, d)) \<Rightarrow>
                 (r, s1\<lparr>compilation_units := AList.update key u (compilation_units s1),
                        dependencies := d\<rparr>))"

text \<open>\<^verbatim>\<open>compilation_unit.field[...] = expr\<close>: evaluate, then assign.\<close>

definition store :: "error + 'a \<Rightarrow> ('a \<Rightarrow> CompilationUnit \<Rightarrow> CompilationUnit) \<Rightarrow> (ustate, unit) stmt" where
  "store r f = bindE (liftE r) (\<lambda>v. modify (\<lambda>(u, d). (f v u, d)))"

text \<open>\<^verbatim>\<open>contracts_names.add(name)\<close>.\<close>

definition add_name :: "string \<Rightarrow> string list \<Rightarrow> string list" where
  "add_name n ns = (if n \<in> set ns then ns else ns @ [n])"

text \<open>\<^verbatim>\<open>dependencies.add(v)\<close>: TypeError for an unhashable value.\<close>

definition dep_add :: "json \<Rightarrow> (ustate, unit) stmt" where
  "dep_add v = (\<lambda>(u, d). if hashable v then (Inr (), (u, insert v d)) else (Inl TypeError, (u, d)))"

text \<open>
  \<^verbatim>\<open>Filename(absolute=contract["filenames"]["absolute"], relative=..., short=..., used=...)\<close>:
  the keyword arguments are evaluated in this order.
\<close>

definition read_Filename :: "json \<Rightarrow> error + Filename" where
  "read_Filename contract =
     bindR (getitem2 contract ''filenames'' ''absolute'') (\<lambda>a.
     bindR (getitem2 contract ''filenames'' ''relative'') (\<lambda>r.
     bindR (getitem2 contract ''filenames'' ''short'') (\<lambda>sh.
     bindR (getitem2 contract ''filenames'' ''used'') (\<lambda>us.
     Inr \<lparr>absolute = a, used = us, relative = r, short = sh\<rparr>))))"

text \<open>
  \<^verbatim>\<open>CompilerVersion(compiler=j["compiler"]["compiler"], version=j["compiler"]["version"],
  optimized=j["compiler"]["optimized"])\<close>.
\<close>

definition read_CompilerVersion :: "json \<Rightarrow> error + CompilerVersion" where
  "read_CompilerVersion j =
     bindR (getitem2 j ''compiler'' ''compiler'') (\<lambda>c.
     bindR (getitem2 j ''compiler'' ''version'') (\<lambda>v.
     bindR (getitem2 j ''compiler'' ''optimized'') (\<lambda>opt.
     Inr \<lparr>compiler = c, version = v, optimized = opt\<rparr>)))"

text \<open>
  \<^verbatim>\<open>userdoc = contract.get("userdoc", {}); devdoc = contract.get("devdoc", {});
  Natspec(userdoc, devdoc)\<close>. Modelled from the spec: \<^verbatim>\<open>Natspec\<close> (\<^verbatim>\<open>utils/natspec.py\<close> is
  not among the sources) keeps the two buckets as opaque structures.
\<close>

definition read_Natspec :: "json \<Rightarrow> error + Natspec" where
  "read_Natspec contract =
     bindR (get_default contract ''userdoc'' (JObj [])) (\<lambda>ud.
     bindR (get_default contract ''devdoc'' (JObj [])) (\<lambda>dd.
     Inr \<lparr>userdoc = ud, devdoc = dd\<rparr>))"

text \<open>The body of the contract loop of \<^verbatim>\<open>_load_from_compile_legacy\<close> (lines 199 to 223).\<close>

definition load_contract_legacy :: "string \<Rightarrow> json \<Rightarrow> (ustate, unit) stmt" where
  "load_contract_legacy contract_name contract =
     seqE (modify (\<lambda>(u, d). (u\<lparr>contracts_names := add_name contract_name (contracts_names u)\<rparr>, d)))
    (bindE (liftE (read_Filename contract)) (\<lambda>filename.
     block
      [store (Inr (FilenameObj filename))
         (\<lambda>v u. u\<lparr>contracts_filenames := AList.update contract_name v (contracts_filenames u)\<rparr>),
       store (getitem contract ''abi'')
         (\<lambda>v u. u\<lparr>abis := AList.update contract_name v (abis u)\<rparr>),
       store (getitem contract ''bin'')
         (\<lambda>v u. u\<lparr>bytecodes_init := AList.update contract_name v (bytecodes_init u)\<rparr>),
       store (getitem contract ''bin-runtime'')
         (\<lambda>v u. u\<lparr>bytecodes_runtime := AList.update contract_name v (bytecodes_runtime u)\<rparr>),
       store (bindR (getitem contract ''srcmap'') split_semicolon)
         (\<lambda>v u. u\<lparr>srcmaps_init := AList.update contract_name v (srcmaps_init u)\<rparr>),
       store (bindR (getitem contract ''srcmap-runtime'') split_semicolon)
         (\<lambda>v u. u\<lparr>srcmaps_runtime := AList.update contract_name v (srcmaps_runtime u)\<rparr>),
       store (getitem contract ''libraries'')
         (\<lambda>v u. u\<lparr>libraries := AList.update contract_name v (libraries u)\<rparr>),
       store (read_Natspec contract)
         (\<lambda>v u. u\<lparr>natspec := AList.update contract_name v (natspec u)\<rparr>),
       bindE (liftE (getitem contract ''is_dependency'')) (\<lambda>dep.
         if truthy dep
         then block [dep_add (absolute filename), dep_add (relative filename),
                     dep_add (short filename), dep_add (used filename)]
         else returnE ())]))"

text \<open>\<^verbatim>\<open>_load_from_compile_legacy\<close>: one unit keyed \<^verbatim>\<open>"legacy"\<close>.\<close>

definition load_from_compile_legacy :: "json \<Rightarrow> (CryticCompile, unit) stmt" where
  "load_from_compile_legacy loaded_json =
     in_unit ''legacy''
       (block
         [store (getitem loaded_json ''asts'') (\<lambda>v u. u\<lparr>asts := v\<rparr>),
          store (read_CompilerVersion loaded_json) (\<lambda>v u. u\<lparr>compiler_version := Some v\<rparr>),
          bindE (liftE (bindR (getitem loaded_json ''contracts'') items)) (\<lambda>cs.
            for_each cs (\<lambda>(contract_name, contract). load_contract_legacy contract_name contract))])"

text \<open>The body of the contract loop of \<^verbatim>\<open>load_from_compile\<close> (lines 248 to 274).\<close>

definition load_contract :: "string \<Rightarrow> json \<Rightarrow> (ustate, unit) stmt" where
  "load_contract contract_name contract =
     seqE (modify (\<lambda>(u, d). (u\<lparr>contracts_names := add_name contract_name (contracts_names u)\<rparr>, d)))
    (bindE (liftE (read_Filename contract)) (\<lambda>filename.
     block
      [store (Inr (FilenameObj filename))
         (\<lambda>v u. u\<lparr>contracts_filenames := AList.update contract_name v (contracts_filenames u)\<rparr>),
       store (getitem contract ''abi'')
         (\<lambda>v u. u\<lparr>abis := AList.update contract_name v (abis u)\<rparr>),
       store (getitem contract ''bin'')
         (\<lambda>v u. u\<lparr>bytecodes_init := AList.update contract_name v (bytecodes_init u)\<rparr>),
       store (getitem contract ''bin-runtime'')
         (\<lambda>v u. u\<lparr>bytecodes_runtime := AList.update contract_name v (bytecodes_runtime u)\<rparr>),
       store (bindR (getitem contract ''srcmap'') split_semicolon)
         (\<lambda>v u. u\<lparr>srcmaps_init := AList.update contract_name v (srcmaps_init u)\<rparr>),
       store (bindR (getitem contract ''srcmap-runtime'') split_semicolon)
         (\<lambda>v u. u\<lparr>srcmaps_runtime := AList.update contract_name v (srcmaps_runtime u)\<rparr>),
       store (getitem contract ''libraries'')
         (\<lambda>v u. u\<lparr>libraries := AList.update contract_name v (libraries u)\<rparr>),
       store (read_Natspec contract)
         (\<lambda>v u. u\<lparr>natspec := AList.update contract_name v (natspec u)\<rparr>),
       bindE (liftE (getitem contract ''is_dependency'')) (\<lambda>dep.
         if truthy dep
         then block [dep_add (absolute filename), dep_add (relative filename),
                     dep_add (short filename), dep_add (used filename)]
         else returnE ())]))"

text \<open>One iteration of the loop over \<^verbatim>\<open>loaded_json["compilation_units"].items()\<close>.\<close>

definition load_unit :: "string \<Rightarrow> json \<Rightarrow> (CryticCompile, unit) stmt" where
  "load_unit key compilation_unit_json =
     in_unit key
       (block
         [store (read_CompilerVersion compilation_unit_json)
            (\<lambda>v u. u\<lparr>compiler_version := Some v\<rparr>),
          bindE (liftE (bindR (getitem compilation_unit_json ''contracts'') items)) (\<lambda>cs.
            for_each cs (\<lambda>(contract_name, contract). load_contract contract_name contract)),
          store (getitem compilation_unit_json ''asts'') (\<lambda>v u. u\<lparr>asts := v\<rparr>)])"

text \<open>
  \<^verbatim>\<open>for compilation_unit in crytic_compile.compilation_units.values():
  crytic_compile.filenames |= set(compilation_unit.contracts_filenames.values())\<close>.
  Modelled from the spec: \<^verbatim>\<open>Filename\<close> is a value type; its objects are compared by their
  four fields.
\<close>

definition set_filenames :: "CryticCompile \<Rightarrow> CryticCompile" where
  "set_filenames s =
     s\<lparr>filenames :=
         foldl (\<lambda>fs (key, u). fs \<union> snd ` set (contracts_filenames u))
           (filenames s) (compilation_units s)\<rparr>"

text \<open>\<^verbatim>\<open>load_from_compile\<close>: returns \<^verbatim>\<open>(loaded_json["type"], loaded_json.get("unit_tests", []))\<close>.\<close>

definition load_from_compile :: "json \<Rightarrow> (CryticCompile, json \<times> json) stmt" where
  "load_from_compile loaded_json =
     bindE (liftE (get_default loaded_json ''package'' JNull)) (\<lambda>p.
     seqE (modify (\<lambda>s. s\<lparr>package_name := p\<rparr>))
    (bindE (liftE (py_in ''compilation_units'' loaded_json)) (\<lambda>present.
     seqE (if \<not> present then load_from_compile_legacy loaded_json
           else bindE (liftE (bindR (getitem loaded_json ''compilation_units'') items)) (\<lambda>us.
                  for_each us (\<lambda>(key, compilation_unit_json). load_unit key compilation_unit_json)))
    (seqE (modify set_filenames)
    (bindE (liftE (getitem loaded_json ''working_dir'')) (\<lambda>wd.
     seqE (modify (\<lambda>s. s\<lparr>working_dir := wd\<rparr>))
    (bindE (liftE (getitem loaded_json ''type'')) (\<lambda>t.
     bindE (liftE (get_default loaded_json ''unit_tests'' (JArr []))) (\<lambda>tests.
     returnE (t, tests))))))))))"

section \<open>\<^verbatim>\<open>Standard.compile\<close>: resolving the platform of a re-loaded artifact\<close>

text \<open>
  A platform class as \<^verbatim>\<open>Standard\<close> reads it: its \<^verbatim>\<open>NAME\<close>, \<^verbatim>\<open>PROJECT_URL\<close> and \<^verbatim>\<open>TYPE\<close>.
  \<^verbatim>\<open>TYPE\<close> is a member of the enumeration \<^verbatim>\<open>Type\<close> (imported as \<^verbatim>\<open>PlatformType\<close>), which
  \<^verbatim>\<open>generate_standard_export\<close> converts with \<^verbatim>\<open>int(...)\<close>: a member is identified with its
  integer value. The enumeration is declared in \<^verbatim>\<open>platform/types.py\<close>, which is not among
  the sources: the values of its members are a parameter of the model. The field \<^verbatim>\<open>TYPE\<close>
  is written \<open>PLATFORM_TYPE\<close>.
\<close>

record PlatformClass =
  NAME :: string
  PROJECT_URL :: string
  PLATFORM_TYPE :: int

text \<open>The three classes of the sources; the argument is the value of the enumeration member.\<close>

definition Dapp :: "int \<Rightarrow> PlatformClass" where
  "Dapp dapp_type =
     \<lparr>NAME = ''Dapp'', PROJECT_URL = ''https://github.com/dapphub/dapptools'', PLATFORM_TYPE = dapp_type\<rparr>"

definition Waffle :: "int \<Rightarrow> PlatformClass" where
  "Waffle waffle_type =
     \<lparr>NAME = ''Waffle'', PROJECT_URL = ''https://github.com/EthWorks/Waffle'', PLATFORM_TYPE = waffle_type\<rparr>"

definition Standard :: "int \<Rightarrow> PlatformClass" where
  "Standard standard_type =
     \<lparr>NAME = ''Standard'', PROJECT_URL = ''https://github.com/crytic/crytic-compile'',
      PLATFORM_TYPE = standard_type\<rparr>"

text \<open>
  The number a value is equal to under Python's \<^verbatim>\<open>==\<close>: \<^verbatim>\<open>True == 1\<close>, \<^verbatim>\<open>4.0 == 4\<close>; a string,
  a list, a dict or \<^verbatim>\<open>None\<close> equals no integer.
\<close>

fun int_value :: "json \<Rightarrow> int option" where
  "int_value (JInt i) = Some i"
| "int_value (JBool b) = Some (if b then 1 else 0)"
| "int_value (JFloat r) = (if of_int (floor r) = r then Some (floor r) else None)"
| "int_value v = None"

text \<open>
  \<^verbatim>\<open>PlatformType(underlying_type)\<close>: the call of an enumeration class returns the member
  whose value equals the argument and raises ValueError when there is none. \<open>members\<close>
  are the values of the members of the enumeration.
\<close>

definition PlatformType :: "int list \<Rightarrow> json \<Rightarrow> error + int" where
  "PlatformType members v =
     (case int_value v of
        None \<Rightarrow> Inl ValueError
      | Some i \<Rightarrow> if i \<in> set members then Inr i else Inl ValueError)"

text \<open>The fields \<^verbatim>\<open>Standard.compile\<close> sets on the platform object.\<close>

record StandardPlatform =
  underlying_platform :: PlatformClass
  unit_tests :: json

text \<open>
  \<^verbatim>\<open>Standard.compile\<close>, from the loaded document on: \<^verbatim>\<open>load_from_compile\<close>, the conversion
  of the tag, then \<^verbatim>\<open>next((p for p in platforms if p.TYPE == underlying_type), Standard)\<close>.
  \<open>platforms\<close> is the list \<^verbatim>\<open>get_platforms()\<close> returns (declared outside the sources, a
  parameter), \<open>standard_type\<close> the value of \<^verbatim>\<open>PlatformType.STANDARD\<close>.
\<close>

definition standard_compile ::
  "int list \<Rightarrow> int \<Rightarrow> PlatformClass list \<Rightarrow> json \<Rightarrow> (CryticCompile, StandardPlatform) stmt" where
  "standard_compile members standard_type platforms loaded_json =
     bindE (load_from_compile loaded_json) (\<lambda>(underlying_type, tests).
     bindE (liftE (PlatformType members underlying_type)) (\<lambda>ty.
     returnE \<lparr>underlying_platform =
                 (case find (\<lambda>p. PLATFORM_TYPE p = ty) platforms of
                    Some p \<Rightarrow> p
                  | None \<Rightarrow> Standard standard_type),
              unit_tests = tests\<rparr>))"

section \<open>Export: \<^verbatim>\<open>generate_standard_export\<close>\<close>












text \<open>Computations that may raise, over a list, in order: the first exception ends them.\<close>

fun map_result :: "('a \<Rightarrow> error + 'b) \<Rightarrow> 'a list \<Rightarrow> error + 'b list" where
  "map_result f [] = Inr []"
| "map_result f (x # xs) = bindR (f x) (\<lambda>y. bindR (map_result f xs) (\<lambda>ys. Inr (y # ys)))"




section \<open>\<^verbatim>\<open>Dapp.compile\<close>\<close>

text \<open>
  \<^verbatim>\<open>a | b\<close> as \<^verbatim>\<open>optimized |= ...\<close> evaluates it: the disjunction of two booleans, the
  bitwise or when an integer is involved (a boolean counts as 0 or 1), a TypeError for
  every other value a document can hold.
\<close>

fun py_or :: "json \<Rightarrow> json \<Rightarrow> error + json" where
  "py_or (JBool x) (JBool y) = Inr (JBool (x \<or> y))"
| "py_or (JBool x) (JInt y) = Inr (JInt (or (if x then 1 else 0) y))"
| "py_or (JInt x) (JBool y) = Inr (JInt (or x (if y then 1 else 0)))"
| "py_or (JInt x) (JInt y) = Inr (JInt (or x y))"
| "py_or a b = Inl TypeError"

text \<open>\<^verbatim>\<open>d[k1][k2][k3]\<close>.\<close>

definition getitem3 :: "json \<Rightarrow> string \<Rightarrow> string \<Rightarrow> string \<Rightarrow> error + json" where
  "getitem3 d k1 k2 k3 = bindR (getitem2 d k1 k2) (\<lambda>x. getitem x k3)"

text \<open>
  What \<^verbatim>\<open>Dapp.compile\<close> calls outside the sources: \<^verbatim>\<open>json.loads\<close>, the search
  \<^verbatim>\<open>re.findall(r"\d+\.\d+\.\d+", ...)\<close>, and \<^verbatim>\<open>extract_name\<close> and \<^verbatim>\<open>convert_filename\<close> of
  \<^verbatim>\<open>utils/naming.py\<close>. \<^verbatim>\<open>convert_filename\<close> receives the path, the short-path rule and the
  working directory, and returns the absolute, used, relative and short views.
\<close>

record dapp_env =
  loads :: "json \<Rightarrow> error + json"
  findall_version :: "json \<Rightarrow> error + string list"
  extract_name :: "string \<Rightarrow> string"
  convert_filename ::
    "string \<Rightarrow> (path \<Rightarrow> path) \<Rightarrow> string \<Rightarrow> error + (string \<times> string \<times> string \<times> string)"

text \<open>
  The objects the loops of \<^verbatim>\<open>Dapp.compile\<close> mutate: the session's \<^verbatim>\<open>filenames\<close>, the
  compilation unit, and the local variables \<^verbatim>\<open>version\<close> and \<^verbatim>\<open>optimized\<close>.
\<close>

record dapp_locals =
  l_filenames :: "filename_entry set"
  l_unit :: CompilationUnit
  l_version :: json
  l_optimized :: json

text \<open>\<^verbatim>\<open>xs[0]\<close>.\<close>

definition first_item :: "'a list \<Rightarrow> error + 'a" where
  "first_item xs = (case xs of [] \<Rightarrow> Inl IndexError | x # _ \<Rightarrow> Inr x)"

text \<open>\<^verbatim>\<open>compilation_unit.field[...] = expr\<close> in \<^verbatim>\<open>Dapp.compile\<close>.\<close>

definition store_unit ::
  "error + 'a \<Rightarrow> ('a \<Rightarrow> CompilationUnit \<Rightarrow> CompilationUnit) \<Rightarrow> (dapp_locals, unit) stmt" where
  "store_unit r f = bindE (liftE r) (\<lambda>v. modify (\<lambda>l. l\<lparr>l_unit := f v (l_unit l)\<rparr>))"

text \<open>
  \<^verbatim>\<open>"settings" in metadata and "optimizer" in metadata["settings"] and
  "enabled" in metadata["settings"]["optimizer"]\<close>.
\<close>

definition optimizer_reported :: "json \<Rightarrow> error + bool" where
  "optimizer_reported metadata =
     bindR (py_in ''settings'' metadata) (\<lambda>a.
       if \<not> a then Inr False
       else bindR (bindR (getitem metadata ''settings'') (py_in ''optimizer'')) (\<lambda>b.
         if \<not> b then Inr False
         else bindR (getitem2 metadata ''settings'' ''optimizer'') (py_in ''enabled'')))"

text \<open>Lines 74 to 81: the optimizer setting of one contract.\<close>

definition dapp_optimizer :: "dapp_env \<Rightarrow> json \<Rightarrow> (dapp_locals, unit) stmt" where
  "dapp_optimizer env info =
     bindE (liftE (py_in ''metadata'' info)) (\<lambda>has_metadata.
       if has_metadata then
         bindE (liftE (bindR (getitem info ''metadata'') (loads env))) (\<lambda>metadata.
         bindE (liftE (optimizer_reported metadata)) (\<lambda>reported.
           if reported then
             bindE (liftE (getitem3 metadata ''settings'' ''optimizer'' ''enabled'')) (\<lambda>enabled.
               (\<lambda>l. case py_or (l_optimized l) enabled of
                       Inl e \<Rightarrow> (Inl e, l)
                     | Inr v \<Rightarrow> (Inr (), l\<lparr>l_optimized := v\<rparr>)))
           else returnE ()))
       else returnE ())"

text \<open>Lines 82 to 106: the artifacts of one contract.\<close>

definition dapp_artifacts :: "dapp_env \<Rightarrow> string \<Rightarrow> string \<Rightarrow> json \<Rightarrow> (dapp_locals, unit) stmt" where
  "dapp_artifacts env original_filename original_contract_name info =
     (let contract_name = extract_name env original_contract_name in
      block
       [modify (\<lambda>l. l\<lparr>l_unit := (l_unit l)\<lparr>contracts_names :=
                         add_name contract_name (contracts_names (l_unit l))\<rparr>\<rparr>),
        modify (\<lambda>l. l\<lparr>l_unit := (l_unit l)\<lparr>contracts_filenames :=
                         AList.update contract_name (StrObj original_filename)
                           (contracts_filenames (l_unit l))\<rparr>\<rparr>),
        store_unit (getitem info ''abi'')
          (\<lambda>v u. u\<lparr>abis := AList.update contract_name v (abis u)\<rparr>),
        store_unit (getitem3 info ''evm'' ''bytecode'' ''object'')
          (\<lambda>v u. u\<lparr>bytecodes_init := AList.update contract_name v (bytecodes_init u)\<rparr>),
        store_unit (getitem3 info ''evm'' ''deployedBytecode'' ''object'')
          (\<lambda>v u. u\<lparr>bytecodes_runtime := AList.update contract_name v (bytecodes_runtime u)\<rparr>),
        store_unit (bindR (getitem3 info ''evm'' ''bytecode'' ''sourceMap'') split_semicolon)
          (\<lambda>v u. u\<lparr>srcmaps_init := AList.update contract_name v (srcmaps_init u)\<rparr>),
        store_unit (bindR (getitem3 info ''evm'' ''bytecode'' ''sourceMap'') split_semicolon)
          (\<lambda>v u. u\<lparr>srcmaps_runtime := AList.update contract_name v (srcmaps_runtime u)\<rparr>),
        store_unit (read_Natspec info)
          (\<lambda>v u. u\<lparr>natspec := AList.update contract_name v (natspec u)\<rparr>),
        (\<lambda>l. if l_version l = JNull
              then bindE (liftE (bindR (getitem info ''metadata'') (loads env))) (\<lambda>metadata.
                   bindE (liftE (bindR (bindR (getitem2 metadata ''compiler'' ''version'')
                                         (findall_version env)) first_item)) (\<lambda>v.
                   modify (\<lambda>l. l\<lparr>l_version := JStr v\<rparr>))) l
              else returnE () l)])"

text \<open>The body of the inner loop (lines 74 to 106).\<close>

definition dapp_contract :: "dapp_env \<Rightarrow> string \<Rightarrow> string \<Rightarrow> json \<Rightarrow> (dapp_locals, unit) stmt" where
  "dapp_contract env original_filename original_contract_name info =
     seqE (dapp_optimizer env info)
          (dapp_artifacts env original_filename original_contract_name info)"

text \<open>
  The body of the loop over the sources (lines 109 to 113): the right-hand side
  \<^verbatim>\<open>info["ast"]\<close> is evaluated before the item of \<^verbatim>\<open>asts\<close> is assigned.
\<close>

definition dapp_source :: "dapp_env \<Rightarrow> string \<Rightarrow> string \<Rightarrow> json \<Rightarrow> (dapp_locals, unit) stmt" where
  "dapp_source env target source_path info =
     bindE (liftE (convert_filename env source_path dapp_relative_to_short target))
       (\<lambda>(v_absolute, v_used, v_relative, v_short).
     seqE (modify (\<lambda>l. l\<lparr>l_filenames :=
              insert (FilenameObj \<lparr>absolute = JStr v_absolute, used = JStr v_used,
                                   relative = JStr v_relative, short = JStr v_short\<rparr>)
                (l_filenames l)\<rparr>))
    (bindE (liftE (getitem info ''ast'')) (\<lambda>ast.
     (\<lambda>l. case asts (l_unit l) of
             JObj kvs \<Rightarrow>
               (Inr (), l\<lparr>l_unit := (l_unit l)\<lparr>asts := JObj (AList.update v_absolute ast kvs)\<rparr>\<rparr>)
           | _ \<Rightarrow> (Inl TypeError, l)))))"

text \<open>
  \<^verbatim>\<open>Dapp.compile\<close> from line 59 on. \<open>target\<close> is \<^verbatim>\<open>str(self._target)\<close>, \<open>found\<close> the
  \<^verbatim>\<open>CompilerVersion\<close> that \<^verbatim>\<open>_get_version\<close> read from the files of the project, and
  \<open>targets_json\<close> the content of \<^verbatim>\<open>out/dapp.sol.json\<close> as \<^verbatim>\<open>json.load\<close> returned it.
\<close>

definition dapp_body :: "dapp_env \<Rightarrow> string \<Rightarrow> json \<Rightarrow> (dapp_locals, unit) stmt" where
  "dapp_body env target targets_json =
     block
      [bindE (liftE (py_in ''version'' targets_json)) (\<lambda>has_version.
         if has_version
         then bindE (liftE (bindR (bindR (getitem targets_json ''version'') (findall_version env))
                              first_item)) (\<lambda>v.
              modify (\<lambda>l. l\<lparr>l_version := JStr v\<rparr>))
         else returnE ()),
       bindE (liftE (bindR (getitem targets_json ''contracts'') items)) (\<lambda>files.
         for_each files (\<lambda>(original_filename, contracts_info).
           bindE (liftE (items contracts_info)) (\<lambda>cs.
             for_each cs (\<lambda>(original_contract_name, info).
               dapp_contract env original_filename original_contract_name info)))),
       bindE (liftE (bindR (getitem targets_json ''sources'') items)) (\<lambda>sources.
         for_each sources (\<lambda>(source_path, info). dapp_source env target source_path info)),
       (\<lambda>l. (Inr (), l\<lparr>l_unit := (l_unit l)\<lparr>compiler_version :=
                 Some \<lparr>compiler = JStr ''solc'', version = l_version l,
                       optimized = l_optimized l\<rparr>\<rparr>\<rparr>))]"

definition dapp_compile ::
  "dapp_env \<Rightarrow> string \<Rightarrow> CompilerVersion \<Rightarrow> json \<Rightarrow> (CryticCompile, unit) stmt" where
  "dapp_compile env target found targets_json =
     (\<lambda>s. let s1 = s\<lparr>compilation_units :=
                       AList.update target (new_CompilationUnit target) (compilation_units s)\<rparr>;
              l0 = \<lparr>l_filenames = filenames s1,
                    l_unit = (new_CompilationUnit target)\<lparr>compiler_version := Some found\<rparr>,
                    l_version = JNull, l_optimized = JBool False\<rparr>
          in case dapp_body env target targets_json l0 of
               (r, l) \<Rightarrow>
                 (r, s1\<lparr>compilation_units := AList.update target (l_unit l) (compilation_units s1),
                        filenames := l_filenames l\<rparr>))"

section \<open>Verification: strings and paths\<close>

lemma split_on_nonempty: "split_on c s \<noteq> []"
  by (induction s) (auto split: list.splits)

lemma split_on_no_sep: "w \<in> set (split_on c s) \<Longrightarrow> c \<notin> set w"
  by (induction s arbitrary: w) (auto split: list.splits if_splits)

lemma join_split_on: "join [c] (split_on c s) = s"
proof (induction s)
  case Nil
  show ?case by simp
next
  case (Cons x xs)
  obtain w ws where sp: "split_on c xs = w # ws"
    using split_on_nonempty[of c xs] by (cases "split_on c xs") auto
  show ?case using Cons sp by (cases ws) auto
qed




lemma Path_src: "Path ''src'' = [''src'']"
  by (simp add: Path_def path_root_def)

lemma Path_lib: "Path ''lib'' = [''lib'']"
  by (simp add: Path_def path_root_def)

lemma Path_contracts: "Path ''contracts'' = [''contracts'']"
  by (simp add: Path_def path_root_def)

lemma Path_node_modules: "Path ''node_modules'' = [''node_modules'']"
  by (simp add: Path_def path_root_def)

lemma relative_to_single:
  "relative_to p [r] =
     (case p of [] \<Rightarrow> Inl ValueError | x # ps \<Rightarrow> if x = r then Inr ps else Inl ValueError)"
  by (cases p) (simp_all add: relative_to_def)

text \<open>
  Claim C7. The short-path rule of an adapter tries its roots in a fixed order and strips
  the first that matches: \<^verbatim>\<open>src\<close> before \<^verbatim>\<open>lib\<close> for Dapp, \<^verbatim>\<open>contracts\<close> before
  \<^verbatim>\<open>node_modules\<close> for Waffle. A path under the first root loses that root only, whatever
  follows (also when the second root follows: \<^verbatim>\<open>src/lib/x\<close> becomes \<^verbatim>\<open>lib/x\<close>); a path under
  the second root loses it; a path that starts with neither root is returned unchanged.
\<close>

theorem short_path_precedence:
  "dapp_relative_to_short (''src'' # ps) = ps \<and>
   dapp_relative_to_short (''lib'' # ps) = ps \<and>
   ((\<forall>ps'. p \<noteq> ''src'' # ps' \<and> p \<noteq> ''lib'' # ps') \<longrightarrow> dapp_relative_to_short p = p) \<and>
   waffle_relative_to_short (''contracts'' # ps) = ps \<and>
   waffle_relative_to_short (''node_modules'' # ps) = ps \<and>
   ((\<forall>ps'. p \<noteq> ''contracts'' # ps' \<and> p \<noteq> ''node_modules'' # ps') \<longrightarrow>
      waffle_relative_to_short p = p)"
proof -
  have d1: "dapp_relative_to_short (''src'' # ps) = ps"
    by (simp add: dapp_relative_to_short_def Path_src relative_to_single)
  have d2: "dapp_relative_to_short (''lib'' # ps) = ps"
    by (simp add: dapp_relative_to_short_def Path_src Path_lib relative_to_single)
  have d3: "dapp_relative_to_short p = p"
    if "\<forall>ps'. p \<noteq> ''src'' # ps' \<and> p \<noteq> ''lib'' # ps'"
    using that
    by (cases p) (auto simp add: dapp_relative_to_short_def Path_src Path_lib relative_to_single)
  have w1: "waffle_relative_to_short (''contracts'' # ps) = ps"
    by (simp add: waffle_relative_to_short_def Path_contracts relative_to_single)
  have w2: "waffle_relative_to_short (''node_modules'' # ps) = ps"
    by (simp add: waffle_relative_to_short_def Path_contracts Path_node_modules relative_to_single)
  have w3: "waffle_relative_to_short p = p"
    if "\<forall>ps'. p \<noteq> ''contracts'' # ps' \<and> p \<noteq> ''node_modules'' # ps'"
    using that
    by (cases p)
      (auto simp add: waffle_relative_to_short_def Path_contracts Path_node_modules
        relative_to_single)
  from d1 d2 d3 w1 w2 w3 show ?thesis by blast
qed

theorem short_path_precedence_witness:
  "dapp_relative_to_short (Path ''src/lib/Token.sol'') = Path ''lib/Token.sol'' \<and>
   dapp_relative_to_short (Path ''lib/ds-test/test.sol'') = Path ''ds-test/test.sol'' \<and>
   dapp_relative_to_short (Path ''test/Token.t.sol'') = Path ''test/Token.t.sol'' \<and>
   waffle_relative_to_short (Path ''contracts/node_modules/A.sol'') = Path ''node_modules/A.sol'' \<and>
   waffle_relative_to_short (Path ''node_modules/oz/B.sol'') = Path ''oz/B.sol'' \<and>
   waffle_relative_to_short (Path ''test/Token.t.sol'') = Path ''test/Token.t.sol''"
proof -
  have p1: "Path ''src/lib/Token.sol'' = ''src'' # [''lib'', ''Token.sol'']"
    and p2: "Path ''lib/ds-test/test.sol'' = ''lib'' # [''ds-test'', ''test.sol'']"
    and p3: "Path ''test/Token.t.sol'' = [''test'', ''Token.t.sol'']"
    and p4: "Path ''contracts/node_modules/A.sol'' = ''contracts'' # [''node_modules'', ''A.sol'']"
    and p5: "Path ''node_modules/oz/B.sol'' = ''node_modules'' # [''oz'', ''B.sol'']"
    and p6: "Path ''lib/Token.sol'' = [''lib'', ''Token.sol'']"
    and p7: "Path ''ds-test/test.sol'' = [''ds-test'', ''test.sol'']"
    and p8: "Path ''node_modules/A.sol'' = [''node_modules'', ''A.sol'']"
    and p9: "Path ''oz/B.sol'' = [''oz'', ''B.sol'']"
    by (simp_all add: Path_def path_root_def)
  have a: "\<forall>ps'. [''test'', ''Token.t.sol''] \<noteq> ''src'' # ps' \<and> [''test'', ''Token.t.sol''] \<noteq> ''lib'' # ps'"
    by simp
  have b: "\<forall>ps'. [''test'', ''Token.t.sol''] \<noteq> ''contracts'' # ps' \<and>
                 [''test'', ''Token.t.sol''] \<noteq> ''node_modules'' # ps'"
    by simp
  show ?thesis
    using short_path_precedence [of "[''lib'', ''Token.sol'']" "[''test'', ''Token.t.sol'']"]
      short_path_precedence [of "[''ds-test'', ''test.sol'']" "[''test'', ''Token.t.sol'']"]
      short_path_precedence [of "[''node_modules'', ''A.sol'']" "[''test'', ''Token.t.sol'']"]
      short_path_precedence [of "[''oz'', ''B.sol'']" "[''test'', ''Token.t.sol'']"]
      a b
    unfolding p1 p2 p3 p4 p5 p6 p7 p8 p9 by blast
qed

section \<open>Verification: dependency predicates\<close>

lemma dapp_is_dependency_cached:
  "cache p = Some b \<Longrightarrow> dapp_is_dependency cache p = (b, cache)"
  by (simp add: dapp_is_dependency_def)

lemma dapp_is_dependency_keeps:
  "cache p = Some b \<Longrightarrow> snd (dapp_is_dependency cache q) p = Some b"
  by (cases "cache q") (auto simp add: dapp_is_dependency_def Let_def)

lemma dapp_calls_keeps: "cache p = Some b \<Longrightarrow> dapp_calls cache qs p = Some b"
  by (induction qs arbitrary: cache) (simp_all add: dapp_is_dependency_keeps)

lemma dapp_is_dependency_first:
  "cache p = None \<Longrightarrow>
   dapp_is_dependency cache p =
     (''lib'' \<in> set (Path p), cache(p \<mapsto> ''node_modules'' \<in> set (Path p)))"
  by (simp add: dapp_is_dependency_def)

text \<open>
  Claim C9. \<^verbatim>\<open>Dapp.is_dependency\<close> is not idempotent. On a platform object whose cache
  does not hold the path yet, a path with a \<^verbatim>\<open>lib\<close> component and no \<^verbatim>\<open>node_modules\<close>
  component gives True at the first call and False at every later call with the same
  path, whatever other calls \<open>qs\<close> happen in between; a path with a \<^verbatim>\<open>node_modules\<close>
  component and no \<^verbatim>\<open>lib\<close> component gives False first and True afterwards. The first
  call returns the \<^verbatim>\<open>lib\<close> test and caches the \<^verbatim>\<open>node_modules\<close> test.
\<close>

theorem dapp_is_dependency_not_idempotent:
  assumes fresh: "cache p = None"
  shows "(''lib'' \<in> set (Path p) \<and> ''node_modules'' \<notin> set (Path p) \<longrightarrow>
            fst (dapp_is_dependency cache p) \<and>
            (\<forall>qs. \<not> fst (dapp_is_dependency (dapp_calls (snd (dapp_is_dependency cache p)) qs) p))) \<and>
         (''node_modules'' \<in> set (Path p) \<and> ''lib'' \<notin> set (Path p) \<longrightarrow>
            \<not> fst (dapp_is_dependency cache p) \<and>
            (\<forall>qs. fst (dapp_is_dependency (dapp_calls (snd (dapp_is_dependency cache p)) qs) p)))"
proof -
  let ?c1 = "snd (dapp_is_dependency cache p)"
  have first: "fst (dapp_is_dependency cache p) = (''lib'' \<in> set (Path p))"
    using fresh by (simp add: dapp_is_dependency_first)
  have stored: "?c1 p = Some (''node_modules'' \<in> set (Path p))"
    using fresh by (simp add: dapp_is_dependency_first)
  have later: "fst (dapp_is_dependency (dapp_calls ?c1 qs) p) = (''node_modules'' \<in> set (Path p))"
    for qs
  proof -
    have "dapp_calls ?c1 qs p = Some (''node_modules'' \<in> set (Path p))"
      using stored by (rule dapp_calls_keeps)
    then show ?thesis by (simp add: dapp_is_dependency_cached)
  qed
  show ?thesis using first later by simp
qed

theorem dapp_is_dependency_not_idempotent_witness:
  "fst (dapp_is_dependency Map.empty ''lib/ds-test/test.sol'') \<and>
   \<not> fst (dapp_is_dependency
            (dapp_calls (snd (dapp_is_dependency Map.empty ''lib/ds-test/test.sol'')) [''src/A.sol''])
            ''lib/ds-test/test.sol'') \<and>
   \<not> fst (dapp_is_dependency Map.empty ''node_modules/oz/B.sol'') \<and>
   fst (dapp_is_dependency
            (dapp_calls (snd (dapp_is_dependency Map.empty ''node_modules/oz/B.sol'')) [])
            ''node_modules/oz/B.sol'')"
proof -
  have p1: "Path ''lib/ds-test/test.sol'' = [''lib'', ''ds-test'', ''test.sol'']"
    and p2: "Path ''node_modules/oz/B.sol'' = [''node_modules'', ''oz'', ''B.sol'']"
    by (simp_all add: Path_def path_root_def)
  have a: "''lib'' \<in> set (Path ''lib/ds-test/test.sol'') \<and>
           ''node_modules'' \<notin> set (Path ''lib/ds-test/test.sol'')"
    unfolding p1 by simp
  have b: "''node_modules'' \<in> set (Path ''node_modules/oz/B.sol'') \<and>
           ''lib'' \<notin> set (Path ''node_modules/oz/B.sol'')"
    unfolding p2 by simp
  have t1: "fst (dapp_is_dependency Map.empty ''lib/ds-test/test.sol'') \<and>
      (\<forall>qs. \<not> fst (dapp_is_dependency
         (dapp_calls (snd (dapp_is_dependency Map.empty ''lib/ds-test/test.sol'')) qs)
         ''lib/ds-test/test.sol''))"
    using dapp_is_dependency_not_idempotent [of Map.empty "''lib/ds-test/test.sol''"] a
    by blast
  have t2: "\<not> fst (dapp_is_dependency Map.empty ''node_modules/oz/B.sol'') \<and>
      (\<forall>qs. fst (dapp_is_dependency
         (dapp_calls (snd (dapp_is_dependency Map.empty ''node_modules/oz/B.sol'')) qs)
         ''node_modules/oz/B.sol''))"
    using dapp_is_dependency_not_idempotent [of Map.empty "''node_modules/oz/B.sol''"] b
    by blast
  from t1 t2 show ?thesis by blast
qed

section \<open>Verification: the import\<close>

subsection \<open>Sequencing\<close>

lemma bindR_Inr [simp]: "bindR (Inr x) f = f x"
  by (simp add: bindR_def)

lemma bindR_Inl [simp]: "bindR (Inl e) f = Inl e"
  by (simp add: bindR_def)

lemma bindR_eq_Inr: "bindR r f = Inr y \<longleftrightarrow> (\<exists>x. r = Inr x \<and> f x = Inr y)"
  by (cases r) simp_all

lemma returnE_apply [simp]: "returnE x s = (Inr x, s)"
  by (simp add: returnE_def)

lemma liftE_apply [simp]: "liftE r s = (r, s)"
  by (simp add: liftE_def)

lemma modify_apply [simp]: "modify f s = (Inr (), f s)"
  by (simp add: modify_def)

lemma bindE_Inr: "m s = (Inr x, s') \<Longrightarrow> bindE m f s = f x s'"
  by (simp add: bindE_def)

lemma bindE_Inl: "m s = (Inl e, s') \<Longrightarrow> bindE m f s = (Inl e, s')"
  by (simp add: bindE_def)

lemma bindE_liftE_Inr [simp]: "bindE (liftE (Inr x)) f s = f x s"
  by (simp add: bindE_def)

lemma bindE_liftE_Inl [simp]: "bindE (liftE (Inl e)) f s = (Inl e, s)"
  by (simp add: bindE_def)

lemma seqE_modify [simp]: "seqE (modify g) n s = n (g s)"
  by (simp add: seqE_def bindE_def)

lemma seqE_Inr: "m s = (Inr x, s') \<Longrightarrow> seqE m n s = n s'"
  by (simp add: seqE_def bindE_def)

lemma seqE_Inl: "m s = (Inl e, s') \<Longrightarrow> seqE m n s = (Inl e, s')"
  by (simp add: seqE_def bindE_def)

lemma store_Inr [simp]: "store (Inr v) f (u, d) = (Inr (), (f v u, d))"
  by (simp add: store_def)

lemma store_Inl [simp]: "store (Inl e) f st = (Inl e, st)"
  by (simp add: store_def)

subsection \<open>The payload of one contract entry\<close>

text \<open>
  What the loop body reads from a contract entry, in the order in which it reads; the
  last step is the check that \<^verbatim>\<open>dependencies.add\<close> makes when the flag is true.
\<close>

record contract_fields =
  cf_filename :: Filename
  cf_abi :: json
  cf_bin :: json
  cf_bin_runtime :: json
  cf_srcmap :: "string list"
  cf_srcmap_runtime :: "string list"
  cf_libraries :: json
  cf_natspec :: Natspec
  cf_is_dependency :: json

definition read_contract :: "json \<Rightarrow> error + contract_fields" where
  "read_contract contract =
     bindR (read_Filename contract) (\<lambda>fn.
     bindR (getitem contract ''abi'') (\<lambda>a.
     bindR (getitem contract ''bin'') (\<lambda>b.
     bindR (getitem contract ''bin-runtime'') (\<lambda>br.
     bindR (bindR (getitem contract ''srcmap'') split_semicolon) (\<lambda>sm.
     bindR (bindR (getitem contract ''srcmap-runtime'') split_semicolon) (\<lambda>smr.
     bindR (getitem contract ''libraries'') (\<lambda>l.
     bindR (read_Natspec contract) (\<lambda>ns.
     bindR (getitem contract ''is_dependency'') (\<lambda>dep.
     if truthy dep \<and> \<not> (hashable (absolute fn) \<and> hashable (relative fn) \<and>
                           hashable (short fn) \<and> hashable (used fn))
     then Inl TypeError
     else Inr \<lparr>cf_filename = fn, cf_abi = a, cf_bin = b, cf_bin_runtime = br, cf_srcmap = sm,
               cf_srcmap_runtime = smr, cf_libraries = l, cf_natspec = ns,
               cf_is_dependency = dep\<rparr>)))))))))"

text \<open>The four views of a \<^verbatim>\<open>Filename\<close>.\<close>

definition views :: "Filename \<Rightarrow> json set" where
  "views f = {absolute f, relative f, short f, used f}"

text \<open>The unit and the dependency set after a contract entry with payload \<open>p\<close>.\<close>

definition put_contract :: "string \<Rightarrow> contract_fields \<Rightarrow> CompilationUnit \<Rightarrow> CompilationUnit" where
  "put_contract n p u =
     u\<lparr>contracts_names := add_name n (contracts_names u),
       contracts_filenames := AList.update n (FilenameObj (cf_filename p)) (contracts_filenames u),
       abis := AList.update n (cf_abi p) (abis u),
       bytecodes_init := AList.update n (cf_bin p) (bytecodes_init u),
       bytecodes_runtime := AList.update n (cf_bin_runtime p) (bytecodes_runtime u),
       srcmaps_init := AList.update n (cf_srcmap p) (srcmaps_init u),
       srcmaps_runtime := AList.update n (cf_srcmap_runtime p) (srcmaps_runtime u),
       libraries := AList.update n (cf_libraries p) (libraries u),
       natspec := AList.update n (cf_natspec p) (natspec u)\<rparr>"

definition put_deps :: "contract_fields \<Rightarrow> json set \<Rightarrow> json set" where
  "put_deps p d = (if truthy (cf_is_dependency p) then views (cf_filename p) \<union> d else d)"

lemma dep_add_hashable: "hashable v \<Longrightarrow> dep_add v (u, d) = (Inr (), (u, insert v d))"
  by (simp add: dep_add_def)

lemma dep_add_unhashable: "\<not> hashable v \<Longrightarrow> dep_add v (u, d) = (Inl TypeError, (u, d))"
  by (simp add: dep_add_def)

lemma seqE_returnE [simp]: "seqE m (returnE ()) = m"
  by (auto simp add: seqE_def bindE_def fun_eq_iff split: sum.splits prod.splits)

lemma dep_block_fst:
  "fst (seqE (dep_add a) (seqE (dep_add b) (seqE (dep_add c) (dep_add e))) st) =
     (if hashable a \<and> hashable b \<and> hashable c \<and> hashable e then Inr () else Inl TypeError)"
  by (cases st) (simp add: seqE_def bindE_def dep_add_def)

lemma dep_block_ok:
  "hashable a \<Longrightarrow> hashable b \<Longrightarrow> hashable c \<Longrightarrow> hashable e \<Longrightarrow>
   seqE (dep_add a) (seqE (dep_add b) (seqE (dep_add c) (dep_add e))) (u, d) =
     (Inr (), (u, {a, b, c, e} \<union> d))"
  by (auto simp add: seqE_def bindE_def dep_add_def)

lemma load_contract_legacy_eq: "load_contract_legacy n c = load_contract n c"
  by (simp add: load_contract_legacy_def load_contract_def)

lemma fst_seqE_modify [simp]: "fst (seqE (modify g) n s) = fst (n (g s))"
  by simp

lemma fst_bindE_liftE:
  "fst (bindE (liftE r) f s) = (case r of Inl e \<Rightarrow> Inl e | Inr x \<Rightarrow> fst (f x s))"
  by (cases r) simp_all

lemma fst_seqE_store:
  "fst (seqE (store r f) n (u, d)) = (case r of Inl e \<Rightarrow> Inl e | Inr v \<Rightarrow> fst (n (f v u, d)))"
  by (cases r) (simp_all add: seqE_def bindE_def)

lemma seqE_store_Inr [simp]: "seqE (store (Inr v) f) n (u, d) = n (f v u, d)"
  by (simp add: seqE_def bindE_def)

lemma read_contract_InrE:
  assumes "read_contract c = Inr p"
  obtains fn a b br sm smr l ns dep where
    "read_Filename c = Inr fn" "getitem c ''abi'' = Inr a" "getitem c ''bin'' = Inr b"
    "getitem c ''bin-runtime'' = Inr br"
    "bindR (getitem c ''srcmap'') split_semicolon = Inr sm"
    "bindR (getitem c ''srcmap-runtime'') split_semicolon = Inr smr"
    "getitem c ''libraries'' = Inr l" "read_Natspec c = Inr ns"
    "getitem c ''is_dependency'' = Inr dep"
    "truthy dep \<longrightarrow> hashable (absolute fn) \<and> hashable (relative fn) \<and>
                   hashable (short fn) \<and> hashable (used fn)"
    "p = \<lparr>cf_filename = fn, cf_abi = a, cf_bin = b, cf_bin_runtime = br, cf_srcmap = sm,
          cf_srcmap_runtime = smr, cf_libraries = l, cf_natspec = ns, cf_is_dependency = dep\<rparr>"
proof -
  from assms obtain fn where 1: "read_Filename c = Inr fn"
    unfolding read_contract_def by (auto simp add: bindR_eq_Inr)
  from assms 1 obtain a where 2: "getitem c ''abi'' = Inr a"
    unfolding read_contract_def by (auto simp add: bindR_eq_Inr)
  from assms 1 2 obtain b where 3: "getitem c ''bin'' = Inr b"
    unfolding read_contract_def by (auto simp add: bindR_eq_Inr)
  from assms 1 2 3 obtain br where 4: "getitem c ''bin-runtime'' = Inr br"
    unfolding read_contract_def by (auto simp add: bindR_eq_Inr)
  from assms 1 2 3 4 obtain sm where 5: "bindR (getitem c ''srcmap'') split_semicolon = Inr sm"
    unfolding read_contract_def by (cases "bindR (getitem c ''srcmap'') split_semicolon") auto
  from assms 1 2 3 4 5 obtain smr where
    6: "bindR (getitem c ''srcmap-runtime'') split_semicolon = Inr smr"
    unfolding read_contract_def
    by (cases "bindR (getitem c ''srcmap-runtime'') split_semicolon") auto
  from assms 1 2 3 4 5 6 obtain l where 7: "getitem c ''libraries'' = Inr l"
    unfolding read_contract_def by (cases "getitem c ''libraries''") auto
  from assms 1 2 3 4 5 6 7 obtain ns where 8: "read_Natspec c = Inr ns"
    unfolding read_contract_def by (cases "read_Natspec c") auto
  from assms 1 2 3 4 5 6 7 8 obtain dep where 9: "getitem c ''is_dependency'' = Inr dep"
    unfolding read_contract_def by (cases "getitem c ''is_dependency''") auto
  from assms 1 2 3 4 5 6 7 8 9 have
    10: "truthy dep \<longrightarrow> hashable (absolute fn) \<and> hashable (relative fn) \<and>
                   hashable (short fn) \<and> hashable (used fn)"
    and 11: "p = \<lparr>cf_filename = fn, cf_abi = a, cf_bin = b, cf_bin_runtime = br, cf_srcmap = sm,
          cf_srcmap_runtime = smr, cf_libraries = l, cf_natspec = ns, cf_is_dependency = dep\<rparr>"
    unfolding read_contract_def by (auto split: if_splits)
  from 1 2 3 4 5 6 7 8 9 10 11 show ?thesis by (rule that)
qed

lemma load_contract_fst:
  "fst (load_contract n c st) = (case read_contract c of Inl e \<Rightarrow> Inl e | Inr p \<Rightarrow> Inr ())"
proof (cases st)
  case (Pair u d)
  show ?thesis
    unfolding Pair load_contract_def read_contract_def
    by (simp add: fst_bindE_liftE fst_seqE_store dep_block_fst bindR_def
        split: sum.splits)
qed

lemma load_contract_ok:
  assumes "read_contract c = Inr p"
  shows "load_contract n c (u, d) = (Inr (), (put_contract n p u, put_deps p d))"
proof -
  from assms obtain fn a b br sm smr l ns dep where r:
    "read_Filename c = Inr fn" "getitem c ''abi'' = Inr a" "getitem c ''bin'' = Inr b"
    "getitem c ''bin-runtime'' = Inr br"
    "bindR (getitem c ''srcmap'') split_semicolon = Inr sm"
    "bindR (getitem c ''srcmap-runtime'') split_semicolon = Inr smr"
    "getitem c ''libraries'' = Inr l" "read_Natspec c = Inr ns"
    "getitem c ''is_dependency'' = Inr dep"
    and h: "truthy dep \<longrightarrow> hashable (absolute fn) \<and> hashable (relative fn) \<and>
                   hashable (short fn) \<and> hashable (used fn)"
    and p: "p = \<lparr>cf_filename = fn, cf_abi = a, cf_bin = b, cf_bin_runtime = br, cf_srcmap = sm,
          cf_srcmap_runtime = smr, cf_libraries = l, cf_natspec = ns, cf_is_dependency = dep\<rparr>"
    by (rule read_contract_InrE)
  show ?thesis
  proof (cases "truthy dep")
    case True
    with h show ?thesis
      unfolding load_contract_def p put_contract_def put_deps_def views_def
      by (simp add: r dep_block_ok)
  next
    case False
    then show ?thesis
      unfolding load_contract_def p put_contract_def put_deps_def views_def
      by (simp add: r)
  qed
qed

subsection \<open>The contract loop and the units\<close>

lemma fst_seqE:
  "fst (seqE m n s) = (case fst (m s) of Inl e \<Rightarrow> Inl e | Inr x \<Rightarrow> fst (n (snd (m s))))"
  by (cases "m s") (auto simp add: seqE_def bindE_def split: sum.splits)

lemma seqE_bindE_liftE:
  "seqE (bindE (liftE r) g) n s = (case r of Inl e \<Rightarrow> (Inl e, s) | Inr x \<Rightarrow> seqE (g x) n s)"
  by (cases r) (simp_all add: seqE_def bindE_def)

lemma fst_store: "fst (store r f st) = (case r of Inl e \<Rightarrow> Inl e | Inr v \<Rightarrow> Inr ())"
  by (cases r; cases st) simp_all

definition read_contracts :: "(string \<times> json) list \<Rightarrow> error + (string \<times> contract_fields) list" where
  "read_contracts cs = map_result (\<lambda>(n, c). bindR (read_contract c) (\<lambda>p. Inr (n, p))) cs"

definition build_unit :: "(string \<times> contract_fields) list \<Rightarrow> CompilationUnit \<Rightarrow> CompilationUnit" where
  "build_unit ps u = foldl (\<lambda>u (n, p). put_contract n p u) u ps"

definition build_deps :: "(string \<times> contract_fields) list \<Rightarrow> json set \<Rightarrow> json set" where
  "build_deps ps d = foldl (\<lambda>d (n, p). put_deps p d) d ps"

lemma read_contracts_Nil [simp]: "read_contracts [] = Inr []"
  by (simp add: read_contracts_def)

lemma read_contracts_Cons:
  "read_contracts ((n, c) # cs) =
     bindR (read_contract c) (\<lambda>p. bindR (read_contracts cs) (\<lambda>ps. Inr ((n, p) # ps)))"
  by (cases "read_contract c") (simp_all add: read_contracts_def)

lemma build_unit_Nil [simp]: "build_unit [] u = u"
  by (simp add: build_unit_def)

lemma build_unit_Cons [simp]: "build_unit ((n, p) # ps) u = build_unit ps (put_contract n p u)"
  by (simp add: build_unit_def)

lemma build_deps_Nil [simp]: "build_deps [] d = d"
  by (simp add: build_deps_def)

lemma build_deps_Cons [simp]: "build_deps ((n, p) # ps) d = build_deps ps (put_deps p d)"
  by (simp add: build_deps_def)

lemma for_each_contracts_fst:
  "fst (for_each cs (\<lambda>(n, c). load_contract n c) st) =
     (case read_contracts cs of Inl e \<Rightarrow> Inl e | Inr ps \<Rightarrow> Inr ())"
proof (induction cs arbitrary: st)
  case Nil
  show ?case by simp
next
  case (Cons x cs)
  obtain n c where x: "x = (n, c)" by (cases x)
  show ?case
    unfolding x
    by (simp add: fst_seqE load_contract_fst Cons.IH read_contracts_Cons bindR_def
        split: sum.splits)
qed

lemma for_each_contracts_ok:
  "read_contracts cs = Inr ps \<Longrightarrow>
   for_each cs (\<lambda>(n, c). load_contract n c) (u, d) = (Inr (), (build_unit ps u, build_deps ps d))"
proof (induction cs arbitrary: ps u d)
  case Nil
  then show ?case by simp
next
  case (Cons x cs)
  obtain n c where x: "x = (n, c)" by (cases x)
  from Cons.prems obtain p ps' where p: "read_contract c = Inr p"
    and ps': "read_contracts cs = Inr ps'" and ps: "ps = (n, p) # ps'"
    unfolding x read_contracts_Cons by (auto simp add: bindR_eq_Inr)
  have "for_each (x # cs) (\<lambda>(n, c). load_contract n c) (u, d) =
        for_each cs (\<lambda>(n, c). load_contract n c) (put_contract n p u, put_deps p d)"
    unfolding x by (simp add: seqE_def bindE_def load_contract_ok [OF p])
  then show ?case using Cons.IH [OF ps'] by (simp add: ps)
qed

text \<open>
  What the import reads from a unit: in the order of the current schema (compiler,
  contracts, asts) and in the order of the legacy path (asts, compiler, contracts).
\<close>

type_synonym unit_fields = "CompilerVersion \<times> (string \<times> contract_fields) list \<times> json"

definition read_unit :: "json \<Rightarrow> error + unit_fields" where
  "read_unit j =
     bindR (read_CompilerVersion j) (\<lambda>cv.
     bindR (bindR (bindR (getitem j ''contracts'') items) read_contracts) (\<lambda>ps.
     bindR (getitem j ''asts'') (\<lambda>a. Inr (cv, ps, a))))"

definition read_legacy :: "json \<Rightarrow> error + unit_fields" where
  "read_legacy j =
     bindR (getitem j ''asts'') (\<lambda>a.
     bindR (read_CompilerVersion j) (\<lambda>cv.
     bindR (bindR (bindR (getitem j ''contracts'') items) read_contracts) (\<lambda>ps.
     Inr (cv, ps, a))))"

definition unit_of :: "string \<Rightarrow> unit_fields \<Rightarrow> CompilationUnit" where
  "unit_of key x =
     (case x of (cv, ps, a) \<Rightarrow>
        (build_unit ps ((new_CompilationUnit key)\<lparr>compiler_version := Some cv\<rparr>))\<lparr>asts := a\<rparr>)"

definition put_unit :: "string \<times> unit_fields \<Rightarrow> CryticCompile \<Rightarrow> CryticCompile" where
  "put_unit kx s =
     (case kx of (key, x) \<Rightarrow>
        s\<lparr>compilation_units := AList.update key (unit_of key x) (compilation_units s),
          dependencies := build_deps (fst (snd x)) (dependencies s)\<rparr>)"

lemma put_contract_asts: "put_contract n p (u\<lparr>asts := a\<rparr>) = (put_contract n p u)\<lparr>asts := a\<rparr>"
  by (simp add: put_contract_def)

lemma build_unit_asts: "build_unit ps (u\<lparr>asts := a\<rparr>) = (build_unit ps u)\<lparr>asts := a\<rparr>"
  by (induction ps arbitrary: u) (auto simp add: put_contract_asts)

lemma in_unit_fst: "fst (in_unit key body s) = fst (body (new_CompilationUnit key, dependencies s))"
  by (simp add: in_unit_def Let_def split: prod.splits)

lemma in_unit_ok:
  "body (new_CompilationUnit key, dependencies s) = (r, (u, d)) \<Longrightarrow>
   in_unit key body s =
     (r, s\<lparr>compilation_units := AList.update key u (compilation_units s), dependencies := d\<rparr>)"
  by (simp add: in_unit_def Let_def AList.update_last)

lemma in_unit_units:
  "\<exists>u. compilation_units (snd (in_unit key body s)) = AList.update key u (compilation_units s)"
  by (cases "body (new_CompilationUnit key, dependencies s)")
    (auto simp add: in_unit_def Let_def AList.update_last)

lemma load_unit_fst:
  "fst (load_unit key j s) = (case read_unit j of Inl e \<Rightarrow> Inl e | Inr x \<Rightarrow> Inr ())"
  unfolding load_unit_def read_unit_def in_unit_fst
  by (simp add: fst_seqE_store seqE_bindE_liftE fst_seqE fst_store for_each_contracts_fst bindR_def
      split: sum.splits)

lemma load_unit_ok:
  assumes "read_unit j = Inr x"
  shows "load_unit key j s = (Inr (), put_unit (key, x) s)"
proof -
  obtain cv ps a where x: "x = (cv, ps, a)" by (cases x)
  from assms obtain cs where cv: "read_CompilerVersion j = Inr cv"
    and cs: "bindR (getitem j ''contracts'') items = Inr cs"
    and ps: "read_contracts cs = Inr ps" and a: "getitem j ''asts'' = Inr a"
    unfolding read_unit_def x by (auto simp add: bindR_eq_Inr)
  let ?u0 = "(new_CompilationUnit key)\<lparr>compiler_version := Some cv\<rparr>"
  have body: "block
         [store (read_CompilerVersion j) (\<lambda>v u. u\<lparr>compiler_version := Some v\<rparr>),
          bindE (liftE (bindR (getitem j ''contracts'') items)) (\<lambda>cs.
            for_each cs (\<lambda>(contract_name, contract). load_contract contract_name contract)),
          store (getitem j ''asts'') (\<lambda>v u. u\<lparr>asts := v\<rparr>)]
         (new_CompilationUnit key, dependencies s) =
        (Inr (), ((build_unit ps ?u0)\<lparr>asts := a\<rparr>, build_deps ps (dependencies s)))"
    by (simp add: cv cs a seqE_bindE_liftE seqE_def bindE_def for_each_contracts_ok [OF ps])
  have "load_unit key j s =
        (Inr (), s\<lparr>compilation_units :=
                     AList.update key ((build_unit ps ?u0)\<lparr>asts := a\<rparr>) (compilation_units s),
                   dependencies := build_deps ps (dependencies s)\<rparr>)"
    unfolding load_unit_def using body by (rule in_unit_ok)
  then show ?thesis
    by (simp add: put_unit_def unit_of_def x)
qed

lemma load_from_compile_legacy_fst:
  "fst (load_from_compile_legacy j s) = (case read_legacy j of Inl e \<Rightarrow> Inl e | Inr x \<Rightarrow> Inr ())"
  unfolding load_from_compile_legacy_def read_legacy_def in_unit_fst load_contract_legacy_eq
  by (simp add: fst_seqE_store fst_bindE_liftE for_each_contracts_fst bindR_def
      split: sum.splits)

lemma load_from_compile_legacy_ok:
  assumes "read_legacy j = Inr x"
  shows "load_from_compile_legacy j s = (Inr (), put_unit (''legacy'', x) s)"
proof -
  obtain cv ps a where x: "x = (cv, ps, a)" by (cases x)
  from assms obtain cs where cv: "read_CompilerVersion j = Inr cv"
    and cs: "bindR (getitem j ''contracts'') items = Inr cs"
    and ps: "read_contracts cs = Inr ps" and a: "getitem j ''asts'' = Inr a"
    unfolding read_legacy_def x by (auto simp add: bindR_eq_Inr)
  let ?u0 = "(new_CompilationUnit ''legacy'')\<lparr>asts := a, compiler_version := Some cv\<rparr>"
  have body: "block
         [store (getitem j ''asts'') (\<lambda>v u. u\<lparr>asts := v\<rparr>),
          store (read_CompilerVersion j) (\<lambda>v u. u\<lparr>compiler_version := Some v\<rparr>),
          bindE (liftE (bindR (getitem j ''contracts'') items)) (\<lambda>cs.
            for_each cs (\<lambda>(contract_name, contract). load_contract contract_name contract))]
         (new_CompilationUnit ''legacy'', dependencies s) =
        (Inr (), (build_unit ps ?u0, build_deps ps (dependencies s)))"
    by (simp add: cv cs a for_each_contracts_ok [OF ps])
  have u: "build_unit ps ?u0 = unit_of ''legacy'' x"
    unfolding unit_of_def x
    using build_unit_asts
      [where ps = ps and a = a
         and u = "(new_CompilationUnit ''legacy'')\<lparr>compiler_version := Some cv\<rparr>"]
    by (simp add: new_CompilationUnit_def)
  have "load_from_compile_legacy j s =
        (Inr (), s\<lparr>compilation_units :=
                     AList.update ''legacy'' (build_unit ps ?u0) (compilation_units s),
                   dependencies := build_deps ps (dependencies s)\<rparr>)"
    unfolding load_from_compile_legacy_def load_contract_legacy_eq using body by (rule in_unit_ok)
  then show ?thesis
    unfolding u by (simp add: put_unit_def x)
qed

lemma read_legacy_iff_read_unit: "read_legacy j = Inr x \<longleftrightarrow> read_unit j = Inr x"
  unfolding read_legacy_def read_unit_def
  by (auto simp add: bindR_eq_Inr)

subsection \<open>The document\<close>

definition read_units :: "(string \<times> json) list \<Rightarrow> error + (string \<times> unit_fields) list" where
  "read_units us = map_result (\<lambda>(key, j). bindR (read_unit j) (\<lambda>x. Inr (key, x))) us"

definition put_units :: "(string \<times> unit_fields) list \<Rightarrow> CryticCompile \<Rightarrow> CryticCompile" where
  "put_units xs s = foldl (\<lambda>s kx. put_unit kx s) s xs"

lemma read_units_Nil [simp]: "read_units [] = Inr []"
  by (simp add: read_units_def)

lemma read_units_Cons:
  "read_units ((key, j) # us) =
     bindR (read_unit j) (\<lambda>x. bindR (read_units us) (\<lambda>xs. Inr ((key, x) # xs)))"
  by (cases "read_unit j") (simp_all add: read_units_def)

lemma put_units_Nil [simp]: "put_units [] s = s"
  by (simp add: put_units_def)

lemma put_units_Cons [simp]: "put_units (kx # xs) s = put_units xs (put_unit kx s)"
  by (simp add: put_units_def)

lemma for_each_units_fst:
  "fst (for_each us (\<lambda>(key, j). load_unit key j) s) =
     (case read_units us of Inl e \<Rightarrow> Inl e | Inr xs \<Rightarrow> Inr ())"
proof (induction us arbitrary: s)
  case Nil
  show ?case by simp
next
  case (Cons x us)
  obtain key j where x: "x = (key, j)" by (cases x)
  show ?case
    unfolding x
    by (simp add: fst_seqE load_unit_fst Cons.IH read_units_Cons bindR_def split: sum.splits)
qed

lemma for_each_units_ok:
  "read_units us = Inr xs \<Longrightarrow>
   for_each us (\<lambda>(key, j). load_unit key j) s = (Inr (), put_units xs s)"
proof (induction us arbitrary: xs s)
  case Nil
  then show ?case by simp
next
  case (Cons x us)
  obtain key j where x: "x = (key, j)" by (cases x)
  from Cons.prems obtain y ys where y: "read_unit j = Inr y"
    and ys: "read_units us = Inr ys" and xs: "xs = (key, y) # ys"
    unfolding x read_units_Cons by (auto simp add: bindR_eq_Inr)
  have "for_each (x # us) (\<lambda>(key, j). load_unit key j) s =
        for_each us (\<lambda>(key, j). load_unit key j) (put_unit (key, y) s)"
    unfolding x by (simp add: seqE_def bindE_def load_unit_ok [OF y])
  then show ?case using Cons.IH [OF ys] by (simp add: xs)
qed

text \<open>
  What \<^verbatim>\<open>load_from_compile\<close> reads from the document, in its order: the package, the
  units (one, keyed \<^verbatim>\<open>legacy\<close>, without the key \<^verbatim>\<open>compilation_units\<close>), the working
  directory, the type and the unit tests.
\<close>

type_synonym doc_fields = "json \<times> (string \<times> unit_fields) list \<times> json \<times> json \<times> json"

definition read_doc_units :: "json \<Rightarrow> error + (string \<times> unit_fields) list" where
  "read_doc_units doc =
     bindR (py_in ''compilation_units'' doc) (\<lambda>present.
       if \<not> present then bindR (read_legacy doc) (\<lambda>x. Inr [(''legacy'', x)])
       else bindR (bindR (getitem doc ''compilation_units'') items) read_units)"

definition read_doc :: "json \<Rightarrow> error + doc_fields" where
  "read_doc doc =
     bindR (get_default doc ''package'' JNull) (\<lambda>p.
     bindR (read_doc_units doc) (\<lambda>xs.
     bindR (getitem doc ''working_dir'') (\<lambda>wd.
     bindR (getitem doc ''type'') (\<lambda>t.
     bindR (get_default doc ''unit_tests'' (JArr [])) (\<lambda>tests.
     Inr (p, xs, wd, t, tests))))))"

definition put_doc :: "doc_fields \<Rightarrow> CryticCompile \<Rightarrow> CryticCompile" where
  "put_doc x s =
     (case x of (p, xs, wd, t, tests) \<Rightarrow>
        (set_filenames (put_units xs (s\<lparr>package_name := p\<rparr>)))\<lparr>working_dir := wd\<rparr>)"

lemma units_stmt_fst:
  "fst ((if \<not> present then load_from_compile_legacy doc
         else bindE (liftE (bindR (getitem doc ''compilation_units'') items)) (\<lambda>us.
                for_each us (\<lambda>(key, j). load_unit key j))) s) =
   (case (if \<not> present then bindR (read_legacy doc) (\<lambda>x. Inr [(''legacy'', x)])
          else bindR (bindR (getitem doc ''compilation_units'') items) read_units) of
      Inl e \<Rightarrow> Inl e | Inr xs \<Rightarrow> Inr ())"
  by (simp add: load_from_compile_legacy_fst fst_bindE_liftE for_each_units_fst bindR_def
      split: sum.splits)

lemma units_stmt_ok:
  assumes "(if \<not> present then bindR (read_legacy doc) (\<lambda>x. Inr [(''legacy'', x)])
          else bindR (bindR (getitem doc ''compilation_units'') items) read_units) = Inr xs"
  shows "(if \<not> present then load_from_compile_legacy doc
         else bindE (liftE (bindR (getitem doc ''compilation_units'') items)) (\<lambda>us.
                for_each us (\<lambda>(key, j). load_unit key j))) s = (Inr (), put_units xs s)"
proof (cases present)
  case False
  with assms obtain x where x: "read_legacy doc = Inr x" and xs: "xs = [(''legacy'', x)]"
    by (auto simp add: bindR_eq_Inr)
  show ?thesis using False by (simp add: load_from_compile_legacy_ok [OF x] xs)
next
  case True
  with assms obtain us where us: "bindR (getitem doc ''compilation_units'') items = Inr us"
    and r: "read_units us = Inr xs"
    by (auto simp add: bindR_eq_Inr)
  show ?thesis using True by (simp add: us for_each_units_ok [OF r])
qed

lemma load_from_compile_fst:
  "fst (load_from_compile doc s) =
     (case read_doc doc of Inl e \<Rightarrow> Inl e | Inr (p, xs, wd, t, tests) \<Rightarrow> Inr (t, tests))"
  unfolding load_from_compile_def read_doc_def read_doc_units_def
  by (simp add: fst_bindE_liftE fst_seqE units_stmt_fst bindR_def split: sum.splits)

lemma load_from_compile_ok:
  assumes "read_doc doc = Inr (p, xs, wd, t, tests)"
  shows "load_from_compile doc s = (Inr (t, tests), put_doc (p, xs, wd, t, tests) s)"
proof -
  from assms obtain present where p: "get_default doc ''package'' JNull = Inr p"
    and pr: "py_in ''compilation_units'' doc = Inr present"
    and xs: "(if \<not> present then bindR (read_legacy doc) (\<lambda>x. Inr [(''legacy'', x)])
          else bindR (bindR (getitem doc ''compilation_units'') items) read_units) = Inr xs"
    and wd: "getitem doc ''working_dir'' = Inr wd" and t: "getitem doc ''type'' = Inr t"
    and tests: "get_default doc ''unit_tests'' (JArr []) = Inr tests"
    unfolding read_doc_def read_doc_units_def by (auto simp add: bindR_eq_Inr)
  show ?thesis
    unfolding load_from_compile_def put_doc_def
    by (simp add: p pr wd t tests seqE_def bindE_def units_stmt_ok [OF xs])
qed

lemma load_from_compile_Inr_iff:
  "load_from_compile doc s = (Inr r, s') \<longleftrightarrow>
     (\<exists>x. read_doc doc = Inr x \<and> r = (fst (snd (snd (snd x))), snd (snd (snd (snd x)))) \<and>
          s' = put_doc x s)"
proof
  assume a: "load_from_compile doc s = (Inr r, s')"
  then have "fst (load_from_compile doc s) = Inr r" by simp
  then obtain p xs wd t tests where x: "read_doc doc = Inr (p, xs, wd, t, tests)"
    unfolding load_from_compile_fst by (auto split: sum.splits)
  from load_from_compile_ok [OF x, of s] a show "\<exists>x. read_doc doc = Inr x \<and>
      r = (fst (snd (snd (snd x))), snd (snd (snd (snd x)))) \<and> s' = put_doc x s"
    using x by auto
next
  assume "\<exists>x. read_doc doc = Inr x \<and> r = (fst (snd (snd (snd x))), snd (snd (snd (snd x)))) \<and>
          s' = put_doc x s"
  then obtain x where x0: "read_doc doc = Inr x"
    and r0: "r = (fst (snd (snd (snd x))), snd (snd (snd (snd x))))" and s0: "s' = put_doc x s"
    by blast
  obtain p xs wd t tests where xx: "x = (p, xs, wd, t, tests)"
    by (cases x) auto
  have x: "read_doc doc = Inr (p, xs, wd, t, tests)" and r: "r = (t, tests)"
    and s': "s' = put_doc (p, xs, wd, t, tests) s"
    using x0 r0 s0 by (simp_all add: xx)
  show "load_from_compile doc s = (Inr r, s')"
    using load_from_compile_ok [OF x, of s] by (simp add: r s')
qed

subsection \<open>What the imported units hold\<close>

lemma map_result_list_all2:
  "map_result f xs = Inr ys \<Longrightarrow> list_all2 (\<lambda>x y. f x = Inr y) xs ys"
proof (induction xs arbitrary: ys)
  case Nil
  then show ?case by simp
next
  case (Cons x xs)
  from Cons.prems obtain y ys' where "f x = Inr y" "map_result f xs = Inr ys'" "ys = y # ys'"
    by (auto simp add: bindR_eq_Inr)
  with Cons.IH show ?case by simp
qed

lemma read_contracts_list_all2:
  "read_contracts cs = Inr ps \<Longrightarrow>
   list_all2 (\<lambda>nc np. fst np = fst nc \<and> read_contract (snd nc) = Inr (snd np)) cs ps"
  unfolding read_contracts_def
  by (drule map_result_list_all2)
    (auto simp add: bindR_eq_Inr elim!: list_all2_mono split: prod.splits)

lemma read_units_list_all2:
  "read_units us = Inr xs \<Longrightarrow>
   list_all2 (\<lambda>kj kx. fst kx = fst kj \<and> read_unit (snd kj) = Inr (snd kx)) us xs"
  unfolding read_units_def
  by (drule map_result_list_all2)
    (auto simp add: bindR_eq_Inr elim!: list_all2_mono split: prod.splits)

lemma list_all2_fst_eq: "list_all2 (\<lambda>a b. fst b = fst a \<and> P a b) xs ys \<Longrightarrow> map fst ys = map fst xs"
  by (induction xs ys rule: list_all2_induct) auto

lemma add_name_set [simp]: "set (add_name n ns) = insert n (set ns)"
  by (auto simp add: add_name_def)

lemma put_contract_names [simp]:
  "set (contracts_names (put_contract n p u)) = insert n (set (contracts_names u))"
  by (simp add: put_contract_def)

lemma put_contract_frame [simp]:
  "unique_id (put_contract n p u) = unique_id u"
  "asts (put_contract n p u) = asts u"
  "compiler_version (put_contract n p u) = compiler_version u"
  by (simp_all add: put_contract_def)

lemma build_unit_names: "set (contracts_names (build_unit ps u)) = set (contracts_names u) \<union> fst ` set ps"
  by (induction ps arbitrary: u) force+

lemma build_unit_frame:
  "unique_id (build_unit ps u) = unique_id u"
  "asts (build_unit ps u) = asts u"
  "compiler_version (build_unit ps u) = compiler_version u"
  by (induction ps arbitrary: u) auto

text \<open>The entries a unit holds under a contract name.\<close>

definition entry ::
  "CompilationUnit \<Rightarrow> string \<Rightarrow>
     filename_entry option \<times> json option \<times> json option \<times> json option \<times>
     string list option \<times> string list option \<times> json option \<times> Natspec option" where
  "entry u n =
     (map_of (contracts_filenames u) n, map_of (abis u) n, map_of (bytecodes_init u) n,
      map_of (bytecodes_runtime u) n, map_of (srcmaps_init u) n, map_of (srcmaps_runtime u) n,
      map_of (libraries u) n, map_of (natspec u) n)"

definition entry_of ::
  "contract_fields \<Rightarrow>
     filename_entry option \<times> json option \<times> json option \<times> json option \<times>
     string list option \<times> string list option \<times> json option \<times> Natspec option" where
  "entry_of p =
     (Some (FilenameObj (cf_filename p)), Some (cf_abi p), Some (cf_bin p),
      Some (cf_bin_runtime p), Some (cf_srcmap p), Some (cf_srcmap_runtime p),
      Some (cf_libraries p), Some (cf_natspec p))"

lemma entry_put_contract:
  "entry (put_contract m q u) n = (if n = m then entry_of q else entry u n)"
  by (simp add: entry_def entry_of_def put_contract_def AList.update_conv')

lemma entry_build_unit:
  "distinct (map fst ps) \<Longrightarrow>
   entry (build_unit ps u) n = (case map_of ps n of Some p \<Rightarrow> entry_of p | None \<Rightarrow> entry u n)"
proof (induction ps arbitrary: u)
  case Nil
  show ?case by simp
next
  case (Cons x ps)
  obtain m q where x: "x = (m, q)" by (cases x)
  from Cons.prems have d: "distinct (map fst ps)" and m: "map_of ps m = None"
    unfolding x by (auto simp add: map_of_eq_None_iff)
  show ?case
    unfolding x using Cons.IH [OF d, of "put_contract m q u"] m
    by (auto simp add: entry_put_contract split: option.splits)
qed

lemma put_deps_eq: "put_deps p d = d \<union> (if truthy (cf_is_dependency p) then views (cf_filename p) else {})"
  by (auto simp add: put_deps_def)

text \<open>The views that the flagged contracts of a list of payloads contribute.\<close>

definition flagged :: "(string \<times> contract_fields) list \<Rightarrow> json set" where
  "flagged ps =
     (\<Union>np \<in> set ps. if truthy (cf_is_dependency (snd np)) then views (cf_filename (snd np)) else {})"

lemma flagged_Nil [simp]: "flagged [] = {}"
  by (simp add: flagged_def)

lemma flagged_Cons [simp]:
  "flagged ((n, p) # ps) =
     (if truthy (cf_is_dependency p) then views (cf_filename p) else {}) \<union> flagged ps"
  by (simp add: flagged_def)

lemma build_deps_eq: "build_deps ps d = d \<union> flagged ps"
proof (induction ps arbitrary: d)
  case Nil
  show ?case by simp
next
  case (Cons x ps)
  obtain n p where x: "x = (n, p)" by (cases x)
  show ?case unfolding x by (simp add: Cons.IH put_deps_eq Un_assoc)
qed

lemma put_unit_dependencies:
  "dependencies (put_unit kx s) = dependencies s \<union> flagged (fst (snd (snd kx)))"
  by (cases kx) (simp add: put_unit_def build_deps_eq)

lemma put_units_dependencies:
  "dependencies (put_units xs s) = dependencies s \<union> (\<Union>kx \<in> set xs. flagged (fst (snd (snd kx))))"
  by (induction xs arbitrary: s) (auto simp add: put_unit_dependencies)

lemma set_filenames_frame [simp]:
  "dependencies (set_filenames s) = dependencies s"
  "compilation_units (set_filenames s) = compilation_units s"
  "package_name (set_filenames s) = package_name s"
  "working_dir (set_filenames s) = working_dir s"
  by (simp_all add: set_filenames_def)

lemma put_unit_frame [simp]:
  "package_name (put_unit kx s) = package_name s"
  "working_dir (put_unit kx s) = working_dir s"
  by (cases kx; simp add: put_unit_def)+

lemma put_units_frame [simp]:
  "package_name (put_units xs s) = package_name s"
  "working_dir (put_units xs s) = working_dir s"
  by (induction xs arbitrary: s) auto

lemma put_unit_units:
  "map_of (compilation_units (put_unit (key, x) s)) =
     (map_of (compilation_units s))(key \<mapsto> unit_of key x)"
  by (simp add: put_unit_def AList.update_conv')


lemma put_unit_package:
  "put_unit kx (s\<lparr>package_name := p\<rparr>) = (put_unit kx s)\<lparr>package_name := p\<rparr>"
  by (cases kx) (simp add: put_unit_def)

lemma put_units_package_eq:
  "put_units xs (s\<lparr>package_name := p\<rparr>) = (put_units xs s)\<lparr>package_name := p\<rparr>"
  by (induction xs arbitrary: s) (simp_all add: put_unit_package)

lemma put_units_package [simp]:
  "compilation_units (put_units xs (s\<lparr>package_name := p\<rparr>)) = compilation_units (put_units xs s)"
  "dependencies (put_units xs (s\<lparr>package_name := p\<rparr>)) = dependencies (put_units xs s)"
  by (simp_all add: put_units_package_eq)

lemma put_doc_units:
  "compilation_units (put_doc (p, xs, wd, t, tests) s) = compilation_units (put_units xs s)"
  by (simp add: put_doc_def)

lemma put_doc_dependencies:
  "dependencies (put_doc (p, xs, wd, t, tests) s) =
     dependencies s \<union> (\<Union>kx \<in> set xs. flagged (fst (snd (snd kx))))"
  by (simp add: put_doc_def put_units_dependencies)

subsection \<open>The contract entries of a document\<close>

text \<open>
  The unit entries of a document as \<^verbatim>\<open>load_from_compile\<close> finds them (the document itself,
  keyed \<^verbatim>\<open>legacy\<close>, when it has no key \<^verbatim>\<open>compilation_units\<close>), the contract entries of a
  unit, and all contract entries of a document.
\<close>

definition doc_units :: "json \<Rightarrow> (string \<times> json) list" where
  "doc_units doc =
     (case py_in ''compilation_units'' doc of
        Inr True \<Rightarrow> (case getitem doc ''compilation_units'' of Inr (JObj us) \<Rightarrow> us | _ \<Rightarrow> [])
      | Inr False \<Rightarrow> [(''legacy'', doc)]
      | Inl e \<Rightarrow> [])"

definition unit_contracts :: "json \<Rightarrow> (string \<times> json) list" where
  "unit_contracts j = (case getitem j ''contracts'' of Inr (JObj cs) \<Rightarrow> cs | _ \<Rightarrow> [])"

definition doc_contracts :: "json \<Rightarrow> (string \<times> json) list" where
  "doc_contracts doc = concat (map (\<lambda>(key, j). unit_contracts j) (doc_units doc))"

text \<open>The filename views a contract entry contributes: all four when its flag is true.\<close>

definition contract_views :: "json \<Rightarrow> json set" where
  "contract_views c =
     (case read_Filename c of
        Inl e \<Rightarrow> {}
      | Inr fn \<Rightarrow>
          (case getitem c ''is_dependency'' of
             Inl e \<Rightarrow> {}
           | Inr flag \<Rightarrow> if truthy flag then views fn else {}))"

lemma items_eq_Inr [simp]: "items v = Inr cs \<longleftrightarrow> v = JObj cs"
  by (cases v) (auto simp add: items_def)

lemma read_unit_InrE:
  assumes "read_unit j = Inr (cv, ps, a)"
  obtains cs where "read_CompilerVersion j = Inr cv" "getitem j ''contracts'' = Inr (JObj cs)"
    "read_contracts cs = Inr ps" "getitem j ''asts'' = Inr a"
  using assms unfolding read_unit_def
  by (auto simp add: bindR_eq_Inr)

lemma unit_contracts_read:
  assumes "read_unit j = Inr (cv, ps, a)"
  shows "list_all2 (\<lambda>nc np. fst np = fst nc \<and> read_contract (snd nc) = Inr (snd np))
           (unit_contracts j) ps"
proof -
  from assms obtain cs where cs: "getitem j ''contracts'' = Inr (JObj cs)"
    and ps: "read_contracts cs = Inr ps"
    by (rule read_unit_InrE)
  show ?thesis using read_contracts_list_all2 [OF ps] by (simp add: unit_contracts_def cs)
qed

lemma doc_units_read:
  assumes "read_doc_units doc = Inr xs"
  shows "list_all2 (\<lambda>kj kx. fst kx = fst kj \<and> read_unit (snd kj) = Inr (snd kx)) (doc_units doc) xs"
proof -
  from assms obtain present where pr: "py_in ''compilation_units'' doc = Inr present"
    unfolding read_doc_units_def by (auto simp add: bindR_eq_Inr)
  show ?thesis
  proof (cases present)
    case False
    with assms pr obtain x where "read_legacy doc = Inr x" "xs = [(''legacy'', x)]"
      unfolding read_doc_units_def by (auto simp add: bindR_eq_Inr)
    then show ?thesis using pr False
      by (simp add: doc_units_def read_legacy_iff_read_unit)
  next
    case True
    with assms pr obtain us where us: "getitem doc ''compilation_units'' = Inr (JObj us)"
      and r: "read_units us = Inr xs"
      unfolding read_doc_units_def
      by (auto simp add: bindR_eq_Inr)
    show ?thesis using read_units_list_all2 [OF r] pr True by (simp add: doc_units_def us)
  qed
qed

lemma list_all2_in_left:
  "list_all2 R xs ys \<Longrightarrow> x \<in> set xs \<Longrightarrow> \<exists>y \<in> set ys. R x y"
  by (induction xs ys rule: list_all2_induct) auto

lemma list_all2_UN_eq:
  "list_all2 R xs ys \<Longrightarrow> (\<And>x y. R x y \<Longrightarrow> f x = g y) \<Longrightarrow>
   (\<Union>x \<in> set xs. f x) = (\<Union>y \<in> set ys. g y)"
  by (induction xs ys rule: list_all2_induct) auto

lemma read_contract_views:
  assumes "read_contract c = Inr p"
  shows "contract_views c = (if truthy (cf_is_dependency p) then views (cf_filename p) else {})"
  using assms by (rule read_contract_InrE) (simp add: contract_views_def)

lemma flagged_eq_contract_views:
  assumes "list_all2 (\<lambda>nc np. fst np = fst nc \<and> read_contract (snd nc) = Inr (snd np)) cs ps"
  shows "flagged ps = (\<Union>nc \<in> set cs. contract_views (snd nc))"
  unfolding flagged_def
  by (rule sym, rule list_all2_UN_eq [OF assms]) (simp add: read_contract_views)

lemma set_doc_contracts:
  "(\<Union>nc \<in> set (doc_contracts doc). f nc) =
   (\<Union>kj \<in> set (doc_units doc). \<Union>nc \<in> set (unit_contracts (snd kj)). f nc)"
  by (simp add: doc_contracts_def case_prod_beta)

lemma import_dependencies:
  assumes "load_from_compile doc s = (Inr r, s')"
  shows "dependencies s' = dependencies s \<union> (\<Union>nc \<in> set (doc_contracts doc). contract_views (snd nc))"
proof -
  from assms obtain p xs wd t tests where x: "read_doc doc = Inr (p, xs, wd, t, tests)"
    and s': "s' = put_doc (p, xs, wd, t, tests) s"
    unfolding load_from_compile_Inr_iff by (metis prod.collapse)
  from x have xs: "read_doc_units doc = Inr xs"
    unfolding read_doc_def by (auto simp add: bindR_eq_Inr)
  have "(\<Union>kj \<in> set (doc_units doc). \<Union>nc \<in> set (unit_contracts (snd kj)). contract_views (snd nc)) =
        (\<Union>kx \<in> set xs. flagged (fst (snd (snd kx))))"
  proof (rule list_all2_UN_eq [OF doc_units_read [OF xs]])
    fix kj :: "string \<times> json" and kx :: "string \<times> unit_fields"
    assume a: "fst kx = fst kj \<and> read_unit (snd kj) = Inr (snd kx)"
    obtain cv ps a where kx: "snd kx = (cv, ps, a)" by (cases "snd kx")
    from a kx have "read_unit (snd kj) = Inr (cv, ps, a)" by simp
    from flagged_eq_contract_views [OF unit_contracts_read [OF this]]
    show "(\<Union>nc \<in> set (unit_contracts (snd kj)). contract_views (snd nc)) =
          flagged (fst (snd (snd kx)))"
      by (simp add: kx)
  qed
  then show ?thesis
    unfolding s' put_doc_dependencies set_doc_contracts by simp
qed

lemma import_reads_contract:
  assumes "load_from_compile doc s = (Inr r, s')" and "(n, c) \<in> set (doc_contracts doc)"
  shows "\<exists>p. read_contract c = Inr p"
proof -
  from assms(1) obtain p xs wd t tests where x: "read_doc doc = Inr (p, xs, wd, t, tests)"
    unfolding load_from_compile_Inr_iff by (metis prod.collapse)
  from x have xs: "read_doc_units doc = Inr xs"
    unfolding read_doc_def by (auto simp add: bindR_eq_Inr)
  from assms(2) obtain key j where kj: "(key, j) \<in> set (doc_units doc)"
    and nc: "(n, c) \<in> set (unit_contracts j)"
    by (auto simp add: doc_contracts_def)
  from list_all2_in_left [OF doc_units_read [OF xs] kj]
  obtain kx where "read_unit j = Inr (snd kx)"
    by auto
  then obtain cv ps a where "read_unit j = Inr (cv, ps, a)"
    by (cases "snd kx") auto
  from list_all2_in_left [OF unit_contracts_read [OF this] nc]
  obtain np where "read_contract c = Inr (snd np)"
    by auto
  then show ?thesis by blast
qed

text \<open>
  Claim C3. After a successful import, a contract entry whose \<^verbatim>\<open>is_dependency\<close> flag is
  true has all four of its filename views (absolute, relative, short, used) in the
  session's dependency set. A contract entry whose flag is false contributes none: its
  iteration of the contract loop (of either import path) leaves the dependency set as it
  was, and the set after the import is exactly the set before it together with the views
  of the contract entries whose flag is true.
\<close>

theorem dependency_propagation:
  assumes "load_from_compile doc s = (Inr r, s')"
    and "(n, c) \<in> set (doc_contracts doc)"
  shows "\<exists>fn flag.
           read_Filename c = Inr fn \<and> getitem c ''is_dependency'' = Inr flag \<and>
           (truthy flag \<longrightarrow>
              absolute fn \<in> dependencies s' \<and> relative fn \<in> dependencies s' \<and>
              short fn \<in> dependencies s' \<and> used fn \<in> dependencies s') \<and>
           (\<not> truthy flag \<longrightarrow>
              (\<forall>u d. snd (snd (load_contract n c (u, d))) = d \<and>
                     snd (snd (load_contract_legacy n c (u, d))) = d)) \<and>
           dependencies s' =
             dependencies s \<union> (\<Union>nc \<in> set (doc_contracts doc). contract_views (snd nc))"
proof -
  from import_reads_contract [OF assms] obtain p where p: "read_contract c = Inr p" ..
  from p have fn: "read_Filename c = Inr (cf_filename p)"
    and flag: "getitem c ''is_dependency'' = Inr (cf_is_dependency p)"
    by (rule read_contract_InrE, simp)+
  have deps: "dependencies s' =
      dependencies s \<union> (\<Union>nc \<in> set (doc_contracts doc). contract_views (snd nc))"
    using assms(1) by (rule import_dependencies)
  have "contract_views c \<subseteq> dependencies s'"
    unfolding deps using assms(2) by force
  then have t: "truthy (cf_is_dependency p) \<longrightarrow>
      absolute (cf_filename p) \<in> dependencies s' \<and> relative (cf_filename p) \<in> dependencies s' \<and>
      short (cf_filename p) \<in> dependencies s' \<and> used (cf_filename p) \<in> dependencies s'"
    by (auto simp add: read_contract_views [OF p] views_def)
  have f: "\<not> truthy (cf_is_dependency p) \<longrightarrow>
      (\<forall>u d. snd (snd (load_contract n c (u, d))) = d \<and>
             snd (snd (load_contract_legacy n c (u, d))) = d)"
    by (simp add: load_contract_legacy_eq load_contract_ok [OF p] put_deps_def)
  from fn flag t f deps show ?thesis by blast
qed

subsection \<open>Example documents\<close>

text \<open>
  A dependency contract with the filenames of the spec's dependency example, a contract
  of the project, a unit holding both, and the unit as a current-schema document and as a
  legacy document.
\<close>

definition dep_contract :: json where
  "dep_contract =
     JObj [(''abi'', JArr []), (''bin'', JStr ''6080''), (''bin-runtime'', JStr ''6040''),
           (''srcmap'', JStr ''0:10:0;5:2:0''), (''srcmap-runtime'', JStr ''0:10:0''),
           (''filenames'',
              JObj [(''absolute'', JStr ''/a/Dep.sol''), (''used'', JStr ''Dep.sol''),
                    (''short'', JStr ''Dep.sol''), (''relative'', JStr ''lib/Dep.sol'')]),
           (''libraries'', JObj []), (''is_dependency'', JBool True),
           (''userdoc'', JObj [(''notice'', JStr ''n'')]), (''devdoc'', JObj [])]"

definition own_contract :: json where
  "own_contract =
     JObj [(''abi'', JArr []), (''bin'', JStr ''6001''), (''bin-runtime'', JStr ''6002''),
           (''srcmap'', JStr ''1:2:0''), (''srcmap-runtime'', JStr ''''),
           (''filenames'',
              JObj [(''absolute'', JStr ''/a/src/Token.sol''), (''used'', JStr ''src/Token.sol''),
                    (''short'', JStr ''Token.sol''), (''relative'', JStr ''src/Token.sol'')]),
           (''libraries'', JObj []), (''is_dependency'', JBool False)]"

definition example_compiler :: json where
  "example_compiler =
     JObj [(''compiler'', JStr ''solc''), (''version'', JStr ''0.8.0''), (''optimized'', JBool False)]"

definition example_contracts :: json where
  "example_contracts = JObj [(''Dep'', dep_contract), (''Token'', own_contract)]"

definition example_document :: json where
  "example_document =
     JObj [(''compilation_units'',
              JObj [(''proj'',
                 JObj [(''compiler'', example_compiler), (''asts'', JObj []),
                       (''contracts'', example_contracts)])]),
           (''package'', JNull), (''working_dir'', JStr ''/a''), (''type'', JInt 4),
           (''unit_tests'', JArr [JStr ''dapp test''])]"

definition example_legacy_document :: json where
  "example_legacy_document =
     JObj [(''contracts'', example_contracts), (''asts'', JObj []),
           (''compiler'', example_compiler),
           (''working_dir'', JStr ''/a''), (''type'', JInt 4)]"

definition example_session :: CryticCompile where
  "example_session = empty_session \<lparr>platform_type_used = 100, guessed_tests = JArr []\<rparr>"

lemmas example_defs =
  dep_contract_def own_contract_def example_compiler_def example_contracts_def
  example_document_def example_legacy_document_def example_session_def empty_session_def

lemmas import_defs =
  load_from_compile_def load_from_compile_legacy_def load_unit_def load_contract_def
  load_contract_legacy_def in_unit_def store_def dep_add_def add_name_def
  new_CompilationUnit_def set_filenames_def read_Filename_def read_CompilerVersion_def
  read_Natspec_def split_semicolon_def getitem_def getitem2_def get_default_def items_def
  py_in_def bindR_def bindE_def seqE_def liftE_def returnE_def modify_def

lemma example_document_import:
  "fst (load_from_compile example_document example_session) =
     Inr (JInt 4, JArr [JStr ''dapp test''])"
  by (simp add: example_defs import_defs)

lemma example_document_contracts:
  "doc_contracts example_document = [(''Dep'', dep_contract), (''Token'', own_contract)]"
  by (simp add: doc_contracts_def doc_units_def unit_contracts_def example_document_def
      example_contracts_def py_in_def getitem_def)

lemma dep_contract_reads:
  "read_Filename dep_contract =
     Inr \<lparr>absolute = JStr ''/a/Dep.sol'', used = JStr ''Dep.sol'',
          relative = JStr ''lib/Dep.sol'', short = JStr ''Dep.sol''\<rparr>"
  "getitem dep_contract ''is_dependency'' = Inr (JBool True)"
  by (simp_all add: dep_contract_def read_Filename_def getitem2_def getitem_def)

lemma own_contract_reads:
  "read_Filename own_contract =
     Inr \<lparr>absolute = JStr ''/a/src/Token.sol'', used = JStr ''src/Token.sol'',
          relative = JStr ''src/Token.sol'', short = JStr ''Token.sol''\<rparr>"
  "getitem own_contract ''is_dependency'' = Inr (JBool False)"
  by (simp_all add: own_contract_def read_Filename_def getitem2_def getitem_def)

theorem dependency_propagation_witness:
  "JStr ''/a/Dep.sol'' \<in> dependencies (snd (load_from_compile example_document example_session)) \<and>
   JStr ''lib/Dep.sol'' \<in> dependencies (snd (load_from_compile example_document example_session)) \<and>
   JStr ''Dep.sol'' \<in> dependencies (snd (load_from_compile example_document example_session)) \<and>
   dependencies (snd (load_from_compile example_document example_session)) =
     {JStr ''/a/Dep.sol'', JStr ''lib/Dep.sol'', JStr ''Dep.sol''}"
proof -
  let ?s' = "snd (load_from_compile example_document example_session)"
  have ok: "load_from_compile example_document example_session =
      (Inr (JInt 4, JArr [JStr ''dapp test'']), ?s')"
    using example_document_import by (simp add: prod_eq_iff)
  have mem: "(''Dep'', dep_contract) \<in> set (doc_contracts example_document)"
    by (simp add: example_document_contracts)
  from dependency_propagation [OF ok mem] obtain fn flag where
    fn: "read_Filename dep_contract = Inr fn"
    and flag: "getitem dep_contract ''is_dependency'' = Inr flag"
    and t: "truthy flag \<longrightarrow>
              absolute fn \<in> dependencies ?s' \<and> relative fn \<in> dependencies ?s' \<and>
              short fn \<in> dependencies ?s' \<and> used fn \<in> dependencies ?s'"
    and eq: "dependencies ?s' =
      dependencies example_session \<union>
      (\<Union>nc \<in> set (doc_contracts example_document). contract_views (snd nc))"
    by blast
  from fn flag have "fn = \<lparr>absolute = JStr ''/a/Dep.sol'', used = JStr ''Dep.sol'',
          relative = JStr ''lib/Dep.sol'', short = JStr ''Dep.sol''\<rparr>" "flag = JBool True"
    by (simp_all add: dep_contract_reads)
  with t have m: "JStr ''/a/Dep.sol'' \<in> dependencies ?s' \<and>
      JStr ''lib/Dep.sol'' \<in> dependencies ?s' \<and> JStr ''Dep.sol'' \<in> dependencies ?s'"
    by simp
  have "dependencies ?s' = {JStr ''/a/Dep.sol'', JStr ''lib/Dep.sol'', JStr ''Dep.sol''}"
    unfolding eq example_document_contracts
    by (auto simp add: contract_views_def dep_contract_reads own_contract_reads views_def
        example_session_def empty_session_def)
  with m show ?thesis by blast
qed

subsection \<open>What every outcome leaves in the session\<close>

text \<open>A property of the state that a statement keeps, whether it returns or raises.\<close>

definition preserved :: "('s \<Rightarrow> bool) \<Rightarrow> ('s, 'a) stmt \<Rightarrow> bool" where
  "preserved P m \<longleftrightarrow> (\<forall>s. P s \<longrightarrow> P (snd (m s)))"

lemma preservedD: "preserved P m \<Longrightarrow> P s \<Longrightarrow> P (snd (m s))"
  by (simp add: preserved_def)

lemma preserved_returnE [intro!]: "preserved P (returnE x)"
  by (simp add: preserved_def)

lemma preserved_liftE [intro!]: "preserved P (liftE r)"
  by (simp add: preserved_def)

lemma preserved_modify [intro]: "(\<And>s. P s \<Longrightarrow> P (f s)) \<Longrightarrow> preserved P (modify f)"
  by (simp add: preserved_def)

lemma preserved_bindE [intro!]:
  "preserved P m \<Longrightarrow> (\<And>x. preserved P (f x)) \<Longrightarrow> preserved P (bindE m f)"
  unfolding preserved_def bindE_def
  by (auto split: sum.splits prod.splits)

lemma preserved_seqE [intro!]: "preserved P m \<Longrightarrow> preserved P n \<Longrightarrow> preserved P (seqE m n)"
  by (simp add: seqE_def preserved_bindE)

lemma preserved_for_each [intro!]:
  "(\<And>x. preserved P (f x)) \<Longrightarrow> preserved P (for_each xs f)"
  by (induction xs) auto

lemma preserved_if [intro!]:
  "preserved P m \<Longrightarrow> preserved P n \<Longrightarrow> preserved P (if b then m else n)"
  by simp

lemma after_bindE:
  "P (snd (m s)) \<Longrightarrow> (\<And>x. preserved P (f x)) \<Longrightarrow> P (snd (bindE m f s))"
  by (cases "m s") (auto simp add: bindE_def preserved_def split: sum.splits)

lemma after_seqE: "P (snd (m s)) \<Longrightarrow> preserved P n \<Longrightarrow> P (snd (seqE m n s))"
  by (simp add: seqE_def after_bindE)

text \<open>The statements of \<^verbatim>\<open>load_from_compile\<close> that follow the units.\<close>

definition import_tail :: "json \<Rightarrow> (CryticCompile, json \<times> json) stmt" where
  "import_tail loaded_json =
     seqE (modify set_filenames)
    (bindE (liftE (getitem loaded_json ''working_dir'')) (\<lambda>wd.
     seqE (modify (\<lambda>s. s\<lparr>working_dir := wd\<rparr>))
    (bindE (liftE (getitem loaded_json ''type'')) (\<lambda>t.
     bindE (liftE (get_default loaded_json ''unit_tests'' (JArr []))) (\<lambda>tests.
     returnE (t, tests))))))"

lemma import_tail_preserved:
  assumes "\<And>s fs wd. P s \<Longrightarrow> P (s\<lparr>filenames := fs\<rparr>) \<and> P (s\<lparr>working_dir := wd\<rparr>)"
  shows "preserved P (import_tail doc)"
  unfolding import_tail_def using assms
  by (intro preserved_seqE preserved_bindE preserved_liftE preserved_returnE preserved_modify)
    (simp_all add: set_filenames_def)

lemma load_from_compile_object:
  "load_from_compile (JObj kvs) s =
     seqE (if map_of kvs ''compilation_units'' = None
           then load_from_compile_legacy (JObj kvs)
           else bindE (liftE (bindR (getitem (JObj kvs) ''compilation_units'') items)) (\<lambda>us.
                  for_each us (\<lambda>(key, j). load_unit key j)))
       (import_tail (JObj kvs))
       (s\<lparr>package_name := (case map_of kvs ''package'' of None \<Rightarrow> JNull | Some v \<Rightarrow> v)\<rparr>)"
  unfolding load_from_compile_def import_tail_def
  by (simp add: get_default_def py_in_def split: option.splits)

lemma legacy_units_any_outcome:
  assumes "map_of kvs ''compilation_units'' = None"
  shows "\<exists>u. compilation_units (snd (load_from_compile (JObj kvs) s)) =
             AList.update ''legacy'' u (compilation_units s)"
proof -
  let ?s0 = "s\<lparr>package_name := (case map_of kvs ''package'' of None \<Rightarrow> JNull | Some v \<Rightarrow> v)\<rparr>"
  obtain u where u: "compilation_units (snd (load_from_compile_legacy (JObj kvs) ?s0)) =
      AList.update ''legacy'' u (compilation_units ?s0)"
    unfolding load_from_compile_legacy_def using in_unit_units by blast
  let ?P = "\<lambda>s'. compilation_units s' = AList.update ''legacy'' u (compilation_units s)"
  have "?P (snd (load_from_compile_legacy (JObj kvs) ?s0))"
    using u by simp
  then have "?P (snd (seqE (load_from_compile_legacy (JObj kvs)) (import_tail (JObj kvs)) ?s0))"
    by (rule after_seqE) (rule import_tail_preserved, simp)
  then show ?thesis
    unfolding load_from_compile_object using assms by auto
qed

text \<open>
  A unit holds the payload of a contract entry under its name: the name is one of the
  unit's contract names, and each mapping of the unit has under that name what the entry
  gives (the filename object of the four views, the abi, both bytecodes, both source maps
  split at \<^verbatim>\<open>;\<close>, the libraries and the Natspec).
\<close>

definition holds_contract :: "CompilationUnit \<Rightarrow> string \<Rightarrow> json \<Rightarrow> bool" where
  "holds_contract u n c =
     (case read_contract c of
        Inl e \<Rightarrow> False
      | Inr p \<Rightarrow> n \<in> set (contracts_names u) \<and> entry u n = entry_of p)"

lemma unit_of_frame:
  "unique_id (unit_of key (cv, ps, a)) = key"
  "asts (unit_of key (cv, ps, a)) = a"
  "compiler_version (unit_of key (cv, ps, a)) = Some cv"
  "set (contracts_names (unit_of key (cv, ps, a))) = fst ` set ps"
  by (simp_all add: unit_of_def build_unit_frame build_unit_names new_CompilationUnit_def)

lemma entry_asts [simp]: "entry (u\<lparr>asts := a\<rparr>) n = entry u n"
  by (simp add: entry_def)

lemma entry_unit_of:
  assumes "distinct (map fst ps)" and "(n, p) \<in> set ps"
  shows "entry (unit_of key (cv, ps, a)) n = entry_of p"
proof -
  from assms have "map_of ps n = Some p" by simp
  then show ?thesis
    by (simp add: unit_of_def entry_build_unit [OF assms(1)])
qed

lemma unit_of_holds:
  assumes r: "list_all2 (\<lambda>nc np. fst np = fst nc \<and> read_contract (snd nc) = Inr (snd np)) cs ps"
    and d: "distinct (map fst cs)" and m: "(n, c) \<in> set cs"
  shows "holds_contract (unit_of key (cv, ps, a)) n c"
proof -
  from list_all2_in_left [OF r m] obtain np where np: "np \<in> set ps" "fst np = n"
    "read_contract c = Inr (snd np)" by auto
  have dp: "distinct (map fst ps)" using list_all2_fst_eq [OF r] d by simp
  have "(n, snd np) \<in> set ps" using np by (metis prod.collapse)
  from entry_unit_of [OF dp this] np show ?thesis
    by (force simp add: holds_contract_def unit_of_frame)
qed

text \<open>
  Claim C8. A document without the key \<^verbatim>\<open>compilation_units\<close> makes the import construct
  exactly one unit, registered under the key \<^verbatim>\<open>legacy\<close> (whatever the outcome, the session's
  units afterwards are the units before with one unit put under \<^verbatim>\<open>legacy\<close>). When the import
  succeeds that unit is populated from the top-level kvs: its asts are the document's
  \<^verbatim>\<open>asts\<close>, its compiler version the triple under \<^verbatim>\<open>compiler\<close>, its contract names the keys of
  \<^verbatim>\<open>contracts\<close>, and it holds the payload of every contract entry.
\<close>

theorem legacy_document_import:
  assumes "map_of kvs ''compilation_units'' = None"
  shows "(\<exists>u. compilation_units (snd (load_from_compile (JObj kvs) s)) =
               AList.update ''legacy'' u (compilation_units s)) \<and>
         (\<forall>r s'. load_from_compile (JObj kvs) s = (Inr r, s') \<longrightarrow>
            (\<exists>u cv cs.
               map_of (compilation_units s') ''legacy'' = Some u \<and> unique_id u = ''legacy'' \<and>
               getitem (JObj kvs) ''asts'' = Inr (asts u) \<and>
               read_CompilerVersion (JObj kvs) = Inr cv \<and> compiler_version u = Some cv \<and>
               getitem (JObj kvs) ''contracts'' = Inr (JObj cs) \<and>
               set (contracts_names u) = fst ` set cs \<and>
               (distinct (map fst cs) \<longrightarrow> (\<forall>nc \<in> set cs. holds_contract u (fst nc) (snd nc)))))"
proof (intro conjI allI impI)
  show "\<exists>u. compilation_units (snd (load_from_compile (JObj kvs) s)) =
               AList.update ''legacy'' u (compilation_units s)"
    using assms by (rule legacy_units_any_outcome)
next
  fix r s'
  assume ok: "load_from_compile (JObj kvs) s = (Inr r, s')"
  then obtain p xs wd t tests where x: "read_doc (JObj kvs) = Inr (p, xs, wd, t, tests)"
    and s': "s' = put_doc (p, xs, wd, t, tests) s"
    unfolding load_from_compile_Inr_iff by (metis prod.collapse)
  from x assms obtain y where y: "read_legacy (JObj kvs) = Inr y" and xs: "xs = [(''legacy'', y)]"
    unfolding read_doc_def read_doc_units_def by (auto simp add: bindR_eq_Inr py_in_def)
  obtain cv ps a where yy: "y = (cv, ps, a)" by (cases y)
  from y have "read_unit (JObj kvs) = Inr (cv, ps, a)"
    by (simp add: read_legacy_iff_read_unit yy)
  then obtain cs where cvr: "read_CompilerVersion (JObj kvs) = Inr cv"
    and cs: "getitem (JObj kvs) ''contracts'' = Inr (JObj cs)"
    and ps: "read_contracts cs = Inr ps" and a: "getitem (JObj kvs) ''asts'' = Inr a"
    by (rule read_unit_InrE)
  let ?u = "unit_of ''legacy'' (cv, ps, a)"
  have u: "map_of (compilation_units s') ''legacy'' = Some ?u"
    by (simp add: s' xs yy put_doc_units put_unit_units)
  note r = read_contracts_list_all2 [OF ps]
  have names: "set (contracts_names ?u) = fst ` set cs"
    using list_all2_fst_eq [OF r] by (simp add: unit_of_frame) (metis set_map)
  have holds: "distinct (map fst cs) \<longrightarrow> (\<forall>nc \<in> set cs. holds_contract ?u (fst nc) (snd nc))"
    using unit_of_holds [OF r] by auto
  from u cvr cs a names holds
  show "\<exists>u cv cs.
               map_of (compilation_units s') ''legacy'' = Some u \<and> unique_id u = ''legacy'' \<and>
               getitem (JObj kvs) ''asts'' = Inr (asts u) \<and>
               read_CompilerVersion (JObj kvs) = Inr cv \<and> compiler_version u = Some cv \<and>
               getitem (JObj kvs) ''contracts'' = Inr (JObj cs) \<and>
               set (contracts_names u) = fst ` set cs \<and>
               (distinct (map fst cs) \<longrightarrow> (\<forall>nc \<in> set cs. holds_contract u (fst nc) (snd nc)))"
    by (intro exI [of _ ?u] exI [of _ cv] exI [of _ cs]) (simp add: unit_of_frame)
qed

lemma example_legacy_import:
  "fst (load_from_compile example_legacy_document example_session) = Inr (JInt 4, JArr [])"
  by (simp add: example_defs import_defs)

lemma dep_contract_payload:
  "read_contract dep_contract =
     Inr \<lparr>cf_filename = \<lparr>absolute = JStr ''/a/Dep.sol'', used = JStr ''Dep.sol'',
                          relative = JStr ''lib/Dep.sol'', short = JStr ''Dep.sol''\<rparr>,
          cf_abi = JArr [], cf_bin = JStr ''6080'', cf_bin_runtime = JStr ''6040'',
          cf_srcmap = [''0:10:0'', ''5:2:0''], cf_srcmap_runtime = [''0:10:0''],
          cf_libraries = JObj [],
          cf_natspec = \<lparr>userdoc = JObj [(''notice'', JStr ''n'')], devdoc = JObj []\<rparr>,
          cf_is_dependency = JBool True\<rparr>"
  by (simp add: dep_contract_def read_contract_def read_Filename_def read_Natspec_def
      split_semicolon_def getitem2_def getitem_def get_default_def)

lemma own_contract_payload:
  "read_contract own_contract =
     Inr \<lparr>cf_filename = \<lparr>absolute = JStr ''/a/src/Token.sol'', used = JStr ''src/Token.sol'',
                          relative = JStr ''src/Token.sol'', short = JStr ''Token.sol''\<rparr>,
          cf_abi = JArr [], cf_bin = JStr ''6001'', cf_bin_runtime = JStr ''6002'',
          cf_srcmap = [''1:2:0''], cf_srcmap_runtime = [[]],
          cf_libraries = JObj [],
          cf_natspec = \<lparr>userdoc = JObj [], devdoc = JObj []\<rparr>,
          cf_is_dependency = JBool False\<rparr>"
  by (simp add: own_contract_def read_contract_def read_Filename_def read_Natspec_def
      split_semicolon_def getitem2_def getitem_def get_default_def)

theorem legacy_document_import_witness:
  "fst (load_from_compile example_legacy_document example_session) = Inr (JInt 4, JArr []) \<and>
   map fst (compilation_units (snd (load_from_compile example_legacy_document example_session))) =
     [''legacy''] \<and>
   (\<exists>u. map_of (compilation_units (snd (load_from_compile example_legacy_document example_session)))
           ''legacy'' = Some u \<and>
        unique_id u = ''legacy'' \<and> asts u = JObj [] \<and>
        compiler_version u =
          Some \<lparr>compiler = JStr ''solc'', version = JStr ''0.8.0'', optimized = JBool False\<rparr> \<and>
        set (contracts_names u) = {''Dep'', ''Token''} \<and>
        map_of (abis u) ''Dep'' = Some (JArr []) \<and>
        map_of (srcmaps_init u) ''Dep'' = Some [''0:10:0'', ''5:2:0''])"
proof -
  let ?s' = "snd (load_from_compile example_legacy_document example_session)"
  obtain kvs where doc: "example_legacy_document = JObj kvs"
    and legacy: "map_of kvs ''compilation_units'' = None"
    by (simp add: example_legacy_document_def)
  have ok: "load_from_compile (JObj kvs) example_session = (Inr (JInt 4, JArr []), ?s')"
    using example_legacy_import by (simp add: prod_eq_iff doc)
  note T = legacy_document_import [OF legacy, of example_session]
  from T obtain u0 where "compilation_units ?s' = AList.update ''legacy'' u0 (compilation_units example_session)"
    unfolding doc by blast
  then have keys: "map fst (compilation_units ?s') = [''legacy'']"
    by (simp add: example_session_def empty_session_def)
  from T ok obtain u cv cs where u: "map_of (compilation_units ?s') ''legacy'' = Some u"
    and id: "unique_id u = ''legacy''"
    and a: "getitem (JObj kvs) ''asts'' = Inr (asts u)"
    and cv: "read_CompilerVersion (JObj kvs) = Inr cv" "compiler_version u = Some cv"
    and cs: "getitem (JObj kvs) ''contracts'' = Inr (JObj cs)"
    and names: "set (contracts_names u) = fst ` set cs"
    and holds: "distinct (map fst cs) \<longrightarrow> (\<forall>nc \<in> set cs. holds_contract u (fst nc) (snd nc))"
    by blast
  from a have a': "asts u = JObj []"
    unfolding doc [symmetric] by (simp add: example_legacy_document_def getitem_def)
  from cv have cv': "compiler_version u =
      Some \<lparr>compiler = JStr ''solc'', version = JStr ''0.8.0'', optimized = JBool False\<rparr>"
    unfolding doc [symmetric]
    by (simp add: example_legacy_document_def example_compiler_def read_CompilerVersion_def
        getitem2_def getitem_def)
  from cs have cs': "cs = [(''Dep'', dep_contract), (''Token'', own_contract)]"
    unfolding doc [symmetric]
    by (simp add: example_legacy_document_def example_contracts_def getitem_def)
  from holds have h: "holds_contract u ''Dep'' dep_contract"
    by (simp add: cs')
  then have e: "map_of (abis u) ''Dep'' = Some (JArr [])"
    "map_of (srcmaps_init u) ''Dep'' = Some [''0:10:0'', ''5:2:0'']"
    by (simp_all add: holds_contract_def dep_contract_payload entry_def entry_of_def)
  from names have n: "set (contracts_names u) = {''Dep'', ''Token''}"
    by (simp add: cs')
  from u id a' cv' n e have "\<exists>u. map_of (compilation_units ?s') ''legacy'' = Some u \<and>
        unique_id u = ''legacy'' \<and> asts u = JObj [] \<and>
        compiler_version u =
          Some \<lparr>compiler = JStr ''solc'', version = JStr ''0.8.0'', optimized = JBool False\<rparr> \<and>
        set (contracts_names u) = {''Dep'', ''Token''} \<and>
        map_of (abis u) ''Dep'' = Some (JArr []) \<and>
        map_of (srcmaps_init u) ''Dep'' = Some [''0:10:0'', ''5:2:0'']"
    by blast
  with example_legacy_import keys show ?thesis by blast
qed

subsection \<open>Missing documentation buckets\<close>

text \<open>The keys of a contract entry that the loop body reads with \<^verbatim>\<open>contract[...]\<close>.\<close>

definition required_contract_keys :: "string list" where
  "required_contract_keys =
     [''filenames'', ''abi'', ''bin'', ''bin-runtime'', ''srcmap'', ''srcmap-runtime'',
      ''libraries'', ''is_dependency'']"

lemma read_Natspec_object:
  "read_Natspec (JObj kvs) =
     Inr \<lparr>userdoc = (case map_of kvs ''userdoc'' of None \<Rightarrow> JObj [] | Some v \<Rightarrow> v),
          devdoc = (case map_of kvs ''devdoc'' of None \<Rightarrow> JObj [] | Some v \<Rightarrow> v)\<rparr>"
  by (simp add: read_Natspec_def get_default_def split: option.splits)

lemma getitem_delete:
  "k \<noteq> k' \<Longrightarrow> getitem (JObj (AList.delete k' kvs)) k = getitem (JObj kvs) k"
  by (simp add: getitem_def AList.delete_conv')

lemma read_contract_without_docs:
  "(case read_contract (JObj (AList.delete ''userdoc'' (AList.delete ''devdoc'' kvs))) of
      Inl e \<Rightarrow> Inl e | Inr p \<Rightarrow> Inr ()) =
   (case read_contract (JObj kvs) of Inl e \<Rightarrow> Inl e | Inr p \<Rightarrow> Inr ())"
  unfolding read_contract_def read_Filename_def getitem2_def read_Natspec_object
  by (auto simp add: getitem_delete bindR_def split: sum.splits)

lemma read_contract_required:
  assumes "read_contract (JObj kvs) = Inr p" and "k \<in> set required_contract_keys"
  shows "map_of kvs k \<noteq> None"
proof -
  from assms(1) obtain fn a b br sm smr l ns dep where r:
    "read_Filename (JObj kvs) = Inr fn" "getitem (JObj kvs) ''abi'' = Inr a"
    "getitem (JObj kvs) ''bin'' = Inr b" "getitem (JObj kvs) ''bin-runtime'' = Inr br"
    "bindR (getitem (JObj kvs) ''srcmap'') split_semicolon = Inr sm"
    "bindR (getitem (JObj kvs) ''srcmap-runtime'') split_semicolon = Inr smr"
    "getitem (JObj kvs) ''libraries'' = Inr l"
    "getitem (JObj kvs) ''is_dependency'' = Inr dep"
    "read_Natspec (JObj kvs) = Inr ns"
    by (rule read_contract_InrE)
  have key: "map_of kvs k' \<noteq> None" if "getitem (JObj kvs) k' = Inr v" for k' v
    using that by (auto simp add: getitem_def split: option.splits)
  from r(1) obtain f where "getitem (JObj kvs) ''filenames'' = Inr f"
    unfolding read_Filename_def getitem2_def by (auto simp add: bindR_eq_Inr)
  moreover from r(5) obtain v1 where "getitem (JObj kvs) ''srcmap'' = Inr v1"
    by (auto simp add: bindR_eq_Inr)
  moreover from r(6) obtain v2 where "getitem (JObj kvs) ''srcmap-runtime'' = Inr v2"
    by (auto simp add: bindR_eq_Inr)
  ultimately show ?thesis
    using assms(2) r(2,3,4,7,8) key unfolding required_contract_keys_def by auto
qed

text \<open>
  Claim C10. A contract entry without \<^verbatim>\<open>userdoc\<close> or \<^verbatim>\<open>devdoc\<close> does not make the import
  fail: on both import paths the outcome of the loop body is the same with and without
  the two keys, and a body that succeeds stores the Natspec built from the buckets found,
  with the empty mapping for a missing one. The absence of any other key that the body
  reads makes it raise.
\<close>

theorem missing_natspec_is_tolerated:
  "fst (load_contract n (JObj (AList.delete ''userdoc'' (AList.delete ''devdoc'' kvs))) st) =
     fst (load_contract n (JObj kvs) st) \<and>
   fst (load_contract_legacy n (JObj (AList.delete ''userdoc'' (AList.delete ''devdoc'' kvs))) st) =
     fst (load_contract_legacy n (JObj kvs) st) \<and>
   (\<forall>u d u' d'.
      load_contract n (JObj kvs) (u, d) = (Inr (), (u', d')) \<or>
      load_contract_legacy n (JObj kvs) (u, d) = (Inr (), (u', d')) \<longrightarrow>
      map_of (natspec u') n =
        Some \<lparr>userdoc = (case map_of kvs ''userdoc'' of None \<Rightarrow> JObj [] | Some v \<Rightarrow> v),
              devdoc = (case map_of kvs ''devdoc'' of None \<Rightarrow> JObj [] | Some v \<Rightarrow> v)\<rparr>) \<and>
   (\<forall>k \<in> set required_contract_keys. map_of kvs k = None \<longrightarrow>
      (\<exists>e. fst (load_contract n (JObj kvs) st) = Inl e) \<and>
      (\<exists>e. fst (load_contract_legacy n (JObj kvs) st) = Inl e))"
proof -
  have same: "fst (load_contract n (JObj (AList.delete ''userdoc'' (AList.delete ''devdoc'' kvs))) st) =
     fst (load_contract n (JObj kvs) st)"
    by (simp add: load_contract_fst read_contract_without_docs)
  have stored: "map_of (natspec u') n =
        Some \<lparr>userdoc = (case map_of kvs ''userdoc'' of None \<Rightarrow> JObj [] | Some v \<Rightarrow> v),
              devdoc = (case map_of kvs ''devdoc'' of None \<Rightarrow> JObj [] | Some v \<Rightarrow> v)\<rparr>"
    if ok: "load_contract n (JObj kvs) (u, d) = (Inr (), (u', d'))" for u d u' d'
  proof -
    from ok have "fst (load_contract n (JObj kvs) (u, d)) = Inr ()" by simp
    then obtain p where p: "read_contract (JObj kvs) = Inr p"
      unfolding load_contract_fst by (auto split: sum.splits)
    from load_contract_ok [OF p, of n u d] ok have u': "u' = put_contract n p u" by simp
    from p have "read_Natspec (JObj kvs) = Inr (cf_natspec p)"
      by (rule read_contract_InrE) simp
    then show ?thesis
      by (simp add: u' put_contract_def AList.update_conv' read_Natspec_object)
  qed
  have fails: "\<exists>e. fst (load_contract n (JObj kvs) st) = Inl e"
    if "k \<in> set required_contract_keys" "map_of kvs k = None" for k
  proof (cases "read_contract (JObj kvs)")
    case (Inl e)
    then show ?thesis by (simp add: load_contract_fst)
  next
    case (Inr p)
    from read_contract_required [OF Inr that(1)] that(2) show ?thesis by simp
  qed
  from same stored fails show ?thesis
    unfolding load_contract_legacy_eq by blast
qed

theorem missing_natspec_is_tolerated_witness:
  "fst (load_contract ''Token'' own_contract (new_CompilationUnit ''proj'', {})) = Inr () \<and>
   map_of (natspec (fst (snd (load_contract ''Token'' own_contract (new_CompilationUnit ''proj'', {})))))
     ''Token'' = Some \<lparr>userdoc = JObj [], devdoc = JObj []\<rparr> \<and>
   (\<exists>e. fst (load_contract ''Token'' (JObj [(''abi'', JArr [])]) (new_CompilationUnit ''proj'', {})) =
           Inl e)"
proof -
  let ?st = "(new_CompilationUnit ''proj'', {} :: json set)"
  obtain kvs where c: "own_contract = JObj kvs" and ud: "map_of kvs ''userdoc'' = None"
    and dd: "map_of kvs ''devdoc'' = None"
    by (simp add: own_contract_def)
  have ok: "fst (load_contract ''Token'' own_contract ?st) = Inr ()"
    by (simp add: load_contract_fst own_contract_payload)
  then have run: "load_contract ''Token'' (JObj kvs) ?st =
      (Inr (), (fst (snd (load_contract ''Token'' own_contract ?st)),
                snd (snd (load_contract ''Token'' own_contract ?st))))"
    by (simp add: prod_eq_iff c)
  from missing_natspec_is_tolerated [of "''Token''" kvs ?st] run
  have "map_of (natspec (fst (snd (load_contract ''Token'' own_contract ?st)))) ''Token'' =
      Some \<lparr>userdoc = (case map_of kvs ''userdoc'' of None \<Rightarrow> JObj [] | Some v \<Rightarrow> v),
            devdoc = (case map_of kvs ''devdoc'' of None \<Rightarrow> JObj [] | Some v \<Rightarrow> v)\<rparr>"
    by blast
  then have stored: "map_of (natspec (fst (snd (load_contract ''Token'' own_contract ?st)))) ''Token'' =
      Some \<lparr>userdoc = JObj [], devdoc = JObj []\<rparr>"
    by (simp add: ud dd)
  have "''bin'' \<in> set required_contract_keys" "map_of [(''abi'', JArr [])] ''bin'' = None"
    by (simp_all add: required_contract_keys_def)
  with missing_natspec_is_tolerated [of "''Token''" "[(''abi'', JArr [])]" ?st]
  have "\<exists>e. fst (load_contract ''Token'' (JObj [(''abi'', JArr [])]) ?st) = Inl e"
    by blast
  with ok stored show ?thesis by blast
qed

subsection \<open>The legacy path and the current path\<close>

text \<open>
  A legacy document with the payload \<open>cs\<close>, \<open>a\<close>, \<open>cv\<close> under its top-level keys
  \<^verbatim>\<open>contracts\<close>, \<^verbatim>\<open>asts\<close>, \<^verbatim>\<open>compiler\<close>, and the current-schema document with one entry
  \<open>key\<close> in \<^verbatim>\<open>compilation_units\<close> that holds the same payload; \<open>rest\<close> are the other
  top-level entries (\<^verbatim>\<open>package\<close>, \<^verbatim>\<open>working_dir\<close>, \<^verbatim>\<open>type\<close>, \<^verbatim>\<open>unit_tests\<close>).
\<close>

definition legacy_document :: "json \<Rightarrow> json \<Rightarrow> json \<Rightarrow> (string \<times> json) list \<Rightarrow> json" where
  "legacy_document cs a cv rest =
     JObj ((''contracts'', cs) # (''asts'', a) # (''compiler'', cv) # rest)"

definition current_document ::
  "string \<Rightarrow> json \<Rightarrow> json \<Rightarrow> json \<Rightarrow> (string \<times> json) list \<Rightarrow> json" where
  "current_document key cs a cv rest =
     JObj ((''compilation_units'',
              JObj [(key, JObj [(''compiler'', cv), (''asts'', a), (''contracts'', cs)])]) # rest)"

lemma put_contract_unique_id:
  "put_contract n p (u\<lparr>unique_id := k\<rparr>) = (put_contract n p u)\<lparr>unique_id := k\<rparr>"
  by (simp add: put_contract_def)

lemma build_unit_unique_id: "build_unit ps (u\<lparr>unique_id := k\<rparr>) = (build_unit ps u)\<lparr>unique_id := k\<rparr>"
  by (induction ps arbitrary: u) (auto simp add: put_contract_unique_id)

lemma unit_of_key: "unit_of key x = (unit_of ''legacy'' x)\<lparr>unique_id := key\<rparr>"
proof -
  obtain cv ps a where x: "x = (cv, ps, a)" by (cases x)
  have "(new_CompilationUnit key)\<lparr>compiler_version := Some cv\<rparr> =
        ((new_CompilationUnit ''legacy'')\<lparr>compiler_version := Some cv\<rparr>)\<lparr>unique_id := key\<rparr>"
    by (simp add: new_CompilationUnit_def)
  then show ?thesis
    unfolding unit_of_def x by (simp add: build_unit_unique_id)
qed

lemma read_doc_legacy_document:
  assumes "map_of rest ''compilation_units'' = None"
  shows "read_doc (legacy_document cs a cv rest) =
     bindR (get_default (JObj rest) ''package'' JNull) (\<lambda>p.
     bindR (read_unit (JObj [(''compiler'', cv), (''asts'', a), (''contracts'', cs)])) (\<lambda>x.
     bindR (getitem (JObj rest) ''working_dir'') (\<lambda>wd.
     bindR (getitem (JObj rest) ''type'') (\<lambda>t.
     bindR (get_default (JObj rest) ''unit_tests'' (JArr [])) (\<lambda>tests.
     Inr (p, [(''legacy'', x)], wd, t, tests))))))"
proof -
  let ?U = "JObj [(''compiler'', cv), (''asts'', a), (''contracts'', cs)]"
  let ?L = "legacy_document cs a cv rest"
  have "read_legacy ?L = read_legacy ?U"
    by (simp add: read_legacy_def read_CompilerVersion_def getitem2_def getitem_def
        legacy_document_def)
  moreover have "read_legacy ?U = read_unit ?U"
    by (simp add: read_legacy_def read_unit_def getitem_def bindR_def split: sum.splits)
  ultimately have "read_legacy ?L = read_unit ?U" by simp
  then show ?thesis
    using assms
    by (simp add: read_doc_def read_doc_units_def py_in_def get_default_def getitem_def
        legacy_document_def bindR_def split: sum.splits option.splits)
qed

lemma read_doc_current_document:
  "read_doc (current_document key cs a cv rest) =
     bindR (get_default (JObj rest) ''package'' JNull) (\<lambda>p.
     bindR (read_unit (JObj [(''compiler'', cv), (''asts'', a), (''contracts'', cs)])) (\<lambda>x.
     bindR (getitem (JObj rest) ''working_dir'') (\<lambda>wd.
     bindR (getitem (JObj rest) ''type'') (\<lambda>t.
     bindR (get_default (JObj rest) ''unit_tests'' (JArr [])) (\<lambda>tests.
     Inr (p, [(key, x)], wd, t, tests))))))"
  by (simp add: read_doc_def read_doc_units_def py_in_def get_default_def getitem_def
      current_document_def items_def read_units_Cons bindR_def split: sum.splits option.splits)

lemma read_doc_legacy_iff_current:
  assumes "map_of rest ''compilation_units'' = None"
  shows "read_doc (legacy_document cs a cv rest) = Inr (p, [(''legacy'', x)], wd, t, tests) \<longleftrightarrow>
         read_doc (current_document key cs a cv rest) = Inr (p, [(key, x)], wd, t, tests)"
  unfolding read_doc_legacy_document [OF assms] read_doc_current_document
  by (auto simp add: bindR_eq_Inr)

lemma read_doc_legacy_shape:
  assumes "map_of rest ''compilation_units'' = None"
    and "read_doc (legacy_document cs a cv rest) = Inr (p, xs, wd, t, tests)"
  obtains x where "xs = [(''legacy'', x)]"
  using assms(2) unfolding read_doc_legacy_document [OF assms(1)]
  by (auto simp add: bindR_eq_Inr)

lemma read_doc_current_shape:
  assumes "read_doc (current_document key cs a cv rest) = Inr (p, xs, wd, t, tests)"
  obtains x where "xs = [(key, x)]"
  using assms unfolding read_doc_current_document
  by (auto simp add: bindR_eq_Inr)

text \<open>
  Claim C2. For every payload, the import of the legacy document and the import of the
  current-schema document with one unit holding the same payload succeed together and
  return the same pair; when they succeed, the unit registered under \<^verbatim>\<open>legacy\<close> and the unit
  registered under the key of the current-schema entry are the same up to their key
  (every per-contract mapping, the asts and the compiler version are equal), and both
  imports leave the same dependency set, package name and working directory.
\<close>

theorem legacy_import_equivalent:
  assumes "map_of rest ''compilation_units'' = None"
  shows "(\<forall>r. fst (load_from_compile (legacy_document cs a cv rest) s) = Inr r \<longleftrightarrow>
              fst (load_from_compile (current_document key cs a cv rest) s) = Inr r) \<and>
         (\<forall>r. fst (load_from_compile (legacy_document cs a cv rest) s) = Inr r \<longrightarrow>
            (\<exists>u. map_of (compilation_units
                           (snd (load_from_compile (legacy_document cs a cv rest) s)))
                    ''legacy'' = Some u \<and>
                 map_of (compilation_units
                           (snd (load_from_compile (current_document key cs a cv rest) s)))
                    key = Some (u\<lparr>unique_id := key\<rparr>)) \<and>
            dependencies (snd (load_from_compile (legacy_document cs a cv rest) s)) =
              dependencies (snd (load_from_compile (current_document key cs a cv rest) s)) \<and>
            package_name (snd (load_from_compile (legacy_document cs a cv rest) s)) =
              package_name (snd (load_from_compile (current_document key cs a cv rest) s)) \<and>
            working_dir (snd (load_from_compile (legacy_document cs a cv rest) s)) =
              working_dir (snd (load_from_compile (current_document key cs a cv rest) s)))"
proof -
  let ?L = "legacy_document cs a cv rest" and ?C = "current_document key cs a cv rest"
  have both: "\<exists>p x wd t tests.
      r = (t, tests) \<and> read_doc ?L = Inr (p, [(''legacy'', x)], wd, t, tests) \<and>
      read_doc ?C = Inr (p, [(key, x)], wd, t, tests)"
    if "fst (load_from_compile ?L s) = Inr r \<or> fst (load_from_compile ?C s) = Inr r" for r
    using that
  proof
    assume "fst (load_from_compile ?L s) = Inr r"
    then obtain p xs wd t tests where x: "read_doc ?L = Inr (p, xs, wd, t, tests)"
      and r: "r = (t, tests)"
      unfolding load_from_compile_fst by (auto split: sum.splits)
    from read_doc_legacy_shape [OF assms x] obtain y where "xs = [(''legacy'', y)]" .
    with x r read_doc_legacy_iff_current [OF assms, of cs a cv p y wd t tests key]
    show ?thesis by blast
  next
    assume "fst (load_from_compile ?C s) = Inr r"
    then obtain p xs wd t tests where x: "read_doc ?C = Inr (p, xs, wd, t, tests)"
      and r: "r = (t, tests)"
      unfolding load_from_compile_fst by (auto split: sum.splits)
    from read_doc_current_shape [OF x] obtain y where "xs = [(key, y)]" .
    with x r read_doc_legacy_iff_current [OF assms, of cs a cv p y wd t tests key]
    show ?thesis by blast
  qed
  have together: "fst (load_from_compile ?L s) = Inr r \<longleftrightarrow> fst (load_from_compile ?C s) = Inr r"
    for r
  proof -
    have "fst (load_from_compile ?L s) = Inr r \<and> fst (load_from_compile ?C s) = Inr r"
      if "fst (load_from_compile ?L s) = Inr r \<or> fst (load_from_compile ?C s) = Inr r"
    proof -
      from both [OF that] obtain p x wd t tests where r: "r = (t, tests)"
        and l: "read_doc ?L = Inr (p, [(''legacy'', x)], wd, t, tests)"
        and c: "read_doc ?C = Inr (p, [(key, x)], wd, t, tests)"
        by blast
      show ?thesis by (simp add: load_from_compile_fst l c r)
    qed
    then show ?thesis by blast
  qed
  have content: "(\<exists>u. map_of (compilation_units (snd (load_from_compile ?L s))) ''legacy'' = Some u \<and>
                 map_of (compilation_units (snd (load_from_compile ?C s))) key =
                   Some (u\<lparr>unique_id := key\<rparr>)) \<and>
            dependencies (snd (load_from_compile ?L s)) = dependencies (snd (load_from_compile ?C s)) \<and>
            package_name (snd (load_from_compile ?L s)) = package_name (snd (load_from_compile ?C s)) \<and>
            working_dir (snd (load_from_compile ?L s)) = working_dir (snd (load_from_compile ?C s))"
    if "fst (load_from_compile ?L s) = Inr r" for r
  proof -
    from that both [of r] obtain p x wd t tests where
      l: "read_doc ?L = Inr (p, [(''legacy'', x)], wd, t, tests)"
      and c: "read_doc ?C = Inr (p, [(key, x)], wd, t, tests)"
      by blast
    have sl: "snd (load_from_compile ?L s) = put_doc (p, [(''legacy'', x)], wd, t, tests) s"
      by (simp add: load_from_compile_ok [OF l])
    have sc: "snd (load_from_compile ?C s) = put_doc (p, [(key, x)], wd, t, tests) s"
      by (simp add: load_from_compile_ok [OF c])
    have u1: "map_of (compilation_units (snd (load_from_compile ?L s))) ''legacy'' =
        Some (unit_of ''legacy'' x)"
      by (simp add: sl put_doc_units put_unit_units)
    have u2: "map_of (compilation_units (snd (load_from_compile ?C s))) key =
        Some ((unit_of ''legacy'' x)\<lparr>unique_id := key\<rparr>)"
      by (simp add: sc put_doc_units put_unit_units flip: unit_of_key)
    have d: "dependencies (snd (load_from_compile ?L s)) = dependencies (snd (load_from_compile ?C s))"
      by (simp add: sl sc put_doc_dependencies)
    have pw: "package_name (snd (load_from_compile ?L s)) = package_name (snd (load_from_compile ?C s))"
      "working_dir (snd (load_from_compile ?L s)) = working_dir (snd (load_from_compile ?C s))"
      by (simp_all add: sl sc put_doc_def)
    from u1 u2 d pw show ?thesis by blast
  qed
  from together content show ?thesis by blast
qed

definition example_rest :: "(string \<times> json) list" where
  "example_rest = [(''working_dir'', JStr ''/a''), (''type'', JInt 4)]"

lemma example_legacy_document_eq:
  "legacy_document example_contracts (JObj []) example_compiler example_rest = example_legacy_document"
  by (simp add: legacy_document_def example_legacy_document_def example_rest_def)

theorem legacy_import_equivalent_witness:
  "fst (load_from_compile example_legacy_document example_session) = Inr (JInt 4, JArr []) \<and>
   fst (load_from_compile
          (current_document ''proj'' example_contracts (JObj []) example_compiler example_rest)
          example_session) = Inr (JInt 4, JArr []) \<and>
   dependencies (snd (load_from_compile example_legacy_document example_session)) =
   dependencies (snd (load_from_compile
          (current_document ''proj'' example_contracts (JObj []) example_compiler example_rest)
          example_session)) \<and>
   (\<exists>u. map_of (compilation_units (snd (load_from_compile example_legacy_document example_session)))
           ''legacy'' = Some u \<and>
        map_of (compilation_units (snd (load_from_compile
          (current_document ''proj'' example_contracts (JObj []) example_compiler example_rest)
          example_session))) ''proj'' = Some (u\<lparr>unique_id := ''proj''\<rparr>))"
proof -
  have h: "map_of example_rest ''compilation_units'' = None"
    by (simp add: example_rest_def)
  note T = legacy_import_equivalent [OF h, of example_contracts "JObj []" example_compiler
      example_session "''proj''", unfolded example_legacy_document_eq]
  from T example_legacy_import show ?thesis by blast
qed

subsection \<open>Documents that lack a required key\<close>

text \<open>
  The keys the import reads with \<^verbatim>\<open>[...]\<close>: a document has them when it has \<^verbatim>\<open>working_dir\<close>
  and \<^verbatim>\<open>type\<close>, every unit has \<^verbatim>\<open>compiler\<close> (with \<^verbatim>\<open>compiler\<close>, \<^verbatim>\<open>version\<close>,
  \<^verbatim>\<open>optimized\<close>), \<^verbatim>\<open>asts\<close> and \<^verbatim>\<open>contracts\<close>, and every contract entry has the keys of
  \<open>required_contract_keys\<close> and the four views under \<^verbatim>\<open>filenames\<close>.
\<close>

definition has_key :: "json \<Rightarrow> string \<Rightarrow> bool" where
  "has_key j k = (case j of JObj kvs \<Rightarrow> map_of kvs k \<noteq> None | _ \<Rightarrow> False)"

definition has_keys_under :: "json \<Rightarrow> string \<Rightarrow> string list \<Rightarrow> bool" where
  "has_keys_under j k ks = (case getitem j k of Inr v \<Rightarrow> list_all (has_key v) ks | Inl e \<Rightarrow> False)"

definition contract_has_keys :: "json \<Rightarrow> bool" where
  "contract_has_keys c \<longleftrightarrow>
     list_all (has_key c) required_contract_keys \<and>
     has_keys_under c ''filenames'' [''absolute'', ''relative'', ''short'', ''used'']"

definition unit_has_keys :: "json \<Rightarrow> bool" where
  "unit_has_keys j \<longleftrightarrow>
     has_keys_under j ''compiler'' [''compiler'', ''version'', ''optimized''] \<and>
     has_key j ''asts'' \<and> has_key j ''contracts'' \<and>
     list_all (\<lambda>nc. contract_has_keys (snd nc)) (unit_contracts j)"

definition has_required_keys :: "json \<Rightarrow> bool" where
  "has_required_keys doc \<longleftrightarrow>
     has_key doc ''working_dir'' \<and> has_key doc ''type'' \<and>
     list_all (\<lambda>kj. unit_has_keys (snd kj)) (doc_units doc)"

lemma getitem_has_key: "getitem j k = Inr v \<Longrightarrow> has_key j k"
  by (cases j) (auto simp add: getitem_def has_key_def split: option.splits)

lemma getitem_object: "getitem j k = Inr v \<Longrightarrow> \<exists>kvs. j = JObj kvs"
  by (cases j) (auto simp add: getitem_def)

lemma getitem2_has_key:
  "getitem2 j k1 k2 = Inr v \<Longrightarrow> \<exists>x. getitem j k1 = Inr x \<and> has_key x k2"
  by (auto simp add: getitem2_def bindR_eq_Inr getitem_has_key)

lemma read_contract_has_keys:
  assumes "read_contract c = Inr p"
  shows "contract_has_keys c"
proof -
  from assms obtain fn a where fn: "read_Filename c = Inr fn" and a: "getitem c ''abi'' = Inr a"
    by (rule read_contract_InrE)
  from getitem_object [OF a] obtain kvs where c: "c = JObj kvs" ..
  have "list_all (has_key c) required_contract_keys"
    unfolding list_all_iff c using read_contract_required [OF assms [unfolded c]]
    by (simp add: has_key_def)
  moreover from fn obtain v1 v2 v3 v4 where
    "getitem2 c ''filenames'' ''absolute'' = Inr v1" "getitem2 c ''filenames'' ''relative'' = Inr v2"
    "getitem2 c ''filenames'' ''short'' = Inr v3" "getitem2 c ''filenames'' ''used'' = Inr v4"
    unfolding read_Filename_def by (auto simp add: bindR_eq_Inr)
  then have "has_keys_under c ''filenames'' [''absolute'', ''relative'', ''short'', ''used'']"
    by (auto simp add: has_keys_under_def dest!: getitem2_has_key)
  ultimately show ?thesis by (simp add: contract_has_keys_def)
qed

lemma list_all2_list_all_left:
  "list_all2 R xs ys \<Longrightarrow> (\<And>x y. R x y \<Longrightarrow> P x) \<Longrightarrow> list_all P xs"
  by (induction xs ys rule: list_all2_induct) auto

lemma read_unit_has_keys:
  assumes "read_unit j = Inr x"
  shows "unit_has_keys j"
proof -
  obtain cv ps a where x: "x = (cv, ps, a)" by (cases x)
  from assms obtain cs where cvr: "read_CompilerVersion j = Inr cv"
    and cs: "getitem j ''contracts'' = Inr (JObj cs)" and a: "getitem j ''asts'' = Inr a"
    unfolding x by (rule read_unit_InrE)
  from cvr obtain v1 v2 v3 where
    "getitem2 j ''compiler'' ''compiler'' = Inr v1" "getitem2 j ''compiler'' ''version'' = Inr v2"
    "getitem2 j ''compiler'' ''optimized'' = Inr v3"
    unfolding read_CompilerVersion_def by (auto simp add: bindR_eq_Inr)
  then have c: "has_keys_under j ''compiler'' [''compiler'', ''version'', ''optimized'']"
    by (auto simp add: has_keys_under_def dest!: getitem2_has_key)
  have "list_all (\<lambda>nc. contract_has_keys (snd nc)) (unit_contracts j)"
    by (rule list_all2_list_all_left [OF unit_contracts_read [OF assms [unfolded x]]])
      (simp add: read_contract_has_keys)
  with c getitem_has_key [OF cs] getitem_has_key [OF a] show ?thesis
    by (simp add: unit_has_keys_def)
qed

lemma read_doc_has_required_keys:
  assumes "read_doc doc = Inr x"
  shows "has_required_keys doc"
proof -
  from assms obtain xs wd t where xs: "read_doc_units doc = Inr xs"
    and wd: "getitem doc ''working_dir'' = Inr wd" and t: "getitem doc ''type'' = Inr t"
    unfolding read_doc_def by (auto simp add: bindR_eq_Inr)
  have "list_all (\<lambda>kj. unit_has_keys (snd kj)) (doc_units doc)"
    by (rule list_all2_list_all_left [OF doc_units_read [OF xs]])
      (simp add: read_unit_has_keys)
  with getitem_has_key [OF wd] getitem_has_key [OF t] show ?thesis
    by (simp add: has_required_keys_def)
qed

lemma missing_key_fails:
  assumes "\<not> has_required_keys doc"
  shows "\<exists>e. fst (load_from_compile doc s) = Inl e"
proof (cases "read_doc doc")
  case (Inl e)
  then show ?thesis by (simp add: load_from_compile_fst)
next
  case (Inr x)
  from read_doc_has_required_keys [OF Inr] assms show ?thesis by simp
qed

text \<open>The keys under which the session holds units.\<close>

definition unit_keys :: "CryticCompile \<Rightarrow> string set" where
  "unit_keys s = fst ` set (compilation_units s)"

lemma unit_keys_update:
  "compilation_units s' = AList.update key u (compilation_units s) \<Longrightarrow>
   unit_keys s' = insert key (unit_keys s)"
  unfolding unit_keys_def
  using AList.dom_update [of key u "compilation_units s"]
  by (simp add: dom_map_of_conv_image_fst)

lemma load_unit_keys: "unit_keys (snd (load_unit key j s)) = insert key (unit_keys s)"
proof -
  obtain u where "compilation_units (snd (load_unit key j s)) = AList.update key u (compilation_units s)"
    unfolding load_unit_def using in_unit_units by blast
  then show ?thesis by (rule unit_keys_update)
qed

lemma load_unit_preserves_key: "preserved (\<lambda>s. k \<in> unit_keys s) (load_unit key j)"
  by (simp add: preserved_def load_unit_keys)

lemma import_tail_preserves_key: "preserved (\<lambda>s. k \<in> unit_keys s) (import_tail doc)"
  by (rule import_tail_preserved) (simp add: unit_keys_def)

lemma bindE_liftE_Inr_fun: "bindE (liftE (Inr x)) f = f x"
  by (simp add: fun_eq_iff)

lemma first_unit_registered:
  assumes "map_of kvs ''compilation_units'' = Some (JObj ((key, j) # us))"
  shows "key \<in> unit_keys (snd (load_from_compile (JObj kvs) s))"
proof -
  let ?s0 = "s\<lparr>package_name := (case map_of kvs ''package'' of None \<Rightarrow> JNull | Some v \<Rightarrow> v)\<rparr>"
  let ?P = "\<lambda>s. key \<in> unit_keys s"
  have loop: "preserved ?P (for_each us (\<lambda>(key, j). load_unit key j))"
  proof (rule preserved_for_each)
    fix x :: "string \<times> json"
    show "preserved ?P (case x of (key, j) \<Rightarrow> load_unit key j)"
      by (cases x) (simp add: load_unit_preserves_key)
  qed
  have tail: "preserved ?P (import_tail (JObj kvs))"
    by (rule import_tail_preserves_key)
  have 1: "?P (snd (load_unit key j ?s0))"
    by (simp add: load_unit_keys)
  have 2: "?P (snd (seqE (load_unit key j) (for_each us (\<lambda>(key, j). load_unit key j)) ?s0))"
    using 1 loop by (rule after_seqE)
  have 3: "?P (snd (seqE (seqE (load_unit key j) (for_each us (\<lambda>(key, j). load_unit key j)))
                        (import_tail (JObj kvs)) ?s0))"
    using 2 tail by (rule after_seqE)
  show ?thesis
    unfolding load_from_compile_object using assms 3
    by (simp add: getitem_def items_def bindE_liftE_Inr_fun)
qed

lemma legacy_unit_registered:
  assumes "map_of kvs ''compilation_units'' = None"
  shows "''legacy'' \<in> unit_keys (snd (load_from_compile (JObj kvs) s))"
proof -
  from legacy_units_any_outcome [OF assms, of s] obtain u where
    "compilation_units (snd (load_from_compile (JObj kvs) s)) =
       AList.update ''legacy'' u (compilation_units s)" ..
  from unit_keys_update [OF this] show ?thesis by simp
qed

lemma load_from_compile_after_units:
  assumes "read_doc_units (JObj kvs) = Inr xs"
  shows "load_from_compile (JObj kvs) s =
     import_tail (JObj kvs)
       (put_units xs
          (s\<lparr>package_name := (case map_of kvs ''package'' of None \<Rightarrow> JNull | Some v \<Rightarrow> v)\<rparr>))"
proof -
  let ?present = "map_of kvs ''compilation_units'' \<noteq> None"
  from assms have
    "(if \<not> ?present then bindR (read_legacy (JObj kvs)) (\<lambda>x. Inr [(''legacy'', x)])
      else bindR (bindR (getitem (JObj kvs) ''compilation_units'') items) read_units) = Inr xs"
    unfolding read_doc_units_def by (simp add: py_in_def)
  from units_stmt_ok [OF this] show ?thesis
    unfolding load_from_compile_object by (simp add: seqE_def bindE_def)
qed

lemma read_doc_units_working_dir:
  "read_doc_units (JObj ((''working_dir'', v) # kvs)) = read_doc_units (JObj kvs)"
  by (simp add: read_doc_units_def read_legacy_def read_CompilerVersion_def getitem2_def
      py_in_def getitem_def)

lemma missing_working_dir:
  assumes none: "map_of kvs ''working_dir'' = None"
    and ok: "load_from_compile (JObj ((''working_dir'', wd) # kvs)) s = (Inr r, s1)"
  shows "fst (load_from_compile (JObj kvs) s) = Inl (KeyError ''working_dir'') \<and>
         compilation_units (snd (load_from_compile (JObj kvs) s)) = compilation_units s1 \<and>
         dependencies (snd (load_from_compile (JObj kvs) s)) = dependencies s1"
proof -
  from ok obtain p xs wd' t tests where
    x: "read_doc (JObj ((''working_dir'', wd) # kvs)) = Inr (p, xs, wd', t, tests)"
    and s1: "s1 = put_doc (p, xs, wd', t, tests) s"
    unfolding load_from_compile_Inr_iff by (metis prod.collapse)
  from x have xs: "read_doc_units (JObj kvs) = Inr xs"
    unfolding read_doc_def read_doc_units_working_dir by (auto simp add: bindR_eq_Inr)
  have g: "getitem (JObj kvs) ''working_dir'' = Inl (KeyError ''working_dir'')"
    using none by (simp add: getitem_def)
  show ?thesis
    unfolding load_from_compile_after_units [OF xs] s1
    by (simp add: import_tail_def g put_doc_def)
qed

subsection \<open>A missing key as the only defect of a document\<close>

text \<open>
  A dict without the key \<open>k\<close>; a value changed inside the dicts that a path of keys goes
  through; and a document without the key \<open>k\<close> of the dict at the end of a path.
\<close>

definition drop_key :: "string \<Rightarrow> json \<Rightarrow> json" where
  "drop_key k j = (case j of JObj kvs \<Rightarrow> JObj (AList.delete k kvs) | _ \<Rightarrow> j)"

fun inside :: "string list \<Rightarrow> (json \<Rightarrow> json) \<Rightarrow> json \<Rightarrow> json" where
  "inside [] f j = f j"
| "inside (k # ks) f j =
     (case j of JObj kvs \<Rightarrow> JObj (AList.map_entry k (inside ks f) kvs) | _ \<Rightarrow> j)"

definition without :: "string list \<Rightarrow> string \<Rightarrow> json \<Rightarrow> json" where
  "without path k doc = inside path (drop_key k) doc"

text \<open>
  The keys that the import reads with \<^verbatim>\<open>[...]\<close>, each with the path of the dict that holds
  it: in a contract entry, in a unit, and in a document. A unit or a contract entry is
  the one found under its key.
\<close>

definition view_keys :: "string list" where
  "view_keys = [''absolute'', ''relative'', ''short'', ''used'']"

definition unit_keys_read :: "string list" where
  "unit_keys_read = [''compiler'', ''asts'', ''contracts'']"

definition compiler_keys :: "string list" where
  "compiler_keys = [''compiler'', ''version'', ''optimized'']"

definition document_keys :: "string list" where
  "document_keys = [''working_dir'', ''type'']"

definition contract_paths :: "(string list \<times> string) list" where
  "contract_paths =
     map (Pair []) required_contract_keys @ map (Pair [''filenames'']) view_keys"

definition unit_paths :: "json \<Rightarrow> (string list \<times> string) list" where
  "unit_paths j =
     map (Pair []) unit_keys_read @
     map (Pair [''compiler'']) compiler_keys @
     concat (map (\<lambda>n. map (\<lambda>pk. (''contracts'' # n # fst pk, snd pk)) contract_paths)
               (map fst (unit_contracts j)))"

definition required_paths :: "json \<Rightarrow> (string list \<times> string) list" where
  "required_paths doc =
     map (Pair []) document_keys @
     (if py_in ''compilation_units'' doc = Inr True
      then concat (map (\<lambda>key. case getitem2 doc ''compilation_units'' key of
                                Inr j \<Rightarrow> map (\<lambda>pk. (''compilation_units'' # key # fst pk, snd pk))
                                           (unit_paths j)
                              | Inl e \<Rightarrow> [])
                     (map fst (doc_units doc)))
      else unit_paths doc)"

lemma drop_key_object [simp]: "drop_key k (JObj kvs) = JObj (AList.delete k kvs)"
  by (simp add: drop_key_def)

lemma getitem_drop_key:
  "getitem (JObj (AList.delete k kvs)) k' =
     (if k' = k then Inl (KeyError k) else getitem (JObj kvs) k')"
  by (simp add: getitem_def AList.delete_conv')

lemma getitem_map_entry:
  "getitem (JObj (AList.map_entry k f kvs)) k' =
     (if k' = k then (case getitem (JObj kvs) k of Inl e \<Rightarrow> Inl e | Inr v \<Rightarrow> Inr (f v))
      else getitem (JObj kvs) k')"
  by (simp add: getitem_def map_of_map_entry split: option.splits)

lemma get_default_drop_key:
  "k' \<noteq> k \<Longrightarrow> get_default (JObj (AList.delete k kvs)) k' d = get_default (JObj kvs) k' d"
  by (simp add: get_default_def AList.delete_conv')

lemma get_default_map_entry:
  "k' \<noteq> k \<Longrightarrow> get_default (JObj (AList.map_entry k f kvs)) k' d = get_default (JObj kvs) k' d"
  by (simp add: get_default_def map_of_map_entry)

lemma py_in_drop_key:
  "k' \<noteq> k \<Longrightarrow> py_in k' (JObj (AList.delete k kvs)) = py_in k' (JObj kvs)"
  by (simp add: py_in_def AList.delete_conv')

lemma py_in_map_entry:
  "k' \<noteq> k \<Longrightarrow> py_in k' (JObj (AList.map_entry k f kvs)) = py_in k' (JObj kvs)"
  by (simp add: py_in_def map_of_map_entry)

lemma getitem_Inr_object:
  "getitem j k = Inr v \<Longrightarrow> \<exists>kvs. j = JObj kvs \<and> map_of kvs k = Some v"
  by (cases j) (auto simp add: getitem_def split: option.splits)

subsubsection \<open>In a contract entry\<close>

lemma read_Filename_drop_key:
  "k \<noteq> ''filenames'' \<Longrightarrow>
   read_Filename (JObj (AList.delete k kvs)) = read_Filename (JObj kvs)"
  by (simp add: read_Filename_def getitem2_def getitem_drop_key)

lemma read_Natspec_drop_key:
  "k \<noteq> ''userdoc'' \<Longrightarrow> k \<noteq> ''devdoc'' \<Longrightarrow>
   read_Natspec (JObj (AList.delete k kvs)) = read_Natspec (JObj kvs)"
  by (simp add: read_Natspec_def get_default_drop_key)

lemma inside_Nil [simp]: "inside [] f = f"
  by (simp add: fun_eq_iff)

lemma read_contract_drop_key:
  assumes "read_contract (JObj kvs) = Inr p" and "k \<in> set required_contract_keys"
  shows "read_contract (JObj (AList.delete k kvs)) = Inl (KeyError k)"
proof -
  from assms(1) obtain fn a b br sm smr l ns dep where r:
    "read_Filename (JObj kvs) = Inr fn" "getitem (JObj kvs) ''abi'' = Inr a"
    "getitem (JObj kvs) ''bin'' = Inr b" "getitem (JObj kvs) ''bin-runtime'' = Inr br"
    "bindR (getitem (JObj kvs) ''srcmap'') split_semicolon = Inr sm"
    "bindR (getitem (JObj kvs) ''srcmap-runtime'') split_semicolon = Inr smr"
    "getitem (JObj kvs) ''libraries'' = Inr l" "read_Natspec (JObj kvs) = Inr ns"
    by (rule read_contract_InrE)
  have f: "read_Filename (JObj (AList.delete ''filenames'' kvs)) = Inl (KeyError ''filenames'')"
    by (simp add: read_Filename_def getitem2_def getitem_drop_key)
  have "\<forall>k \<in> set required_contract_keys.
      read_contract (JObj (AList.delete k kvs)) = Inl (KeyError k)"
    unfolding required_contract_keys_def read_contract_def
    by (simp add: f read_Filename_drop_key read_Natspec_drop_key getitem_drop_key r)
  with assms(2) show ?thesis by blast
qed

lemma read_contract_drop_view:
  assumes "read_contract (JObj kvs) = Inr p" and "k \<in> set view_keys"
  shows "read_contract (JObj (AList.map_entry ''filenames'' (drop_key k) kvs)) = Inl (KeyError k)"
proof -
  from assms(1) obtain fn where "read_Filename (JObj kvs) = Inr fn"
    by (rule read_contract_InrE)
  then obtain v1 v2 v3 v4 where v:
    "getitem2 (JObj kvs) ''filenames'' ''absolute'' = Inr v1"
    "getitem2 (JObj kvs) ''filenames'' ''relative'' = Inr v2"
    "getitem2 (JObj kvs) ''filenames'' ''short'' = Inr v3"
    "getitem2 (JObj kvs) ''filenames'' ''used'' = Inr v4"
    unfolding read_Filename_def by (auto simp add: bindR_eq_Inr)
  from v(1) obtain f where f: "getitem (JObj kvs) ''filenames'' = Inr f"
    and "getitem f ''absolute'' = Inr v1"
    unfolding getitem2_def by (auto simp add: bindR_eq_Inr)
  then obtain fkvs where fk: "f = JObj fkvs"
    by (auto dest: getitem_Inr_object)
  from v f have g:
    "getitem (JObj fkvs) ''absolute'' = Inr v1" "getitem (JObj fkvs) ''relative'' = Inr v2"
    "getitem (JObj fkvs) ''short'' = Inr v3" "getitem (JObj fkvs) ''used'' = Inr v4"
    unfolding getitem2_def fk by simp_all
  have "\<forall>k \<in> set view_keys.
      read_Filename (JObj (AList.map_entry ''filenames'' (drop_key k) kvs)) = Inl (KeyError k)"
    unfolding view_keys_def
    by (simp add: read_Filename_def getitem2_def getitem_map_entry f fk getitem_drop_key g)
  with assms(2) have
    "read_Filename (JObj (AList.map_entry ''filenames'' (drop_key k) kvs)) = Inl (KeyError k)"
    by blast
  then show ?thesis
    unfolding read_contract_def by simp
qed

lemma contract_paths_iff:
  "(path, k) \<in> set contract_paths \<longleftrightarrow>
     path = [] \<and> k \<in> set required_contract_keys \<or>
     path = [''filenames''] \<and> k \<in> set view_keys"
  by (auto simp add: contract_paths_def)

lemma contract_without_key:
  assumes "read_contract c = Inr p" and "(path, k) \<in> set contract_paths"
  shows "read_contract (without path k c) = Inl (KeyError k)"
proof -
  from assms(1) obtain a where "getitem c ''abi'' = Inr a"
    by (rule read_contract_InrE)
  then obtain kvs where c: "c = JObj kvs"
    by (auto dest: getitem_Inr_object)
  from assms(2) consider "path = []" "k \<in> set required_contract_keys"
    | "path = [''filenames'']" "k \<in> set view_keys"
    unfolding contract_paths_iff by blast
  then show ?thesis
  proof cases
    case 1
    with read_contract_drop_key [OF assms(1) [unfolded c]] show ?thesis
      by (simp add: without_def c)
  next
    case 2
    with read_contract_drop_view [OF assms(1) [unfolded c]] show ?thesis
      by (simp add: without_def c)
  qed
qed

subsubsection \<open>In a unit\<close>

lemma map_result_map_entry:
  assumes "map_result (\<lambda>(n, c). bindR (g c) (\<lambda>p. Inr (n, p))) cs = Inr ps"
    and "map_of cs n = Some c" and "g (f c) = Inl e"
  shows "map_result (\<lambda>(n, c). bindR (g c) (\<lambda>p. Inr (n, p))) (AList.map_entry n f cs) = Inl e"
  using assms(1,2)
proof (induction cs arbitrary: ps)
  case Nil
  then show ?case by simp
next
  case (Cons x cs)
  obtain m c0 where x: "x = (m, c0)" by (cases x)
  from Cons.prems(1) obtain q qs where q: "g c0 = Inr q"
    and qs: "map_result (\<lambda>(n, c). bindR (g c) (\<lambda>p. Inr (n, p))) cs = Inr qs"
    unfolding x by (auto simp add: bindR_eq_Inr)
  show ?case
  proof (cases "m = n")
    case True
    with Cons.prems(2) have "c0 = c" by (simp add: x)
    with True assms(3) show ?thesis by (simp add: x)
  next
    case False
    with Cons.prems(2) have "map_of cs n = Some c" by (simp add: x)
    from Cons.IH [OF qs this] False show ?thesis by (simp add: x q)
  qed
qed

lemma map_result_entry_ok:
  assumes "map_result (\<lambda>(n, c). bindR (g c) (\<lambda>p. Inr (n, p))) cs = Inr ps"
    and "map_of cs n = Some c"
  shows "\<exists>p. g c = Inr p"
proof -
  from assms(2) have "(n, c) \<in> set cs" by (rule map_of_SomeD)
  from list_all2_in_left [OF map_result_list_all2 [OF assms(1)] this]
  show ?thesis by (auto simp add: bindR_eq_Inr)
qed

lemma key_found: "n \<in> set (map fst cs) \<Longrightarrow> \<exists>c. map_of cs n = Some c"
  by (cases "map_of cs n") (auto simp add: map_of_eq_None_iff)

lemma read_CompilerVersion_drop_key:
  "k \<noteq> ''compiler'' \<Longrightarrow>
   read_CompilerVersion (JObj (AList.delete k kvs)) = read_CompilerVersion (JObj kvs)"
  by (simp add: read_CompilerVersion_def getitem2_def getitem_drop_key)

lemma read_CompilerVersion_map_entry:
  "k \<noteq> ''compiler'' \<Longrightarrow>
   read_CompilerVersion (JObj (AList.map_entry k f kvs)) = read_CompilerVersion (JObj kvs)"
  by (simp add: read_CompilerVersion_def getitem2_def getitem_map_entry)

lemma unit_paths_set:
  "set (unit_paths j) =
     Pair [] ` set unit_keys_read \<union> Pair [''compiler''] ` set compiler_keys \<union>
     (\<Union>n \<in> set (map fst (unit_contracts j)).
        (\<lambda>pk. (''contracts'' # n # fst pk, snd pk)) ` set contract_paths)"
  unfolding unit_paths_def by (simp only: set_append set_map set_concat image_image) (simp add: Un_assoc)

lemma unit_paths_cases:
  assumes "(path, k) \<in> set (unit_paths j)"
  shows "path = [] \<and> k \<in> set unit_keys_read \<or>
     path = [''compiler''] \<and> k \<in> set compiler_keys \<or>
     (\<exists>n p. path = ''contracts'' # n # p \<and> n \<in> set (map fst (unit_contracts j)) \<and>
            (p, k) \<in> set contract_paths)"
proof -
  let ?C = "\<Union>n \<in> set (map fst (unit_contracts j)).
        (\<lambda>pk. (''contracts'' # n # fst pk, snd pk)) ` set contract_paths"
  from assms have "(path, k) \<in> Pair [] ` set unit_keys_read \<or>
      (path, k) \<in> Pair [''compiler''] ` set compiler_keys \<or> (path, k) \<in> ?C"
    unfolding unit_paths_set Un_iff by (simp only: disj_assoc)
  then consider (top) "(path, k) \<in> Pair [] ` set unit_keys_read"
    | (compiler) "(path, k) \<in> Pair [''compiler''] ` set compiler_keys"
    | (contract) "(path, k) \<in> ?C"
    by (elim disjE)
  then show ?thesis
  proof cases
    case top
    then obtain x where "(path, k) = ([], x)" "x \<in> set unit_keys_read"
      by (rule imageE)
    then have "path = [] \<and> k \<in> set unit_keys_read" by simp
    then show ?thesis by (rule disjI1)
  next
    case compiler
    then obtain x where "(path, k) = ([''compiler''], x)" "x \<in> set compiler_keys"
      by (rule imageE)
    then have "path = [''compiler''] \<and> k \<in> set compiler_keys" by simp
    then show ?thesis by (intro disjI2 disjI1)
  next
    case contract
    then obtain n where n: "n \<in> set (map fst (unit_contracts j))"
      and m: "(path, k) \<in> (\<lambda>pk. (''contracts'' # n # fst pk, snd pk)) ` set contract_paths"
      by (rule UN_E)
    from m obtain pk where e: "(path, k) = (''contracts'' # n # fst pk, snd pk)"
      and pk: "pk \<in> set contract_paths"
      by (rule imageE)
    from e have "path = ''contracts'' # n # fst pk" "k = snd pk" by simp_all
    moreover from pk have "(fst pk, snd pk) \<in> set contract_paths" by simp
    ultimately have "path = ''contracts'' # n # fst pk \<and> n \<in> set (map fst (unit_contracts j)) \<and>
        (fst pk, k) \<in> set contract_paths"
      using n by simp
    then have "\<exists>n p. path = ''contracts'' # n # p \<and> n \<in> set (map fst (unit_contracts j)) \<and>
            (p, k) \<in> set contract_paths"
      by (intro exI)
    then show ?thesis by (intro disjI2)
  qed
qed

lemma unit_without_key:
  assumes "read_unit (JObj kvs) = Inr x" and "(path, k) \<in> set (unit_paths (JObj kvs))"
  shows "read_unit (without path k (JObj kvs)) = Inl (KeyError k)"
    and "read_legacy (without path k (JObj kvs)) = Inl (KeyError k)"
proof -
  obtain cv ps a where x: "x = (cv, ps, a)" by (cases x)
  from assms(1) obtain cs where cvr: "read_CompilerVersion (JObj kvs) = Inr cv"
    and csr: "getitem (JObj kvs) ''contracts'' = Inr (JObj cs)"
    and psr: "read_contracts cs = Inr ps" and ar: "getitem (JObj kvs) ''asts'' = Inr a"
    unfolding x by (rule read_unit_InrE)
  from cvr obtain v1 v2 v3 where v:
    "getitem2 (JObj kvs) ''compiler'' ''compiler'' = Inr v1"
    "getitem2 (JObj kvs) ''compiler'' ''version'' = Inr v2"
    "getitem2 (JObj kvs) ''compiler'' ''optimized'' = Inr v3"
    unfolding read_CompilerVersion_def by (auto simp add: bindR_eq_Inr)
  from v(1) obtain cj where cj: "getitem (JObj kvs) ''compiler'' = Inr cj"
    and "getitem cj ''compiler'' = Inr v1"
    unfolding getitem2_def by (auto simp add: bindR_eq_Inr)
  then obtain ckvs where ck: "cj = JObj ckvs"
    by (auto dest: getitem_Inr_object)
  from v cj have g:
    "getitem (JObj ckvs) ''compiler'' = Inr v1" "getitem (JObj ckvs) ''version'' = Inr v2"
    "getitem (JObj ckvs) ''optimized'' = Inr v3"
    unfolding getitem2_def ck by simp_all
  have top1: "read_unit (JObj (AList.delete ''compiler'' kvs)) = Inl (KeyError ''compiler'')"
    "read_legacy (JObj (AList.delete ''compiler'' kvs)) = Inl (KeyError ''compiler'')"
    unfolding read_unit_def read_legacy_def
    by (simp_all add: read_CompilerVersion_def getitem2_def getitem_drop_key ar)
  have top2: "read_unit (JObj (AList.delete ''asts'' kvs)) = Inl (KeyError ''asts'')"
    "read_legacy (JObj (AList.delete ''asts'' kvs)) = Inl (KeyError ''asts'')"
    unfolding read_unit_def read_legacy_def
    by (simp_all add: read_CompilerVersion_drop_key getitem_drop_key cvr csr psr items_def)
  have top3: "read_unit (JObj (AList.delete ''contracts'' kvs)) = Inl (KeyError ''contracts'')"
    "read_legacy (JObj (AList.delete ''contracts'' kvs)) = Inl (KeyError ''contracts'')"
    unfolding read_unit_def read_legacy_def
    by (simp_all add: read_CompilerVersion_drop_key getitem_drop_key cvr ar)
  have top: "\<forall>k \<in> set unit_keys_read.
      read_unit (JObj (AList.delete k kvs)) = Inl (KeyError k) \<and>
      read_legacy (JObj (AList.delete k kvs)) = Inl (KeyError k)"
    unfolding unit_keys_read_def by (simp add: top1 top2 top3)
  have cvs: "\<forall>k \<in> set compiler_keys.
      read_CompilerVersion (JObj (AList.map_entry ''compiler'' (drop_key k) kvs)) = Inl (KeyError k)"
    unfolding compiler_keys_def
    by (simp add: read_CompilerVersion_def getitem2_def getitem_map_entry cj ck getitem_drop_key g)
  from assms(2) consider "path = []" "k \<in> set unit_keys_read"
    | "path = [''compiler'']" "k \<in> set compiler_keys"
    | n p where "path = ''contracts'' # n # p" "n \<in> set (map fst (unit_contracts (JObj kvs)))"
        "(p, k) \<in> set contract_paths"
    using unit_paths_cases [OF assms(2)] by blast
  then have "read_unit (without path k (JObj kvs)) = Inl (KeyError k) \<and>
             read_legacy (without path k (JObj kvs)) = Inl (KeyError k)"
  proof cases
    case 1
    with top show ?thesis by (simp add: without_def)
  next
    case 2
    with cvs have "read_CompilerVersion (without path k (JObj kvs)) = Inl (KeyError k)"
      by (simp add: without_def)
    moreover have "getitem (without path k (JObj kvs)) ''asts'' = Inr a"
      using 2 by (simp add: without_def getitem_map_entry ar)
    ultimately show ?thesis
      by (simp add: read_unit_def read_legacy_def)
  next
    case 3
    from 3(2) csr have "n \<in> set (map fst cs)"
      by (simp add: unit_contracts_def)
    from key_found [OF this] obtain c where c: "map_of cs n = Some c" ..
    from map_result_entry_ok [OF psr [unfolded read_contracts_def] c]
    obtain q where "read_contract c = Inr q" ..
    from contract_without_key [OF this 3(3)]
    have "read_contract (inside p (drop_key k) c) = Inl (KeyError k)"
      by (simp add: without_def)
    from map_result_map_entry
      [where g = read_contract and f = "inside p (drop_key k)",
        OF psr [unfolded read_contracts_def] c this]
    have "read_contracts (AList.map_entry n (inside p (drop_key k)) cs) = Inl (KeyError k)"
      by (simp add: read_contracts_def)
    then have "bindR (bindR (getitem (without path k (JObj kvs)) ''contracts'') items)
        read_contracts = Inl (KeyError k)"
      using 3(1) by (simp add: without_def getitem_map_entry csr items_def)
    moreover have "read_CompilerVersion (without path k (JObj kvs)) = Inr cv"
      using 3(1) by (simp add: without_def read_CompilerVersion_map_entry cvr)
    moreover have "getitem (without path k (JObj kvs)) ''asts'' = Inr a"
      using 3(1) by (simp add: without_def getitem_map_entry ar)
    ultimately show ?thesis
      by (simp add: read_unit_def read_legacy_def)
  qed
  then show "read_unit (without path k (JObj kvs)) = Inl (KeyError k)"
    and "read_legacy (without path k (JObj kvs)) = Inl (KeyError k)"
    by simp_all
qed

lemma unit_path_other_keys:
  assumes "(path, k) \<in> set (unit_paths j)"
    and "k' \<notin> set unit_keys_read"
  shows "\<exists>kvs'. without path k (JObj kvs) = JObj kvs' \<and> map_of kvs' k' = map_of kvs k'"
proof -
  from assms(1) consider "path = []" "k \<in> set unit_keys_read"
    | "path = [''compiler'']"
    | n p where "path = ''contracts'' # n # p"
    using unit_paths_cases [OF assms(1)] by blast
  then show ?thesis
  proof cases
    case 1
    with assms(2) have "k' \<noteq> k" by auto
    with 1 show ?thesis by (simp add: without_def AList.delete_conv')
  next
    case 2
    from assms(2) have "k' \<noteq> ''compiler''" by (auto simp add: unit_keys_read_def)
    with 2 show ?thesis by (simp add: without_def map_of_map_entry)
  next
    case 3
    from assms(2) have "k' \<noteq> ''contracts''" by (auto simp add: unit_keys_read_def)
    with 3 show ?thesis by (simp add: without_def map_of_map_entry)
  qed
qed

subsubsection \<open>In a document\<close>

lemma read_doc_units_drop_key:
  assumes "k \<in> set document_keys"
  shows "read_doc_units (JObj (AList.delete k kvs)) = read_doc_units (JObj kvs)"
proof -
  from assms have k: "k \<noteq> ''compilation_units''" "k \<noteq> ''asts''" "k \<noteq> ''compiler''"
    "k \<noteq> ''contracts''"
    by (auto simp add: document_keys_def)
  then have e: "read_legacy (JObj (AList.delete k kvs)) = read_legacy (JObj kvs)"
    "getitem (JObj (AList.delete k kvs)) ''compilation_units'' =
       getitem (JObj kvs) ''compilation_units''"
    "py_in ''compilation_units'' (JObj (AList.delete k kvs)) =
       py_in ''compilation_units'' (JObj kvs)"
    by (simp_all add: read_legacy_def read_CompilerVersion_drop_key getitem_drop_key py_in_drop_key)
  show ?thesis
    unfolding read_doc_units_def e ..
qed

lemma required_paths_cases:
  assumes "(path, k) \<in> set (required_paths doc)"
  shows "path = [] \<and> k \<in> set document_keys \<or>
     py_in ''compilation_units'' doc = Inr True \<and>
       (\<exists>key j p. path = ''compilation_units'' # key # p \<and>
                  getitem2 doc ''compilation_units'' key = Inr j \<and> (p, k) \<in> set (unit_paths j)) \<or>
     py_in ''compilation_units'' doc \<noteq> Inr True \<and> (path, k) \<in> set (unit_paths doc)"
proof -
  let ?f = "\<lambda>key. case getitem2 doc ''compilation_units'' key of
                    Inr j \<Rightarrow> map (\<lambda>pk. (''compilation_units'' # key # fst pk, snd pk)) (unit_paths j)
                  | Inl e \<Rightarrow> []"
  have "(path, k) \<in> Pair [] ` set document_keys \<or>
      py_in ''compilation_units'' doc = Inr True \<and>
        (path, k) \<in> set (concat (map ?f (map fst (doc_units doc)))) \<or>
      py_in ''compilation_units'' doc \<noteq> Inr True \<and> (path, k) \<in> set (unit_paths doc)"
  proof (cases "py_in ''compilation_units'' doc = Inr True")
    case True
    from assms have "(path, k) \<in> Pair [] ` set document_keys \<or>
        (path, k) \<in> set (concat (map ?f (map fst (doc_units doc))))"
      unfolding required_paths_def if_P [OF True] by (simp only: set_append set_map Un_iff)
    with True show ?thesis by blast
  next
    case False
    from assms have "(path, k) \<in> Pair [] ` set document_keys \<or> (path, k) \<in> set (unit_paths doc)"
      unfolding required_paths_def if_not_P [OF False] by (simp only: set_append set_map Un_iff)
    with False show ?thesis by blast
  qed
  then consider (top) "(path, k) \<in> Pair [] ` set document_keys"
    | (current) "py_in ''compilation_units'' doc = Inr True"
        "(path, k) \<in> set (concat (map ?f (map fst (doc_units doc))))"
    | (legacy) "py_in ''compilation_units'' doc \<noteq> Inr True" "(path, k) \<in> set (unit_paths doc)"
    by (elim disjE conjE)
  then show ?thesis
  proof cases
    case top
    then obtain x where "(path, k) = ([], x)" "x \<in> set document_keys"
      by (rule imageE)
    then have "path = [] \<and> k \<in> set document_keys" by simp
    then show ?thesis by (rule disjI1)
  next
    case legacy
    then show ?thesis by (intro disjI2 conjI)
  next
    case current
    from current(2) obtain key where m: "(path, k) \<in> set (?f key)"
      unfolding set_concat set_map by (elim UN_E imageE) simp
    then obtain j where j: "getitem2 doc ''compilation_units'' key = Inr j"
      by (cases "getitem2 doc ''compilation_units'' key") simp_all
    from m have "(path, k) \<in> (\<lambda>pk. (''compilation_units'' # key # fst pk, snd pk)) ` set (unit_paths j)"
      unfolding j by (simp only: sum.case set_map)
    then obtain pk where e: "(path, k) = (''compilation_units'' # key # fst pk, snd pk)"
      and pk: "pk \<in> set (unit_paths j)"
      by (rule imageE)
    from e have "path = ''compilation_units'' # key # fst pk" "k = snd pk" by simp_all
    moreover from pk have "(fst pk, snd pk) \<in> set (unit_paths j)" by simp
    ultimately have "path = ''compilation_units'' # key # fst pk \<and>
        getitem2 doc ''compilation_units'' key = Inr j \<and> (fst pk, k) \<in> set (unit_paths j)"
      using j by simp
    then have "\<exists>key j p. path = ''compilation_units'' # key # p \<and>
                  getitem2 doc ''compilation_units'' key = Inr j \<and> (p, k) \<in> set (unit_paths j)"
      by (intro exI)
    with current(1) show ?thesis by (intro disjI2 disjI1 conjI)
  qed
qed

lemma document_without_key:
  assumes "read_doc doc = Inr x" and "(path, k) \<in> set (required_paths doc)"
  shows "read_doc (without path k doc) = Inl (KeyError k)"
proof -
  from assms(1) obtain pk xs wd t where pkr: "get_default doc ''package'' JNull = Inr pk"
    and xsr: "read_doc_units doc = Inr xs"
    and wdr: "getitem doc ''working_dir'' = Inr wd" and tr: "getitem doc ''type'' = Inr t"
    unfolding read_doc_def by (auto simp add: bindR_eq_Inr)
  from wdr obtain kvs where doc: "doc = JObj kvs"
    by (auto dest: getitem_Inr_object)
  from assms(2) consider "path = []" "k \<in> set document_keys"
    | key j p where "py_in ''compilation_units'' doc = Inr True"
        "path = ''compilation_units'' # key # p"
        "getitem2 doc ''compilation_units'' key = Inr j" "(p, k) \<in> set (unit_paths j)"
    | "py_in ''compilation_units'' doc \<noteq> Inr True" "(path, k) \<in> set (unit_paths doc)"
    using required_paths_cases [OF assms(2)] by blast
  then show ?thesis
  proof cases
    case 1
    have w: "read_doc (JObj (AList.delete ''working_dir'' kvs)) = Inl (KeyError ''working_dir'')"
      unfolding read_doc_def
      by (simp add: read_doc_units_drop_key document_keys_def get_default_drop_key getitem_drop_key
          pkr [unfolded doc] xsr [unfolded doc])
    have t: "read_doc (JObj (AList.delete ''type'' kvs)) = Inl (KeyError ''type'')"
      unfolding read_doc_def
      by (simp add: read_doc_units_drop_key document_keys_def get_default_drop_key getitem_drop_key
          pkr [unfolded doc] xsr [unfolded doc] wdr [unfolded doc])
    from 1(2) have "k = ''working_dir'' \<or> k = ''type''"
      by (simp add: document_keys_def)
    with w t 1(1) show ?thesis
      by (auto simp add: without_def doc)
  next
    case 2
    from 2(1) obtain us where us: "getitem doc ''compilation_units'' = Inr (JObj us)"
      and usr: "read_units us = Inr xs"
      using xsr unfolding read_doc_units_def by (auto simp add: bindR_eq_Inr)
    from 2(3) us have j: "map_of us key = Some j"
      by (simp add: getitem2_def getitem_def split: option.splits)
    from j obtain kvs' where j': "j = JObj kvs'"
      using map_result_entry_ok [OF usr [unfolded read_units_def] j]
      by (auto simp add: read_unit_def read_CompilerVersion_def getitem2_def bindR_eq_Inr
          dest: getitem_Inr_object)
    from map_result_entry_ok [OF usr [unfolded read_units_def] j]
    obtain y where "read_unit j = Inr y" ..
    from unit_without_key(1) [OF this [unfolded j'] 2(4) [unfolded j']]
    have "read_unit (inside p (drop_key k) j) = Inl (KeyError k)"
      by (simp add: without_def j')
    from map_result_map_entry
      [where g = read_unit and f = "inside p (drop_key k)",
        OF usr [unfolded read_units_def] j this]
    have "read_units (AList.map_entry key (inside p (drop_key k)) us) = Inl (KeyError k)"
      by (simp add: read_units_def)
    moreover from us have m: "map_of kvs ''compilation_units'' = Some (JObj us)"
      unfolding doc by (simp add: getitem_def split: option.splits)
    ultimately have "read_doc_units (without path k doc) = Inl (KeyError k)"
      using 2(2) unfolding doc read_doc_units_def
      by (simp add: without_def getitem_def py_in_def map_of_map_entry items_def)
    moreover have "get_default (without path k doc) ''package'' JNull = Inr pk"
      using 2(2) pkr unfolding doc by (simp add: without_def get_default_map_entry)
    ultimately show ?thesis
      by (simp add: read_doc_def)
  next
    case 3
    from 3(1) have legacy: "py_in ''compilation_units'' doc = Inr False"
      unfolding doc by (simp add: py_in_def)
    with xsr obtain y where "read_legacy doc = Inr y"
      unfolding read_doc_units_def by (auto simp add: bindR_eq_Inr)
    then have "read_unit doc = Inr y"
      by (simp add: read_legacy_iff_read_unit)
    from unit_without_key(2) [OF this [unfolded doc] 3(2) [unfolded doc]]
    have l: "read_legacy (without path k doc) = Inl (KeyError k)"
      by (simp add: doc)
    have "''compilation_units'' \<notin> set unit_keys_read" "''package'' \<notin> set unit_keys_read"
      by (simp_all add: unit_keys_read_def)
    from unit_path_other_keys [OF 3(2) this(1), of kvs] unit_path_other_keys [OF 3(2) this(2), of kvs]
    obtain kvs' where w: "without path k doc = JObj kvs'"
      and "map_of kvs' ''compilation_units'' = map_of kvs ''compilation_units''"
      and "map_of kvs' ''package'' = map_of kvs ''package''"
      unfolding doc by auto
    with legacy pkr have "py_in ''compilation_units'' (without path k doc) = Inr False"
      and "get_default (without path k doc) ''package'' JNull = Inr pk"
      unfolding doc by (simp_all add: py_in_def get_default_def)
    with l show ?thesis
      by (simp add: read_doc_def read_doc_units_def)
  qed
qed

lemma import_without_key:
  assumes "fst (load_from_compile doc s) = Inr r" and "(path, k) \<in> set (required_paths doc)"
  shows "fst (load_from_compile (without path k doc) s') = Inl (KeyError k)"
proof -
  from assms(1) obtain x where "read_doc doc = Inr x"
    unfolding load_from_compile_fst by (auto split: sum.splits)
  from document_without_key [OF this assms(2)] show ?thesis
    by (simp add: load_from_compile_fst)
qed

subsection \<open>The malformed-artifact claim\<close>

text \<open>
  A current-schema document whose only contract entry lacks \<^verbatim>\<open>filenames.absolute\<close> (the
  document of the spec's malformed-artifact property), and one whose only contract entry
  lacks \<^verbatim>\<open>is_dependency\<close> and has \<^verbatim>\<open>null\<close> as its \<^verbatim>\<open>srcmap\<close>.
\<close>

definition malformed_document :: json where
  "malformed_document =
     JObj [(''compilation_units'',
              JObj [(''proj'',
                 JObj [(''compiler'', example_compiler), (''asts'', JObj []),
                       (''contracts'',
                          JObj [(''Dep'',
                             JObj [(''abi'', JArr []), (''bin'', JStr ''6080''),
                                   (''bin-runtime'', JStr ''6040''),
                                   (''srcmap'', JStr ''0:10:0''), (''srcmap-runtime'', JStr ''0:10:0''),
                                   (''filenames'',
                                      JObj [(''used'', JStr ''Dep.sol''), (''short'', JStr ''Dep.sol''),
                                            (''relative'', JStr ''lib/Dep.sol'')]),
                                   (''libraries'', JObj []), (''is_dependency'', JBool True)])])])]),
           (''package'', JNull), (''working_dir'', JStr ''/a''), (''type'', JInt 4)]"

definition null_srcmap_document :: json where
  "null_srcmap_document =
     JObj [(''compilation_units'',
              JObj [(''proj'',
                 JObj [(''compiler'', example_compiler), (''asts'', JObj []),
                       (''contracts'',
                          JObj [(''Dep'',
                             JObj [(''abi'', JArr []), (''bin'', JStr ''6080''),
                                   (''bin-runtime'', JStr ''6040''),
                                   (''srcmap'', JNull), (''srcmap-runtime'', JStr ''0:10:0''),
                                   (''filenames'',
                                      JObj [(''absolute'', JStr ''/a/Dep.sol''),
                                            (''used'', JStr ''Dep.sol''), (''short'', JStr ''Dep.sol''),
                                            (''relative'', JStr ''lib/Dep.sol'')]),
                                   (''libraries'', JObj [])])])])]),
           (''package'', JNull), (''working_dir'', JStr ''/a''), (''type'', JInt 4)]"

lemma malformed_document_lacks_key: "\<not> has_required_keys malformed_document"
  by (simp add: has_required_keys_def unit_has_keys_def contract_has_keys_def has_keys_under_def
      has_key_def doc_units_def unit_contracts_def required_contract_keys_def py_in_def
      getitem_def malformed_document_def example_compiler_def)

lemma null_srcmap_document_lacks_key: "\<not> has_required_keys null_srcmap_document"
  by (simp add: has_required_keys_def unit_has_keys_def contract_has_keys_def has_keys_under_def
      has_key_def doc_units_def unit_contracts_def required_contract_keys_def py_in_def
      getitem_def null_srcmap_document_def example_compiler_def)

text \<open>
  Claim C4, as stated, fails on the code: the import of the first document raises the
  \<^verbatim>\<open>KeyError\<close> of the failing subscript (the sources define no \<^verbatim>\<open>MalformedArtifactError\<close>; the
  exception carries the missing key \<^verbatim>\<open>absolute\<close>, not the unit or the contract), and the
  unit \<^verbatim>\<open>proj\<close>, constructed before the failure, stays registered in the session with the
  contract name it had already received. The exception is not even always a \<^verbatim>\<open>KeyError\<close>:
  the import of the second document, which lacks \<^verbatim>\<open>is_dependency\<close>, raises the
  AttributeError of \<^verbatim>\<open>None.split\<close>, because the source map is read before the flag.
\<close>

theorem malformed_document_counterexample:
  "\<not> has_required_keys malformed_document \<and>
   fst (load_from_compile malformed_document example_session) = Inl (KeyError ''absolute'') \<and>
   map fst (compilation_units (snd (load_from_compile malformed_document example_session))) =
     [''proj''] \<and>
   map (\<lambda>ku. contracts_names (snd ku))
     (compilation_units (snd (load_from_compile malformed_document example_session))) = [[''Dep'']] \<and>
   \<not> has_required_keys null_srcmap_document \<and>
   fst (load_from_compile null_srcmap_document example_session) = Inl AttributeError \<and>
   map fst (compilation_units (snd (load_from_compile null_srcmap_document example_session))) =
     [''proj'']"
proof -
  have "fst (load_from_compile malformed_document example_session) = Inl (KeyError ''absolute'')"
    by (simp add: malformed_document_def example_defs import_defs)
  moreover have
    "map fst (compilation_units (snd (load_from_compile malformed_document example_session))) =
       [''proj'']"
    by (simp add: malformed_document_def example_defs import_defs)
  moreover have "map (\<lambda>ku. contracts_names (snd ku))
     (compilation_units (snd (load_from_compile malformed_document example_session))) = [[''Dep'']]"
    by (simp add: malformed_document_def example_defs import_defs)
  moreover have
    "fst (load_from_compile null_srcmap_document example_session) = Inl AttributeError"
    by (simp add: null_srcmap_document_def example_defs import_defs)
  moreover have
    "map fst (compilation_units (snd (load_from_compile null_srcmap_document example_session))) =
       [''proj'']"
    by (simp add: null_srcmap_document_def example_defs import_defs)
  ultimately show ?thesis
    using malformed_document_lacks_key null_srcmap_document_lacks_key by blast
qed

text \<open>
  Claim C4, amended. A document in which a unit or a contract entry lacks a required key
  makes the import raise an exception. When the missing key is the only defect, that is,
  the document is one that imports, without one of the keys that the import reads with
  \<^verbatim>\<open>[...]\<close> (\<open>required_paths\<close>: \<^verbatim>\<open>working_dir\<close>, \<^verbatim>\<open>type\<close>, a unit's \<^verbatim>\<open>compiler\<close>, \<^verbatim>\<open>asts\<close>,
  \<^verbatim>\<open>contracts\<close>, the compiler's \<^verbatim>\<open>compiler\<close>, \<^verbatim>\<open>version\<close>, \<^verbatim>\<open>optimized\<close>, a contract's
  \<^verbatim>\<open>filenames\<close>, \<^verbatim>\<open>abi\<close>, \<^verbatim>\<open>bin\<close>, \<^verbatim>\<open>bin-runtime\<close>, \<^verbatim>\<open>srcmap\<close>, \<^verbatim>\<open>srcmap-runtime\<close>,
  \<^verbatim>\<open>libraries\<close>, \<^verbatim>\<open>is_dependency\<close>, and the four views under \<^verbatim>\<open>filenames\<close>), the exception
  is the \<^verbatim>\<open>KeyError\<close> that carries the name of the missing key. The session is
  mutated in place and nothing is discarded: a document that imports with its
  \<^verbatim>\<open>working_dir\<close> raises \<^verbatim>\<open>KeyError('working_dir')\<close> without it and leaves the session with
  the same units and dependencies as the successful import; whatever the outcome, the unit
  keyed \<^verbatim>\<open>legacy\<close> of a legacy document and the first unit of a current-schema document
  are registered in the session.
\<close>

theorem malformed_document_import:
  "(\<not> has_required_keys doc \<longrightarrow> (\<exists>e. fst (load_from_compile doc s) = Inl e)) \<and>
   (fst (load_from_compile doc s) = Inr r0 \<and> (path, k) \<in> set (required_paths doc) \<longrightarrow>
      fst (load_from_compile (without path k doc) s) = Inl (KeyError k)) \<and>
   (map_of kvs ''working_dir'' = None \<and>
    load_from_compile (JObj ((''working_dir'', wd) # kvs)) s = (Inr r, s1) \<longrightarrow>
      fst (load_from_compile (JObj kvs) s) = Inl (KeyError ''working_dir'') \<and>
      compilation_units (snd (load_from_compile (JObj kvs) s)) = compilation_units s1 \<and>
      dependencies (snd (load_from_compile (JObj kvs) s)) = dependencies s1) \<and>
   (map_of kvs ''compilation_units'' = None \<longrightarrow>
      ''legacy'' \<in> unit_keys (snd (load_from_compile (JObj kvs) s))) \<and>
   (map_of kvs ''compilation_units'' = Some (JObj ((key, j) # us)) \<longrightarrow>
      key \<in> unit_keys (snd (load_from_compile (JObj kvs) s)))"
proof (intro conjI impI)
  assume "\<not> has_required_keys doc"
  then show "\<exists>e. fst (load_from_compile doc s) = Inl e"
    by (rule missing_key_fails)
next
  assume "fst (load_from_compile doc s) = Inr r0 \<and> (path, k) \<in> set (required_paths doc)"
  then have "fst (load_from_compile doc s) = Inr r0" "(path, k) \<in> set (required_paths doc)"
    by simp_all
  then show "fst (load_from_compile (without path k doc) s) = Inl (KeyError k)"
    by (rule import_without_key)
next
  assume a: "map_of kvs ''working_dir'' = None \<and>
    load_from_compile (JObj ((''working_dir'', wd) # kvs)) s = (Inr r, s1)"
  then have none: "map_of kvs ''working_dir'' = None"
    and ok: "load_from_compile (JObj ((''working_dir'', wd) # kvs)) s = (Inr r, s1)"
    by simp_all
  from missing_working_dir [OF none ok]
  show "fst (load_from_compile (JObj kvs) s) = Inl (KeyError ''working_dir'')"
    "compilation_units (snd (load_from_compile (JObj kvs) s)) = compilation_units s1"
    "dependencies (snd (load_from_compile (JObj kvs) s)) = dependencies s1"
    by simp_all
next
  assume "map_of kvs ''compilation_units'' = None"
  then show "''legacy'' \<in> unit_keys (snd (load_from_compile (JObj kvs) s))"
    by (rule legacy_unit_registered)
next
  assume "map_of kvs ''compilation_units'' = Some (JObj ((key, j) # us))"
  then show "key \<in> unit_keys (snd (load_from_compile (JObj kvs) s))"
    by (rule first_unit_registered)
qed

definition example_fields_without_working_dir :: "(string \<times> json) list" where
  "example_fields_without_working_dir =
     [(''compilation_units'',
         JObj [(''proj'',
            JObj [(''compiler'', example_compiler), (''asts'', JObj []),
                  (''contracts'', example_contracts)])]),
      (''package'', JNull), (''type'', JInt 4)]"

lemmas path_defs =
  required_paths_def unit_paths_def contract_paths_def required_contract_keys_def view_keys_def
  unit_keys_read_def compiler_keys_def document_keys_def doc_units_def unit_contracts_def

text \<open>
  The document of the examples imports; without the view \<^verbatim>\<open>absolute\<close> of its contract
  \<^verbatim>\<open>Dep\<close>, without the \<^verbatim>\<open>srcmap\<close> of its contract \<^verbatim>\<open>Token\<close>, without the \<^verbatim>\<open>version\<close> of its
  compiler and without its \<^verbatim>\<open>type\<close> the import raises the \<^verbatim>\<open>KeyError\<close> of that key.
\<close>

theorem malformed_document_import_witness:
  "(\<exists>e. fst (load_from_compile malformed_document example_session) = Inl e) \<and>
   fst (load_from_compile
          (without [''compilation_units'', ''proj'', ''contracts'', ''Dep'', ''filenames'']
             ''absolute'' example_document) example_session) = Inl (KeyError ''absolute'') \<and>
   fst (load_from_compile
          (without [''compilation_units'', ''proj'', ''contracts'', ''Token''] ''srcmap''
             example_document) example_session) = Inl (KeyError ''srcmap'') \<and>
   fst (load_from_compile
          (without [''compilation_units'', ''proj'', ''compiler''] ''version'' example_document)
          example_session) = Inl (KeyError ''version'') \<and>
   fst (load_from_compile (without [] ''type'' example_document) example_session) =
     Inl (KeyError ''type'') \<and>
   fst (load_from_compile (JObj example_fields_without_working_dir) example_session) =
     Inl (KeyError ''working_dir'') \<and>
   dependencies (snd (load_from_compile (JObj example_fields_without_working_dir) example_session)) =
   dependencies (snd (load_from_compile
     (JObj ((''working_dir'', JStr ''/a'') # example_fields_without_working_dir)) example_session)) \<and>
   ''proj'' \<in> unit_keys (snd (load_from_compile (JObj example_fields_without_working_dir)
                               example_session)) \<and>
   ''legacy'' \<in> unit_keys (snd (load_from_compile (JObj [(''type'', JInt 4)]) example_session))"
proof -
  let ?kvs = "example_fields_without_working_dir"
  let ?full = "JObj ((''working_dir'', JStr ''/a'') # ?kvs)"
  have none: "map_of ?kvs ''working_dir'' = None"
    by (simp add: example_fields_without_working_dir_def)
  have "fst (load_from_compile ?full example_session) = Inr (JInt 4, JArr [])"
    by (simp add: example_fields_without_working_dir_def example_defs import_defs)
  then have ok: "load_from_compile ?full example_session =
      (Inr (JInt 4, JArr []), snd (load_from_compile ?full example_session))"
    by (simp add: prod_eq_iff)
  have first: "map_of ?kvs ''compilation_units'' =
      Some (JObj ((''proj'', JObj [(''compiler'', example_compiler), (''asts'', JObj []),
                  (''contracts'', example_contracts)]) # []))"
    by (simp add: example_fields_without_working_dir_def)
  have legacy: "map_of [(''type'', JInt 4)] ''compilation_units'' = None"
    by simp
  have paths:
    "([''compilation_units'', ''proj'', ''contracts'', ''Dep'', ''filenames''], ''absolute'')
       \<in> set (required_paths example_document)"
    "([''compilation_units'', ''proj'', ''contracts'', ''Token''], ''srcmap'')
       \<in> set (required_paths example_document)"
    "([''compilation_units'', ''proj'', ''compiler''], ''version'')
       \<in> set (required_paths example_document)"
    "([], ''type'') \<in> set (required_paths example_document)"
    by (simp_all add: path_defs example_defs py_in_def getitem2_def getitem_def)
  note imp = example_document_import
  from malformed_document_import
    [where doc = malformed_document and s = example_session and kvs = ?kvs and wd = "JStr ''/a''"
       and r = "(JInt 4, JArr [])" and ?s1.0 = "snd (load_from_compile ?full example_session)"]
    malformed_document_lacks_key none ok
  have 1: "\<exists>e. fst (load_from_compile malformed_document example_session) = Inl e"
    and 2: "fst (load_from_compile (JObj ?kvs) example_session) = Inl (KeyError ''working_dir'')"
    and 3: "dependencies (snd (load_from_compile (JObj ?kvs) example_session)) =
            dependencies (snd (load_from_compile ?full example_session))"
    by blast+
  from malformed_document_import
    [where doc = malformed_document and s = example_session and kvs = ?kvs and key = "''proj''"
       and j = "JObj [(''compiler'', example_compiler), (''asts'', JObj []),
                      (''contracts'', example_contracts)]" and us = "[]"] first
  have 4: "''proj'' \<in> unit_keys (snd (load_from_compile (JObj ?kvs) example_session))"
    by blast
  from malformed_document_import
    [where doc = malformed_document and s = example_session and kvs = "[(''type'', JInt 4)]"]
    legacy
  have 5: "''legacy'' \<in> unit_keys (snd (load_from_compile (JObj [(''type'', JInt 4)]) example_session))"
    by blast
  from malformed_document_import
    [where doc = example_document and s = example_session
       and ?r0.0 = "(JInt 4, JArr [JStr ''dapp test''])"
       and path = "[''compilation_units'', ''proj'', ''contracts'', ''Dep'', ''filenames'']"
       and k = "''absolute''"] imp paths(1)
  have 6: "fst (load_from_compile
          (without [''compilation_units'', ''proj'', ''contracts'', ''Dep'', ''filenames'']
             ''absolute'' example_document) example_session) = Inl (KeyError ''absolute'')"
    by blast
  from malformed_document_import
    [where doc = example_document and s = example_session
       and ?r0.0 = "(JInt 4, JArr [JStr ''dapp test''])"
       and path = "[''compilation_units'', ''proj'', ''contracts'', ''Token'']"
       and k = "''srcmap''"] imp paths(2)
  have 7: "fst (load_from_compile
          (without [''compilation_units'', ''proj'', ''contracts'', ''Token''] ''srcmap''
             example_document) example_session) = Inl (KeyError ''srcmap'')"
    by blast
  from malformed_document_import
    [where doc = example_document and s = example_session
       and ?r0.0 = "(JInt 4, JArr [JStr ''dapp test''])"
       and path = "[''compilation_units'', ''proj'', ''compiler'']" and k = "''version''"]
    imp paths(3)
  have 8: "fst (load_from_compile
          (without [''compilation_units'', ''proj'', ''compiler''] ''version'' example_document)
          example_session) = Inl (KeyError ''version'')"
    by blast
  from malformed_document_import
    [where doc = example_document and s = example_session
       and ?r0.0 = "(JInt 4, JArr [JStr ''dapp test''])" and path = "[]" and k = "''type''"]
    imp paths(4)
  have 9: "fst (load_from_compile (without [] ''type'' example_document) example_session) =
     Inl (KeyError ''type'')"
    by blast
  from 1 2 3 4 5 6 7 8 9 show ?thesis by blast
qed
subsection \<open>Resolving the platform of a re-loaded artifact\<close>

lemma PlatformType_member:
  "int_value tag = Some i \<Longrightarrow> i \<in> set members \<Longrightarrow> PlatformType members tag = Inr i"
  by (simp add: PlatformType_def)

lemma PlatformType_no_member:
  "(\<forall>i. int_value tag = Some i \<longrightarrow> i \<notin> set members) \<Longrightarrow>
   PlatformType members tag = Inl ValueError"
  by (simp add: PlatformType_def split: option.splits)

lemma standard_compile_after_import:
  assumes "load_from_compile doc s = (Inr (tag, tests), s')"
  shows "standard_compile members standard_type platforms doc s =
     (case PlatformType members tag of
        Inl e \<Rightarrow> (Inl e, s')
      | Inr ty \<Rightarrow>
          (Inr \<lparr>underlying_platform =
                   (case find (\<lambda>p. PLATFORM_TYPE p = ty) platforms of
                      Some p \<Rightarrow> p | None \<Rightarrow> Standard standard_type),
                 unit_tests = tests\<rparr>, s'))"
  unfolding standard_compile_def
  by (simp add: bindE_def assms split: sum.splits)

text \<open>
  Claim C5, as stated, fails on the code: \<^verbatim>\<open>Standard.compile\<close> converts the tag with
  \<^verbatim>\<open>PlatformType(underlying_type)\<close> before it looks for an adapter, and the call of an
  enumeration raises ValueError for a value that is no member. The fallback to
  \<^verbatim>\<open>Standard\<close> is never reached for such a tag. Here the enumeration has the members 4, 8
  and 100, the registered adapters are Dapp and Waffle, and the document carries the tag 99.
\<close>

definition unknown_tag_document :: json where
  "unknown_tag_document =
     JObj [(''compilation_units'', JObj []), (''working_dir'', JStr ''/a''), (''type'', JInt 99)]"

theorem unknown_tag_counterexample:
  "fst (load_from_compile unknown_tag_document example_session) = Inr (JInt 99, JArr []) \<and>
   fst (standard_compile [4, 8, 100] 100 [Dapp 4, Waffle 8] unknown_tag_document example_session) =
     Inl ValueError"
proof -
  have ok: "fst (load_from_compile unknown_tag_document example_session) = Inr (JInt 99, JArr [])"
    by (simp add: unknown_tag_document_def example_defs import_defs)
  then have "load_from_compile unknown_tag_document example_session =
      (Inr (JInt 99, JArr []), snd (load_from_compile unknown_tag_document example_session))"
    by (simp add: prod_eq_iff)
  from standard_compile_after_import [OF this, of "[4, 8, 100]" 100 "[Dapp 4, Waffle 8]"]
  have "fst (standard_compile [4, 8, 100] 100 [Dapp 4, Waffle 8] unknown_tag_document example_session) =
     Inl ValueError"
    by (simp add: PlatformType_def)
  with ok show ?thesis by blast
qed

text \<open>The counterexample does not depend on the values chosen: every enumeration has a non-member.\<close>

lemma some_tag_is_no_member: "\<exists>i. PlatformType members (JInt i) = Inl ValueError"
proof -
  have "1 + Max (set (0 # members)) \<notin> set members"
  proof
    assume "1 + Max (set (0 # members)) \<in> set members"
    then have "1 + Max (set (0 # members)) \<le> Max (set (0 # members))"
      by (intro Max_ge) auto
    then show False by simp
  qed
  then have "PlatformType members (JInt (1 + Max (set (0 # members)))) = Inl ValueError"
    by (simp add: PlatformType_def)
  then show ?thesis ..
qed

lemma find_first:
  "find P xs = Some x \<Longrightarrow> \<exists>ys zs. xs = ys @ x # zs \<and> (\<forall>y \<in> set ys. \<not> P y) \<and> P x"
proof (induction xs)
  case Nil
  then show ?case by simp
next
  case (Cons a xs)
  show ?case
  proof (cases "P a")
    case True
    with Cons.prems have "a = x" by simp
    with True have "a # xs = [] @ x # xs \<and> (\<forall>y \<in> set []. \<not> P y) \<and> P x" by simp
    then show ?thesis by blast
  next
    case False
    with Cons.prems have "find P xs = Some x" by simp
    from Cons.IH [OF this] obtain ys zs where
      "xs = ys @ x # zs" "\<forall>y \<in> set ys. \<not> P y" "P x" by blast
    with False have "a # xs = (a # ys) @ x # zs \<and> (\<forall>y \<in> set (a # ys). \<not> P y) \<and> P x" by simp
    then show ?thesis by blast
  qed
qed

text \<open>
  Claim C5, amended. After a successful load of the document, a tag that is a member of
  the platform-type enumeration resolves without raising: to the first registered adapter
  whose \<^verbatim>\<open>TYPE\<close> is the tag (no adapter registered before it has that type), and to the
  generic \<^verbatim>\<open>Standard\<close> class when no registered adapter has that type; the unit tests
  recorded in the document are kept. A tag that is no member of the enumeration raises
  ValueError. \<^verbatim>\<open>Standard.is_dependency\<close> returns False for every path.
\<close>

theorem adapter_fallback:
  assumes "load_from_compile doc s = (Inr (tag, tests), s')"
  shows "(\<forall>i. int_value tag = Some i \<and> i \<in> set members \<longrightarrow>
            (\<exists>d. standard_compile members standard_type platforms doc s = (Inr d, s') \<and>
                 unit_tests d = tests \<and>
                 ((\<exists>before p after.
                     platforms = before @ p # after \<and>
                     (\<forall>q \<in> set before. PLATFORM_TYPE q \<noteq> i) \<and> PLATFORM_TYPE p = i \<and>
                     underlying_platform d = p) \<or>
                  ((\<forall>q \<in> set platforms. PLATFORM_TYPE q \<noteq> i) \<and>
                   underlying_platform d = Standard standard_type)))) \<and>
         ((\<forall>i. int_value tag = Some i \<longrightarrow> i \<notin> set members) \<longrightarrow>
            standard_compile members standard_type platforms doc s = (Inl ValueError, s')) \<and>
         \<not> standard_is_dependency path"
proof (intro conjI allI impI)
  fix i
  assume a: "int_value tag = Some i \<and> i \<in> set members"
  then have pt: "PlatformType members tag = Inr i"
    by (simp add: PlatformType_member)
  let ?d = "\<lparr>underlying_platform =
               (case find (\<lambda>p. PLATFORM_TYPE p = i) platforms of
                  Some p \<Rightarrow> p | None \<Rightarrow> Standard standard_type),
             unit_tests = tests\<rparr>"
  have run: "standard_compile members standard_type platforms doc s = (Inr ?d, s')"
    by (simp add: standard_compile_after_import [OF assms] pt)
  have resolved:
    "(\<exists>before p after.
        platforms = before @ p # after \<and>
        (\<forall>q \<in> set before. PLATFORM_TYPE q \<noteq> i) \<and> PLATFORM_TYPE p = i \<and>
        underlying_platform ?d = p) \<or>
     ((\<forall>q \<in> set platforms. PLATFORM_TYPE q \<noteq> i) \<and>
      underlying_platform ?d = Standard standard_type)"
  proof (cases "find (\<lambda>p. PLATFORM_TYPE p = i) platforms")
    case None
    then have "\<forall>q \<in> set platforms. PLATFORM_TYPE q \<noteq> i"
      by (simp add: find_None_iff)
    with None show ?thesis by simp
  next
    case (Some p)
    from find_first [OF Some] obtain before after where
      "platforms = before @ p # after" "\<forall>q \<in> set before. PLATFORM_TYPE q \<noteq> i"
      "PLATFORM_TYPE p = i" by blast
    moreover have "underlying_platform ?d = p" by (simp add: Some)
    ultimately show ?thesis by blast
  qed
  from run resolved
  show "\<exists>d. standard_compile members standard_type platforms doc s = (Inr d, s') \<and>
                 unit_tests d = tests \<and>
                 ((\<exists>before p after.
                     platforms = before @ p # after \<and>
                     (\<forall>q \<in> set before. PLATFORM_TYPE q \<noteq> i) \<and> PLATFORM_TYPE p = i \<and>
                     underlying_platform d = p) \<or>
                  ((\<forall>q \<in> set platforms. PLATFORM_TYPE q \<noteq> i) \<and>
                   underlying_platform d = Standard standard_type))"
    by (intro exI [of _ ?d] conjI) simp_all
next
  assume "\<forall>i. int_value tag = Some i \<longrightarrow> i \<notin> set members"
  then have "PlatformType members tag = Inl ValueError"
    by (rule PlatformType_no_member)
  then show "standard_compile members standard_type platforms doc s = (Inl ValueError, s')"
    by (simp add: standard_compile_after_import [OF assms])
next
  show "\<not> standard_is_dependency path"
    by (simp add: standard_is_dependency_def)
qed

text \<open>
  The document of type 4 with two adapters of type 4 registered, \<^verbatim>\<open>Dapp\<close> before \<^verbatim>\<open>Waffle\<close>
  and both after an adapter of type 8: the first of the two is taken. With no adapter of
  type 4 the class is \<^verbatim>\<open>Standard\<close>; when 4 is no member of the enumeration the call raises.
\<close>

theorem adapter_fallback_witness:
  "fst (standard_compile [4, 8, 100] 100 [Waffle 8, Dapp 4, Waffle 4] example_document
         example_session) =
     Inr \<lparr>underlying_platform = Dapp 4, unit_tests = JArr [JStr ''dapp test'']\<rparr> \<and>
   fst (standard_compile [4, 8, 100] 100 [Waffle 8] example_document example_session) =
     Inr \<lparr>underlying_platform = Standard 100, unit_tests = JArr [JStr ''dapp test'']\<rparr> \<and>
   fst (standard_compile [8, 100] 100 [Waffle 8] example_document example_session) = Inl ValueError \<and>
   \<not> standard_is_dependency ''node_modules/oz/B.sol''"
proof -
  let ?s' = "snd (load_from_compile example_document example_session)"
  have ok: "load_from_compile example_document example_session =
      (Inr (JInt 4, JArr [JStr ''dapp test'']), ?s')"
    using example_document_import by (simp add: prod_eq_iff)
  have m: "int_value (JInt 4) = Some 4 \<and> 4 \<in> set [4, 8, 100 :: int]"
    by simp
  have t: "PLATFORM_TYPE (Waffle 8) = 8" "PLATFORM_TYPE (Dapp 4) = 4" "PLATFORM_TYPE (Waffle 4) = 4"
    by (simp_all add: Waffle_def Dapp_def)
  have first: "p = Dapp 4"
    if "[Waffle 8, Dapp 4, Waffle 4] = before @ p # after"
      "\<forall>q \<in> set before. PLATFORM_TYPE q \<noteq> 4" "PLATFORM_TYPE p = 4" for before p after
  proof (cases before)
    case Nil
    with that(1) have "p = Waffle 8" by simp
    with that(3) t show ?thesis by simp
  next
    case (Cons b bs)
    with that(1) have b: "b = Waffle 8" and rest: "[Dapp 4, Waffle 4] = bs @ p # after" by simp_all
    show ?thesis
    proof (cases bs)
      case Nil
      with rest show ?thesis by simp
    next
      case (Cons c cs)
      with rest have "c = Dapp 4" by simp
      with that(2) \<open>before = b # bs\<close> Cons t show ?thesis by simp
    qed
  qed
  from adapter_fallback [OF ok, of "[4, 8, 100]" 100 "[Waffle 8, Dapp 4, Waffle 4]"] m
  obtain d1 where d1:
    "standard_compile [4, 8, 100] 100 [Waffle 8, Dapp 4, Waffle 4] example_document example_session =
      (Inr d1, ?s')" "unit_tests d1 = JArr [JStr ''dapp test'']"
    and r1: "(\<exists>before p after.
         [Waffle 8, Dapp 4, Waffle 4] = before @ p # after \<and>
         (\<forall>q \<in> set before. PLATFORM_TYPE q \<noteq> 4) \<and> PLATFORM_TYPE p = 4 \<and>
         underlying_platform d1 = p) \<or>
      ((\<forall>q \<in> set [Waffle 8, Dapp 4, Waffle 4]. PLATFORM_TYPE q \<noteq> 4) \<and>
       underlying_platform d1 = Standard 100)"
    by blast
  from r1 have u1: "underlying_platform d1 = Dapp 4"
  proof
    assume "\<exists>before p after.
         [Waffle 8, Dapp 4, Waffle 4] = before @ p # after \<and>
         (\<forall>q \<in> set before. PLATFORM_TYPE q \<noteq> 4) \<and> PLATFORM_TYPE p = 4 \<and>
         underlying_platform d1 = p"
    then obtain before p after where "[Waffle 8, Dapp 4, Waffle 4] = before @ p # after"
      "\<forall>q \<in> set before. PLATFORM_TYPE q \<noteq> 4" "PLATFORM_TYPE p = 4" "underlying_platform d1 = p"
      by blast
    with first show ?thesis by simp
  next
    assume "(\<forall>q \<in> set [Waffle 8, Dapp 4, Waffle 4]. PLATFORM_TYPE q \<noteq> 4) \<and>
       underlying_platform d1 = Standard 100"
    with t show ?thesis by simp
  qed
  from adapter_fallback [OF ok, of "[4, 8, 100]" 100 "[Waffle 8]"] m
  obtain d2 where d2: "standard_compile [4, 8, 100] 100 [Waffle 8] example_document example_session =
      (Inr d2, ?s')" "unit_tests d2 = JArr [JStr ''dapp test'']"
    and r2: "(\<exists>before p after.
         [Waffle 8] = before @ p # after \<and>
         (\<forall>q \<in> set before. PLATFORM_TYPE q \<noteq> 4) \<and> PLATFORM_TYPE p = 4 \<and>
         underlying_platform d2 = p) \<or>
      ((\<forall>q \<in> set [Waffle 8]. PLATFORM_TYPE q \<noteq> 4) \<and>
       underlying_platform d2 = Standard 100)"
    by blast
  from r2 have u2: "underlying_platform d2 = Standard 100"
  proof
    assume "\<exists>before p after.
         [Waffle 8] = before @ p # after \<and>
         (\<forall>q \<in> set before. PLATFORM_TYPE q \<noteq> 4) \<and> PLATFORM_TYPE p = 4 \<and>
         underlying_platform d2 = p"
    then obtain before p after where e: "[Waffle 8] = before @ p # after"
      and p: "PLATFORM_TYPE p = 4" by blast
    from e have "p = Waffle 8" by (cases before) simp_all
    with p t show ?thesis by simp
  next
    assume "(\<forall>q \<in> set [Waffle 8]. PLATFORM_TYPE q \<noteq> 4) \<and> underlying_platform d2 = Standard 100"
    then show ?thesis by simp
  qed
  have n: "\<forall>i. int_value (JInt 4) = Some i \<longrightarrow> i \<notin> set [8, 100 :: int]"
    by simp
  from adapter_fallback [OF ok, of "[8, 100]" 100 "[Waffle 8]"] n
  have 3: "fst (standard_compile [8, 100] 100 [Waffle 8] example_document example_session) =
      Inl ValueError"
    by simp
  from adapter_fallback [OF ok, of "[4, 8, 100]" 100 "[Waffle 8]" "''node_modules/oz/B.sol''"]
  have 4: "\<not> standard_is_dependency ''node_modules/oz/B.sol''"
    by blast
  from d1 u1 have 1:
    "fst (standard_compile [4, 8, 100] 100 [Waffle 8, Dapp 4, Waffle 4] example_document
           example_session) =
     Inr \<lparr>underlying_platform = Dapp 4, unit_tests = JArr [JStr ''dapp test'']\<rparr>"
    by (cases d1) simp
  from d2 u2 have 2: "fst (standard_compile [4, 8, 100] 100 [Waffle 8] example_document example_session) =
     Inr \<lparr>underlying_platform = Standard 100, unit_tests = JArr [JStr ''dapp test'']\<rparr>"
    by (cases d2) simp
  from 1 2 3 4 show ?thesis by blast
qed
section \<open>Verification: the optimizer flag of \<^verbatim>\<open>Dapp.compile\<close>\<close>

lemma bindE_InrE:
  assumes "bindE m f s = (Inr y, s'')"
  obtains x s' where "m s = (Inr x, s')" "f x s' = (Inr y, s'')"
  using assms by (cases "m s") (auto simp add: bindE_def split: sum.splits)

lemma seqE_InrE:
  assumes "seqE m n s = (Inr y, s'')"
  obtains s' where "m s = (Inr (), s')" "n s' = (Inr y, s'')"
  using assms unfolding seqE_def by (rule bindE_InrE) auto

lemma preserved_run: "preserved P m \<Longrightarrow> m s = (r, s') \<Longrightarrow> P s \<Longrightarrow> P s'"
  by (auto simp add: preserved_def)

lemma preserved_state_if:
  "preserved P m \<Longrightarrow> preserved P n \<Longrightarrow> preserved P (\<lambda>l. if b l then m l else n l)"
  by (simp add: preserved_def)

lemma preserved_store_unit:
  "(\<And>l u. P l \<Longrightarrow> P (l\<lparr>l_unit := u\<rparr>)) \<Longrightarrow> preserved P (store_unit r f)"
  unfolding store_unit_def by (intro preserved_bindE preserved_liftE preserved_modify) simp

text \<open>The optimizer setting that a contract of the build output reports, if it reports one.\<close>

definition reported_flag :: "dapp_env \<Rightarrow> json \<Rightarrow> json option" where
  "reported_flag env info =
     (case py_in ''metadata'' info of
        Inr True \<Rightarrow>
          (case bindR (getitem info ''metadata'') (loads env) of
             Inr metadata \<Rightarrow>
               (case optimizer_reported metadata of
                  Inr True \<Rightarrow>
                    (case getitem3 metadata ''settings'' ''optimizer'' ''enabled'' of
                       Inr e \<Rightarrow> Some e
                     | Inl err \<Rightarrow> None)
                | _ \<Rightarrow> None)
           | Inl err \<Rightarrow> None)
      | _ \<Rightarrow> None)"

text \<open>The contracts of the build output, in the order of the two loops, and their flags.\<close>

definition contract_infos :: "(string \<times> json) list \<Rightarrow> json list" where
  "contract_infos files =
     concat (map (\<lambda>fc. case snd fc of JObj cs \<Rightarrow> map snd cs | _ \<Rightarrow> []) files)"

definition reported_flags :: "dapp_env \<Rightarrow> json \<Rightarrow> json list" where
  "reported_flags env targets_json =
     List.map_filter (reported_flag env)
       (contract_infos (case getitem targets_json ''contracts'' of
                          Inr (JObj files) \<Rightarrow> files | _ \<Rightarrow> []))"

lemma dapp_optimizer_ok:
  assumes "dapp_optimizer env info l = (Inr (), l')"
  shows "l' = l\<lparr>l_optimized := l_optimized l'\<rparr> \<and>
         (case reported_flag env info of
            None \<Rightarrow> l_optimized l' = l_optimized l
          | Some e \<Rightarrow> py_or (l_optimized l) e = Inr (l_optimized l'))"
  using assms unfolding dapp_optimizer_def reported_flag_def
  by (auto simp add: bindE_def split: sum.splits if_splits bool.splits)

lemma dapp_artifacts_optimized:
  "preserved (\<lambda>l. l_optimized l = c) (dapp_artifacts env f n info)"
  unfolding dapp_artifacts_def Let_def block.simps
  by (intro preserved_seqE preserved_store_unit preserved_state_if preserved_bindE
      preserved_liftE preserved_returnE preserved_modify) simp_all

lemma dapp_contract_ok:
  assumes "dapp_contract env f n info l = (Inr (), l')"
  shows "case reported_flag env info of
            None \<Rightarrow> l_optimized l' = l_optimized l
          | Some e \<Rightarrow> py_or (l_optimized l) e = Inr (l_optimized l')"
proof -
  from assms obtain l1 where 1: "dapp_optimizer env info l = (Inr (), l1)"
    and 2: "dapp_artifacts env f n info l1 = (Inr (), l')"
    unfolding dapp_contract_def by (rule seqE_InrE)
  have "l_optimized l' = l_optimized l1"
    by (rule preserved_run [OF dapp_artifacts_optimized 2]) simp
  with dapp_optimizer_ok [OF 1] show ?thesis
    by (simp split: option.splits)
qed

lemma map_filter_Cons:
  "List.map_filter g (x # xs) = (case g x of None \<Rightarrow> List.map_filter g xs
                                  | Some y \<Rightarrow> y # List.map_filter g xs)"
  by (simp add: List.map_filter_def split: option.splits)

lemma map_filter_append: "List.map_filter g (xs @ ys) = List.map_filter g xs @ List.map_filter g ys"
  by (simp add: List.map_filter_def)

lemma contracts_loop_optimized:
  assumes "for_each cs (\<lambda>(n, info). dapp_contract env f n info) l = (Inr (), l')"
    and "l_optimized l = JBool a"
    and "\<forall>e \<in> set (List.map_filter (reported_flag env) (map snd cs)). \<exists>b. e = JBool b"
  shows "l_optimized l' =
           JBool (a \<or> JBool True \<in> set (List.map_filter (reported_flag env) (map snd cs)))"
  using assms
proof (induction cs arbitrary: l a)
  case Nil
  then show ?case by (simp add: List.map_filter_def)
next
  case (Cons x cs)
  obtain n info where x: "x = (n, info)" by (cases x)
  from Cons.prems(1) obtain l1 where 1: "dapp_contract env f n info l = (Inr (), l1)"
    and 2: "for_each cs (\<lambda>(n, info). dapp_contract env f n info) l1 = (Inr (), l')"
    unfolding x by (simp only: for_each.simps prod.case) (erule seqE_InrE)
  show ?case
  proof (cases "reported_flag env info")
    case None
    with dapp_contract_ok [OF 1] Cons.prems(2) have o: "l_optimized l1 = JBool a" by simp
    from Cons.prems(3) None have
      "\<forall>e \<in> set (List.map_filter (reported_flag env) (map snd cs)). \<exists>b. e = JBool b"
      by (simp add: x map_filter_Cons)
    from Cons.IH [OF 2 o this] None show ?thesis
      by (simp add: x map_filter_Cons)
  next
    case (Some e)
    with Cons.prems(3) obtain b where b: "e = JBool b"
      by (auto simp add: x map_filter_Cons)
    with dapp_contract_ok [OF 1] Some Cons.prems(2) have o: "l_optimized l1 = JBool (a \<or> b)"
      by simp
    from Cons.prems(3) Some have
      "\<forall>e \<in> set (List.map_filter (reported_flag env) (map snd cs)). \<exists>b. e = JBool b"
      by (simp add: x map_filter_Cons)
    from Cons.IH [OF 2 o this] Some b show ?thesis
      by (auto simp add: x map_filter_Cons)
  qed
qed

lemma files_loop_optimized:
  assumes "for_each files (\<lambda>(original_filename, contracts_info).
             bindE (liftE (items contracts_info)) (\<lambda>cs.
               for_each cs (\<lambda>(n, info). dapp_contract env original_filename n info))) l =
           (Inr (), l')"
    and "l_optimized l = JBool a"
    and "\<forall>e \<in> set (List.map_filter (reported_flag env) (contract_infos files)). \<exists>b. e = JBool b"
  shows "l_optimized l' =
           JBool (a \<or> JBool True \<in> set (List.map_filter (reported_flag env) (contract_infos files)))"
  using assms
proof (induction files arbitrary: l a)
  case Nil
  then show ?case by (simp add: List.map_filter_def contract_infos_def)
next
  case (Cons x files)
  obtain f ci where x: "x = (f, ci)" by (cases x)
  from Cons.prems(1) obtain l1 where
    1: "bindE (liftE (items ci)) (\<lambda>cs.
          for_each cs (\<lambda>(n, info). dapp_contract env f n info)) l = (Inr (), l1)"
    and 2: "for_each files (\<lambda>(original_filename, contracts_info).
             bindE (liftE (items contracts_info)) (\<lambda>cs.
               for_each cs (\<lambda>(n, info). dapp_contract env original_filename n info))) l1 =
           (Inr (), l')"
    unfolding x by (simp only: for_each.simps prod.case) (erule seqE_InrE)
  from 1 obtain cs where ci: "items ci = Inr cs"
    and 3: "for_each cs (\<lambda>(n, info). dapp_contract env f n info) l = (Inr (), l1)"
    by (rule bindE_InrE) simp
  from ci have ci: "ci = JObj cs" by simp
  have infos: "contract_infos (x # files) = map snd cs @ contract_infos files"
    by (simp add: contract_infos_def x ci)
  let ?here = "List.map_filter (reported_flag env) (map snd cs)"
  let ?later = "List.map_filter (reported_flag env) (contract_infos files)"
  from Cons.prems(3) have h: "\<forall>e \<in> set ?here. \<exists>b. e = JBool b"
    and t: "\<forall>e \<in> set ?later. \<exists>b. e = JBool b"
    unfolding infos map_filter_append by auto
  from contracts_loop_optimized [OF 3 Cons.prems(2) h]
  have o: "l_optimized l1 = JBool (a \<or> JBool True \<in> set ?here)" .
  from Cons.IH [OF 2 o t] show ?case
    unfolding infos map_filter_append by auto
qed

lemma dapp_source_optimized: "preserved (\<lambda>l. l_optimized l = c) (dapp_source env target p info)"
  unfolding preserved_def dapp_source_def
  by (auto simp add: bindE_def seqE_def split: sum.splits prod.splits json.splits)

lemma dapp_body_optimized:
  assumes run: "dapp_body env target targets_json l0 = (Inr (), l')"
    and start: "l_optimized l0 = JBool False"
    and bools: "\<forall>e \<in> set (reported_flags env targets_json). \<exists>b. e = JBool b"
  shows "compiler_version (l_unit l') =
           Some \<lparr>compiler = JStr ''solc'', version = l_version l',
                 optimized = JBool (JBool True \<in> set (reported_flags env targets_json))\<rparr>"
proof -
  let ?A = "bindE (liftE (py_in ''version'' targets_json)) (\<lambda>has_version.
         if has_version
         then bindE (liftE (bindR (bindR (getitem targets_json ''version'') (findall_version env))
                              first_item)) (\<lambda>v.
              modify (\<lambda>l. l\<lparr>l_version := JStr v\<rparr>))
         else returnE ())"
  let ?loop = "\<lambda>files. for_each files (\<lambda>(original_filename, contracts_info).
           bindE (liftE (items contracts_info)) (\<lambda>cs.
             for_each cs (\<lambda>(original_contract_name, info).
               dapp_contract env original_filename original_contract_name info)))"
  let ?B = "bindE (liftE (bindR (getitem targets_json ''contracts'') items)) ?loop"
  let ?C = "bindE (liftE (bindR (getitem targets_json ''sources'') items)) (\<lambda>sources.
         for_each sources (\<lambda>(source_path, info). dapp_source env target source_path info))"
  let ?D = "\<lambda>l. (Inr (), l\<lparr>l_unit := (l_unit l)\<lparr>compiler_version :=
                 Some \<lparr>compiler = JStr ''solc'', version = l_version l,
                       optimized = l_optimized l\<rparr>\<rparr>\<rparr>)"
  from run have "seqE ?A (seqE ?B (seqE ?C ?D)) l0 = (Inr (), l')"
    unfolding dapp_body_def by (simp only: block.simps seqE_returnE)
  then obtain l1 l2 l3 where a: "?A l0 = (Inr (), l1)" and b: "?B l1 = (Inr (), l2)"
    and c: "?C l2 = (Inr (), l3)" and d: "?D l3 = (Inr (), l')"
    by (elim seqE_InrE) blast
  have pa: "preserved (\<lambda>l. l_optimized l = JBool False) ?A"
    by (intro preserved_bindE preserved_liftE preserved_if preserved_returnE preserved_modify) simp
  have o1: "l_optimized l1 = JBool False"
    by (rule preserved_run [OF pa a start])
  from b obtain files where f: "bindR (getitem targets_json ''contracts'') items = Inr files"
    and loop: "?loop files l1 = (Inr (), l2)"
    by (rule bindE_InrE) simp
  from f have files: "getitem targets_json ''contracts'' = Inr (JObj files)"
    by (auto simp add: bindR_eq_Inr)
  from bools have "\<forall>e \<in> set (List.map_filter (reported_flag env) (contract_infos files)).
      \<exists>b. e = JBool b"
    by (simp add: reported_flags_def files)
  from files_loop_optimized [OF loop o1 this]
  have o2: "l_optimized l2 = JBool (JBool True \<in> set (reported_flags env targets_json))"
    by (simp add: reported_flags_def files)
  have pc: "preserved (\<lambda>l. l_optimized l = c) ?C" for c
  proof (intro preserved_bindE preserved_liftE preserved_for_each)
    fix sources :: "(string \<times> json) list" and x :: "string \<times> json"
    show "preserved (\<lambda>l. l_optimized l = c)
            (case x of (source_path, info) \<Rightarrow> dapp_source env target source_path info)"
      by (cases x) (simp add: dapp_source_optimized)
  qed
  have o3: "l_optimized l3 = JBool (JBool True \<in> set (reported_flags env targets_json))"
    by (rule preserved_run [OF pc c o2])
  from d o3 show ?thesis by auto
qed

text \<open>
  Claim C6. When \<^verbatim>\<open>Dapp.compile\<close> succeeds on a build output whose contracts report their
  optimizer setting as booleans, the compiler version of the resulting unit is
  \<^verbatim>\<open>CompilerVersion("solc", version, optimized)\<close> where \<^verbatim>\<open>optimized\<close> is the disjunction of
  the reported flags: it is True exactly when some contract reports True. Flags False,
  True, False give True.
\<close>

theorem dapp_optimized_is_disjunction:
  assumes "dapp_compile env target found targets_json s = (Inr (), s')"
    and "\<forall>e \<in> set (reported_flags env targets_json). \<exists>b. e = JBool b"
  shows "\<exists>u cv. map_of (compilation_units s') target = Some u \<and>
           compiler_version u = Some cv \<and> compiler cv = JStr ''solc'' \<and>
           optimized cv = JBool (JBool True \<in> set (reported_flags env targets_json))"
proof -
  let ?s1 = "s\<lparr>compilation_units :=
               AList.update target (new_CompilationUnit target) (compilation_units s)\<rparr>"
  let ?l0 = "\<lparr>l_filenames = filenames ?s1,
              l_unit = (new_CompilationUnit target)\<lparr>compiler_version := Some found\<rparr>,
              l_version = JNull, l_optimized = JBool False\<rparr>"
  obtain r l where body: "dapp_body env target targets_json ?l0 = (r, l)"
    by (cases "dapp_body env target targets_json ?l0")
  with assms(1) have r: "r = Inr ()"
    and s': "s' = ?s1\<lparr>compilation_units := AList.update target (l_unit l) (compilation_units ?s1),
                       filenames := l_filenames l\<rparr>"
    unfolding dapp_compile_def by (simp_all add: Let_def)
  have "compiler_version (l_unit l) =
           Some \<lparr>compiler = JStr ''solc'', version = l_version l,
                 optimized = JBool (JBool True \<in> set (reported_flags env targets_json))\<rparr>"
    by (rule dapp_body_optimized [OF body [unfolded r] _ assms(2)]) simp
  moreover have "map_of (compilation_units s') target = Some (l_unit l)"
    by (simp add: s' AList.update_conv')
  ultimately show ?thesis by auto
qed

text \<open>
  A build output with three contracts whose metadata report the flags False, True, False.
  The external functions are stand-ins: the metadata strings \<^verbatim>\<open>optimizer-off\<close> and
  \<^verbatim>\<open>optimizer-on\<close> are parsed to the settings they name.
\<close>

definition example_metadata :: "bool \<Rightarrow> json" where
  "example_metadata b =
     JObj [(''compiler'', JObj [(''version'', JStr ''0.8.0+commit'')]),
           (''settings'', JObj [(''optimizer'', JObj [(''enabled'', JBool b), (''runs'', JInt 200)])])]"

definition example_env :: dapp_env where
  "example_env =
     \<lparr>loads = (\<lambda>j. if j = JStr ''optimizer-on'' then Inr (example_metadata True)
                    else if j = JStr ''optimizer-off'' then Inr (example_metadata False)
                    else Inl JSONDecodeError),
      findall_version = (\<lambda>j. if j = JStr ''0.8.0+commit'' then Inr [''0.8.0''] else Inr []),
      extract_name = (\<lambda>n. n),
      convert_filename = (\<lambda>p rule wd. Inr (wd @ ''/'' @ p, p, p, join ''/'' (rule (Path p))))\<rparr>"

definition example_info :: "string \<Rightarrow> json" where
  "example_info metadata =
     JObj [(''abi'', JArr []),
           (''evm'', JObj [(''bytecode'', JObj [(''object'', JStr ''6080''), (''sourceMap'', JStr ''0:1:0'')]),
                           (''deployedBytecode'', JObj [(''object'', JStr ''6040'')])]),
           (''metadata'', JStr metadata)]"

definition example_targets :: json where
  "example_targets =
     JObj [(''contracts'',
              JObj [(''src/A.sol'', JObj [(''A'', example_info ''optimizer-off''),
                                         (''B'', example_info ''optimizer-on'')]),
                    (''src/C.sol'', JObj [(''C'', example_info ''optimizer-off'')])]),
           (''sources'', JObj [(''src/A.sol'', JObj [(''ast'', JObj [])])])]"

definition example_found :: CompilerVersion where
  "example_found = \<lparr>compiler = JStr ''solc'', version = JNull, optimized = JNull\<rparr>"

lemmas dapp_defs =
  dapp_compile_def dapp_body_def dapp_contract_def dapp_optimizer_def dapp_artifacts_def
  dapp_source_def store_unit_def optimizer_reported_def getitem3_def first_item_def
  example_env_def example_info_def example_targets_def example_metadata_def example_found_def
  dapp_relative_to_short_def relative_to_def Path_def path_root_def

lemma example_reported_flags:
  "reported_flags example_env example_targets = [JBool False, JBool True, JBool False]"
  by (simp add: reported_flags_def reported_flag_def contract_infos_def List.map_filter_def
      optimizer_reported_def getitem3_def getitem2_def getitem_def py_in_def bindR_def
      example_env_def example_info_def example_targets_def example_metadata_def)

lemma example_dapp_compile:
  "fst (dapp_compile example_env ''proj'' example_found example_targets example_session) = Inr ()"
  by (simp add: dapp_defs import_defs example_session_def empty_session_def Let_def)

theorem dapp_optimized_is_disjunction_witness:
  "reported_flags example_env example_targets = [JBool False, JBool True, JBool False] \<and>
   (\<exists>u cv. map_of (compilation_units
                     (snd (dapp_compile example_env ''proj'' example_found example_targets
                             example_session))) ''proj'' = Some u \<and>
           compiler_version u = Some cv \<and> optimized cv = JBool True)"
proof -
  let ?s' = "snd (dapp_compile example_env ''proj'' example_found example_targets example_session)"
  have ok: "dapp_compile example_env ''proj'' example_found example_targets example_session =
      (Inr (), ?s')"
    using example_dapp_compile by (simp add: prod_eq_iff)
  have bools: "\<forall>e \<in> set (reported_flags example_env example_targets). \<exists>b. e = JBool b"
    by (auto simp add: example_reported_flags)
  from dapp_optimized_is_disjunction [OF ok bools]
  obtain u cv where "map_of (compilation_units ?s') ''proj'' = Some u"
    "compiler_version u = Some cv"
    "optimized cv = JBool (JBool True \<in> set (reported_flags example_env example_targets))"
    by blast
  then have "\<exists>u cv. map_of (compilation_units ?s') ''proj'' = Some u \<and>
           compiler_version u = Some cv \<and> optimized cv = JBool True"
    by (auto simp add: example_reported_flags)
  with example_reported_flags show ?thesis by blast
qed


section \<open>Export followed by import\<close>

subsection \<open>Units that the export can write\<close>

text \<open>
  A source map as \<^verbatim>\<open>split(";")\<close> leaves it: at least one segment, and no segment holds a
  semicolon.
\<close>

definition segments :: "string list \<Rightarrow> bool" where
  "segments segs \<longleftrightarrow> segs \<noteq> [] \<and> list_all (\<lambda>w. CHR '';'' \<notin> set w) segs"










subsection \<open>The exported entry of a contract, read back\<close>


lemma segments_split_on: "segments (split_on (CHR '';'') w)"
  unfolding segments_def by (simp add: split_on_nonempty list_all_iff split_on_no_sep)



subsection \<open>The exported unit and the exported document, read back\<close>




subsection \<open>The units and the dependencies after the import\<close>





lemma empty_session_frame [simp]:
  "compilation_units (empty_session pf) = []"
  "dependencies (empty_session pf) = {}"
  by (simp_all add: empty_session_def)





subsection \<open>Two sessions of the Standard adapter\<close>

















end
